(* ===== verification/Prelude.thy ===== *)
theory Prelude
  imports Main "HOL-Library.Word" "HOL-Library.Multiset"
begin

text \<open>
  Shared vocabulary of the development: the machine integer types of the C++ code, C
  strings, the standard containers the code iterates over, and the general facts about
  them that the component theories use.
\<close>

named_theorems outcome_simps \<open>evaluation rules of the result types\<close>
named_theorems container_simps \<open>lookups in the containers\<close>

section \<open>Machine integers\<close>

type_synonym size_t = "64 word"
type_synonym int64 = "64 word"
type_synonym uint16 = "16 word"

text \<open>
  On the platforms the service is built for \<open>std::size_t\<close> has 64 bits. The subtraction
  of the smaller from the larger of two sizes is exact.
\<close>

lemma unat_sub_le: "unat (b :: 'a::len word) \<le> unat a \<Longrightarrow> unat (a - b) = unat a - unat b"
  by (simp add: unat_sub word_le_nat_alt)

lemma unat_add_no_wrap:
  "unat (a :: 'a::len word) + unat b < 2 ^ LENGTH('a) \<Longrightarrow> unat (a + b) = unat a + unat b"
  by (simp add: unat_word_ariths)

lemma size_t_bound: "unat (x :: size_t) < 2 ^ 64"
  using unsigned_less [of x] by simp

section \<open>C strings\<close>

text \<open>
  A \<open>std::string\<close> may hold NUL bytes. Wherever the code hands \<open>.data()\<close> or
  \<open>.c_str()\<close> to a function that takes a \<open>const char*\<close>, or builds a string from
  one, only the part before the first NUL is seen.
\<close>

definition c_str :: "string \<Rightarrow> string" where
  "c_str s = takeWhile (\<lambda>c. c \<noteq> CHR 0x00) s"

definition no_nul :: "string \<Rightarrow> bool" where
  "no_nul s \<longleftrightarrow> CHR 0x00 \<notin> set s"

lemma c_str_no_nul [simp]: "no_nul s \<Longrightarrow> c_str s = s"
  unfolding c_str_def no_nul_def by (induction s) auto

lemma no_nul_c_str [simp]: "no_nul (c_str s)"
  unfolding c_str_def no_nul_def by (induction s) auto

lemma c_str_Nil [simp]: "c_str [] = []"
  by (simp add: c_str_def)

lemma c_str_idem [simp]: "c_str (c_str s) = c_str s"
  by simp

section \<open>\<open>std::unordered_map\<close>\<close>

text \<open>
  An unordered map is the list of its entries in iteration order. The standard leaves
  that order open and lets an insertion change it, so every insertion goes through a
  parameter \<open>reh\<close> (the rehash), of which the proofs use only that it permutes.
  \<open>emplace\<close> keeps the entry that is there.
\<close>

type_synonym ('k, 'v) umap = "('k \<times> 'v) list"
type_synonym ('k, 'v) rehash = "('k, 'v) umap \<Rightarrow> ('k, 'v) umap"

definition permutes_entries :: "('k, 'v) rehash \<Rightarrow> bool" where
  "permutes_entries reh \<longleftrightarrow> (\<forall>m. mset (reh m) = mset m)"

definition um_emplace :: "('k, 'v) rehash \<Rightarrow> 'k \<Rightarrow> 'v \<Rightarrow> ('k, 'v) umap \<Rightarrow> ('k, 'v) umap" where
  "um_emplace reh k v m = (if k \<in> fst ` set m then m else reh (m @ [(k, v)]))"

definition um_ok :: "('k, 'v) umap \<Rightarrow> bool" where
  "um_ok m \<longleftrightarrow> distinct (map fst m)"

lemma permutes_entriesD: "permutes_entries reh \<Longrightarrow> mset (reh m) = mset m"
  by (simp add: permutes_entries_def)

lemma map_of_mset_eq:
  assumes "mset xs = mset ys" and "distinct (map fst ys)"
  shows "map_of xs = map_of ys"
proof -
  from assms(1) have "mset (map fst xs) = mset (map fst ys)" by simp
  with assms(2) have "distinct (map fst xs)" by (metis mset_eq_imp_distinct_iff)
  with assms show ?thesis by (metis map_of_eqI map_of_inject_set mset_eq_setD)
qed

lemma map_of_eq_mset:
  assumes "map_of xs = map_of ys" and "distinct (map fst xs)" and "distinct (map fst ys)"
  shows "mset xs = mset ys"
  using assms by (metis distinct_map map_of_inject_set set_eq_iff_mset_eq_distinct)

lemma um_ok_Nil [simp]: "um_ok []"
  by (simp add: um_ok_def)

lemma um_ok_emplace:
  assumes "permutes_entries reh" and "um_ok m"
  shows "um_ok (um_emplace reh k v m)"
proof (cases "k \<in> fst ` set m")
  case True
  with assms(2) show ?thesis by (simp add: um_emplace_def)
next
  case False
  have "mset (map fst (reh (m @ [(k, v)]))) = mset (map fst (m @ [(k, v)]))"
    using assms(1) by (simp add: permutes_entriesD)
  moreover have "distinct (map fst (m @ [(k, v)]))"
    using assms(2) False by (auto simp: um_ok_def)
  ultimately have "distinct (map fst (reh (m @ [(k, v)])))"
    by (metis mset_eq_imp_distinct_iff)
  with False show ?thesis by (simp add: um_emplace_def um_ok_def)
qed

lemma map_of_emplace:
  assumes "permutes_entries reh" and "um_ok m"
  shows "map_of (um_emplace reh k v m) =
    (if k \<in> fst ` set m then map_of m else (map_of m)(k \<mapsto> v))"
proof (cases "k \<in> fst ` set m")
  case True
  then show ?thesis by (simp add: um_emplace_def)
next
  case False
  have d: "distinct (map fst (m @ [(k, v)]))"
    using assms(2) False by (auto simp: um_ok_def)
  have "map_of (reh (m @ [(k, v)])) = map_of (m @ [(k, v)])"
    by (rule map_of_mset_eq [OF permutes_entriesD [OF assms(1)] d])
  moreover have "map_of (m @ [(k, v)]) = (map_of m)(k \<mapsto> v)"
  proof -
    from False have "map_of m k = None" by (simp add: map_of_eq_None_iff)
    then show ?thesis by (auto simp: fun_eq_iff map_add_def split: option.split)
  qed
  ultimately show ?thesis using False by (simp add: um_emplace_def)
qed

lemma map_of_emplace_at:
  assumes "permutes_entries reh" and "um_ok m"
  shows "map_of (um_emplace reh k v m) n =
    (case map_of m n of Some w \<Rightarrow> Some w | None \<Rightarrow> if n = k then Some v else None)"
proof (cases "k \<in> fst ` set m")
  case True
  then obtain w where "map_of m k = Some w" by (metis map_of_eq_None_iff not_Some_eq)
  with True show ?thesis using map_of_emplace [OF assms, of k v] by (auto split: option.split)
next
  case False
  then have "map_of m k = None" by (simp add: map_of_eq_None_iff)
  with False show ?thesis using map_of_emplace [OF assms, of k v] by (auto split: option.split)
qed

section \<open>Decimal numbers\<close>

text \<open>\<open>fmt::format("{}", n)\<close> of an unsigned integer.\<close>

fun decimal :: "nat \<Rightarrow> string" where
  "decimal n =
     (if n < 10 then [char_of (48 + n)] else decimal (n div 10) @ [char_of (48 + n mod 10)])"

declare decimal.simps [simp del]

text \<open>A text in single quotes.\<close>

definition quoted :: "string \<Rightarrow> string" where
  "quoted s = CHR 0x27 # s @ [CHR 0x27]"

text \<open>The decimal form of a signed number.\<close>

definition decimal_int :: "int \<Rightarrow> string" where
  "decimal_int i = (if i < 0 then ''-'' @ decimal (nat (- i)) else decimal (nat i))"

end
