(* ===== verification/Exceptions.thy ===== *)
theory Exceptions
  imports Prelude
begin

text \<open>
  The exception classes of \<open>src/miet/lambda/exceptions.hpp\<close> and the result types every
  component uses: a C++ call returns, throws, leaves by a Lua error jump, or is undefined.
\<close>

section \<open>Exceptions\<close>

text \<open>
  The classes the program declares, then what else may travel as a C++ exception:
  any other class derived from \<open>std::exception\<close> (with its \<open>what()\<close>) and a thrown
  object of an unrelated type.
\<close>

datatype cpp_exn =
    NotFoundScriptError string
  | InternalError string
  | CompilationError string
  | ExecutionError string
  | ExecutionTimeout string
  | OutOfMemoryLimit string
  | StdException string
  | ForeignException

text \<open>\<open>InternalError\<close> is the base class of four of them, \<open>std::exception\<close> of all but the last.\<close>

fun is_internal_error :: "cpp_exn \<Rightarrow> bool" where
  "is_internal_error (InternalError _) = True"
| "is_internal_error (CompilationError _) = True"
| "is_internal_error (ExecutionError _) = True"
| "is_internal_error (ExecutionTimeout _) = True"
| "is_internal_error (OutOfMemoryLimit _) = True"
| "is_internal_error _ = False"

definition is_std_exception :: "cpp_exn \<Rightarrow> bool" where
  "is_std_exception e \<longleftrightarrow> e \<noteq> ForeignException"

fun what :: "cpp_exn \<Rightarrow> string" where
  "what (NotFoundScriptError m) = m"
| "what (InternalError m) = m"
| "what (CompilationError m) = m"
| "what (ExecutionError m) = m"
| "what (ExecutionTimeout m) = m"
| "what (OutOfMemoryLimit m) = m"
| "what (StdException m) = m"
| "what ForeignException = []"

section \<open>Outcomes of a call\<close>

text \<open>
  \<open>LuaJump\<close> is \<open>luaL_error\<close>: the Lua library is the C build, so the jump runs past
  every C++ handler. \<open>Crash StdTerminate\<close> is the end of the process; the other crashes are
  behaviour the C++ standard leaves undefined, and the model says nothing of what follows.
  \<open>NullCString\<close> is a string or an exception made from a null \<open>const char*\<close>: undefined by the
  standard, while libstdc++ happens to throw \<open>std::logic_error\<close>. \<open>NoFuel\<close> marks a loop that
  has not ended within the fuel given.
\<close>

datatype crash = NullDereference | NullCString | StdTerminate | BadConversion | StackUnderflow | StackOverflow

datatype 'a outcome =
    Ret 'a
  | Throw cpp_exn
  | LuaJump string
  | Crash crash
  | NoFuel

fun bindO :: "'a outcome \<Rightarrow> ('a \<Rightarrow> 'b outcome) \<Rightarrow> 'b outcome" where
  "bindO (Ret x) f = f x"
| "bindO (Throw e) f = Throw e"
| "bindO (LuaJump m) f = LuaJump m"
| "bindO (Crash c) f = Crash c"
| "bindO NoFuel f = NoFuel"

text \<open>\<open>try { m } catch (const std::exception& e) { h e }\<close>\<close>

fun catch_std :: "'a outcome \<Rightarrow> (cpp_exn \<Rightarrow> 'a outcome) \<Rightarrow> 'a outcome" where
  "catch_std (Throw e) h = (if is_std_exception e then h e else Throw e)"
| "catch_std (Ret x) h = Ret x"
| "catch_std (LuaJump m) h = LuaJump m"
| "catch_std (Crash c) h = Crash c"
| "catch_std NoFuel h = NoFuel"

text \<open>\<open>try { m } catch (...) { h }\<close>\<close>

fun catch_all :: "'a outcome \<Rightarrow> (cpp_exn \<Rightarrow> 'a outcome) \<Rightarrow> 'a outcome" where
  "catch_all (Throw e) h = h e"
| "catch_all (Ret x) h = Ret x"
| "catch_all (LuaJump m) h = LuaJump m"
| "catch_all (Crash c) h = Crash c"
| "catch_all NoFuel h = NoFuel"

text \<open>The same for calls that change a state: the state is threaded on every path.\<close>

type_synonym ('s, 'a) action = "'s \<Rightarrow> 'a outcome \<times> 's"

definition returnS :: "'a \<Rightarrow> ('s, 'a) action" where
  "returnS x s = (Ret x, s)"

definition throwS :: "cpp_exn \<Rightarrow> ('s, 'a) action" where
  "throwS e s = (Throw e, s)"

definition jumpS :: "string \<Rightarrow> ('s, 'a) action" where
  "jumpS m s = (LuaJump m, s)"

definition getS :: "('s \<Rightarrow> 'a) \<Rightarrow> ('s, 'a) action" where
  "getS f s = (Ret (f s), s)"

definition modifyS :: "('s \<Rightarrow> 's) \<Rightarrow> ('s, unit) action" where
  "modifyS f s = (Ret (), f s)"

definition liftS :: "'a outcome \<Rightarrow> ('s, 'a) action" where
  "liftS r s = (r, s)"

definition bindS :: "('s, 'a) action \<Rightarrow> ('a \<Rightarrow> ('s, 'b) action) \<Rightarrow> ('s, 'b) action" where
  "bindS m f s =
     (case m s of
        (Ret x, t) \<Rightarrow> f x t
      | (Throw e, t) \<Rightarrow> (Throw e, t)
      | (LuaJump msg, t) \<Rightarrow> (LuaJump msg, t)
      | (Crash c, t) \<Rightarrow> (Crash c, t)
      | (NoFuel, t) \<Rightarrow> (NoFuel, t))"

definition thenS :: "('s, unit) action \<Rightarrow> ('s, 'b) action \<Rightarrow> ('s, 'b) action" where
  "thenS m k = bindS m (\<lambda>_. k)"

definition catch_stdS :: "('s, 'a) action \<Rightarrow> (cpp_exn \<Rightarrow> ('s, 'a) action) \<Rightarrow> ('s, 'a) action" where
  "catch_stdS m h s =
     (case m s of
        (Throw e, t) \<Rightarrow> (if is_std_exception e then h e t else (Throw e, t))
      | r \<Rightarrow> r)"

definition catch_allS :: "('s, 'a) action \<Rightarrow> (cpp_exn \<Rightarrow> ('s, 'a) action) \<Rightarrow> ('s, 'a) action" where
  "catch_allS m h s = (case m s of (Throw e, t) \<Rightarrow> h e t | r \<Rightarrow> r)"

text \<open>A call that changes the first part of a state only.\<close>

definition firstS :: "('w, 'a) action \<Rightarrow> ('w \<times> 's, 'a) action" where
  "firstS m ws = (case m (fst ws) of (r, w') \<Rightarrow> (r, (w', snd ws)))"

text \<open>One that changes the second part only.\<close>

definition secondS :: "('w, 'a) action \<Rightarrow> ('s \<times> 'w, 'a) action" where
  "secondS m sw = (case m (snd sw) of (r, w') \<Rightarrow> (r, (fst sw, w')))"

section \<open>Evaluation rules\<close>

lemma bindS_Ret [outcome_simps]: "m s = (Ret x, t) \<Longrightarrow> bindS m f s = f x t"
  and bindS_Throw [outcome_simps]: "m s = (Throw e, t) \<Longrightarrow> bindS m f s = (Throw e, t)"
  and bindS_LuaJump [outcome_simps]: "m s = (LuaJump msg, t) \<Longrightarrow> bindS m f s = (LuaJump msg, t)"
  and bindS_NoFuel [outcome_simps]: "m s = (NoFuel, t) \<Longrightarrow> bindS m f s = (NoFuel, t)"
  and bindS_Crash [outcome_simps]: "m s = (Crash c, t) \<Longrightarrow> bindS m f s = (Crash c, t)"
  by (simp_all add: bindS_def)

lemma basicS [outcome_simps]:
  "returnS x s = (Ret x, s)" "throwS e s = (Throw e, s)" "jumpS m s = (LuaJump m, s)"
  "getS f s = (Ret (f s), s)" "modifyS g s = (Ret (), g s)" "liftS r s = (r, s)"
  by (simp_all add: returnS_def throwS_def jumpS_def getS_def modifyS_def liftS_def)

lemma firstS_eq [outcome_simps]: "m w = (r, w') \<Longrightarrow> firstS m (w, s) = (r, (w', s))"
  by (simp add: firstS_def)

lemma secondS_eq [outcome_simps]: "m w = (r, w') \<Longrightarrow> secondS m (s, w) = (r, (s, w'))"
  by (simp add: secondS_def)

lemma thenS_modify [outcome_simps]: "thenS (modifyS g) k s = k (g s)"
  by (simp add: thenS_def bindS_def modifyS_def)

lemma thenS_Ret [outcome_simps]: "m s = (Ret (), t) \<Longrightarrow> thenS m k s = k t"
  by (simp add: thenS_def bindS_def)

lemma thenS_Throw [outcome_simps]: "m s = (Throw e, t) \<Longrightarrow> thenS m k s = (Throw e, t)"
  by (simp add: thenS_def bindS_def)

lemma thenS_LuaJump [outcome_simps]: "m s = (LuaJump e, t) \<Longrightarrow> thenS m k s = (LuaJump e, t)"
  by (simp add: thenS_def bindS_def)

lemma thenS_NoFuel [outcome_simps]: "m s = (NoFuel, t) \<Longrightarrow> thenS m k s = (NoFuel, t)"
  by (simp add: thenS_def bindS_def)

lemma thenS_Crash [outcome_simps]: "m s = (Crash c, t) \<Longrightarrow> thenS m k s = (Crash c, t)"
  by (simp add: thenS_def bindS_def)

lemma catch_stdS_Ret [outcome_simps]: "m s = (Ret x, t) \<Longrightarrow> catch_stdS m h s = (Ret x, t)"
  and catch_stdS_Throw [outcome_simps]:
    "m s = (Throw e, t) \<Longrightarrow> is_std_exception e \<Longrightarrow> catch_stdS m h s = h e t"
  and catch_stdS_Foreign [outcome_simps]:
    "m s = (Throw e, t) \<Longrightarrow> \<not> is_std_exception e \<Longrightarrow> catch_stdS m h s = (Throw e, t)"
  and catch_stdS_LuaJump [outcome_simps]: "m s = (LuaJump msg, t) \<Longrightarrow> catch_stdS m h s = (LuaJump msg, t)"
  and catch_stdS_NoFuel [outcome_simps]: "m s = (NoFuel, t) \<Longrightarrow> catch_stdS m h s = (NoFuel, t)"
  and catch_stdS_Crash [outcome_simps]: "m s = (Crash c, t) \<Longrightarrow> catch_stdS m h s = (Crash c, t)"
  by (simp_all add: catch_stdS_def)

lemma catch_allS_Ret [outcome_simps]: "m s = (Ret x, t) \<Longrightarrow> catch_allS m h s = (Ret x, t)"
  and catch_allS_Throw [outcome_simps]: "m s = (Throw e, t) \<Longrightarrow> catch_allS m h s = h e t"
  and catch_allS_LuaJump [outcome_simps]: "m s = (LuaJump msg, t) \<Longrightarrow> catch_allS m h s = (LuaJump msg, t)"
  and catch_allS_NoFuel [outcome_simps]: "m s = (NoFuel, t) \<Longrightarrow> catch_allS m h s = (NoFuel, t)"
  and catch_allS_Crash [outcome_simps]: "m s = (Crash c, t) \<Longrightarrow> catch_allS m h s = (Crash c, t)"
  by (simp_all add: catch_allS_def)

lemma is_std_exception_simps [simp]:
  "is_std_exception (NotFoundScriptError m)" "is_std_exception (InternalError m)"
  "is_std_exception (CompilationError m)" "is_std_exception (ExecutionError m)"
  "is_std_exception (ExecutionTimeout m)" "is_std_exception (OutOfMemoryLimit m)"
  "is_std_exception (StdException m)" "\<not> is_std_exception ForeignException"
  by (simp_all add: is_std_exception_def)

lemma internal_errors_are_std: "is_internal_error e \<Longrightarrow> is_std_exception e"
  by (cases e) simp_all

lemma bindO_Ret_iff: "bindO m f = Ret y \<longleftrightarrow> (\<exists>x. m = Ret x \<and> f x = Ret y)"
  by (cases m) simp_all

section \<open>Calls that return or throw\<close>

text \<open>
  The ordinary ends of a call: it returns, or it throws an exception that a handler for
  \<open>std::exception\<close> catches.
\<close>

definition answersO :: "'a outcome \<Rightarrow> bool" where
  "answersO r \<longleftrightarrow> (\<exists>x. r = Ret x) \<or> (\<exists>e. r = Throw e \<and> is_std_exception e)"

definition answersS :: "'a outcome \<times> 's \<Rightarrow> bool" where
  "answersS r \<longleftrightarrow> answersO (fst r)"

lemma answersO_Ret [simp, intro]: "answersO (Ret x)"
  and answersO_Throw [simp]: "answersO (Throw e) \<longleftrightarrow> is_std_exception e"
  and answersO_others [simp]: "\<not> answersO (LuaJump m)" "\<not> answersO (Crash c)" "\<not> answersO NoFuel"
  by (auto simp: answersO_def)

lemma answersS_pair [simp]: "answersS (r, s) \<longleftrightarrow> answersO r"
  by (simp add: answersS_def)

lemma answersS_cases:
  assumes "answersS res"
  obtains (ret) x t where "res = (Ret x, t)" | (throw) e t where "res = (Throw e, t)" "is_std_exception e"
proof (cases res)
  case (Pair r t)
  with assms show ?thesis by (cases r) (auto intro: that)
qed

lemma answersS_bindS:
  assumes "answersS (m s)" and "\<And>x t. m s = (Ret x, t) \<Longrightarrow> answersS (f x t)"
  shows "answersS (bindS m f s)"
  using assms(1) by (rule answersS_cases) (auto simp: outcome_simps assms(2))

end
