(* ===== verification/Memory_Limit.thy ===== *)
theory Memory_Limit
  imports Exceptions
begin

text \<open>
  The memory limit of a script: the interface \<open>MemoryLimitCheckerBase\<close> with its
  contract, its implementation \<open>MemoryLimitChecker\<close>, and the client of the interface,
  the allocator \<open>LuaAllocator\<close> that the executor gives to the Lua state. The C heap is
  the map of the live blocks to their sizes.
\<close>

section \<open>The interface \<open>MemoryLimitCheckerBase\<close>\<close>

record 'c memory_checker_base =
  Allocated :: "size_t \<Rightarrow> 'c \<Rightarrow> 'c"
  Deallocated :: "size_t \<Rightarrow> 'c \<Rightarrow> 'c"
  IsLimitReached :: "'c \<Rightarrow> bool"

record 'c memory_checkers_factory_base =
  CreateMemoryChecker :: "size_t \<Rightarrow> 'c"

section \<open>\<open>MemoryLimitChecker\<close>\<close>

record memory_limit_checker =
  used :: size_t
  limit :: size_t

definition new_memory_limit_checker :: "size_t \<Rightarrow> memory_limit_checker" where
  "new_memory_limit_checker lim = \<lparr>used = 0, limit = lim\<rparr>"

definition allocated :: "size_t \<Rightarrow> memory_limit_checker \<Rightarrow> memory_limit_checker" where
  "allocated sz c = c\<lparr>used := used c + sz\<rparr>"

definition deallocated :: "size_t \<Rightarrow> memory_limit_checker \<Rightarrow> memory_limit_checker" where
  "deallocated sz c =
     (if used c < sz then c\<lparr>used := 0\<rparr> else c\<lparr>used := used c - sz\<rparr>)"

definition is_limit_reached :: "memory_limit_checker \<Rightarrow> bool" where
  "is_limit_reached c \<longleftrightarrow> limit c < used c"

definition memory_limit_checker_vt :: "memory_limit_checker memory_checker_base" where
  "memory_limit_checker_vt =
     \<lparr>Allocated = allocated, Deallocated = deallocated, IsLimitReached = is_limit_reached\<rparr>"

definition memory_limit_checkers_factory :: "memory_limit_checker memory_checkers_factory_base" where
  "memory_limit_checkers_factory = \<lparr>CreateMemoryChecker = new_memory_limit_checker\<rparr>"

section \<open>The allocator\<close>

type_synonym addr = nat
type_synonym heap = "addr \<Rightarrow> size_t option"

text \<open>
  The C library: \<open>free\<close> drops the block, \<open>free(NULL)\<close> does nothing. \<open>realloc\<close>
  to a nonzero size either fails, which leaves the heap alone, or returns a block of the
  new size in place of the old one; \<open>answer\<close> is its choice.
\<close>

definition c_free :: "addr option \<Rightarrow> heap \<Rightarrow> heap" where
  "c_free ptr h = (case ptr of None \<Rightarrow> h | Some p \<Rightarrow> h(p := None))"

definition c_realloc :: "addr option \<Rightarrow> addr option \<Rightarrow> size_t \<Rightarrow> heap \<Rightarrow> addr option \<times> heap" where
  "c_realloc answer ptr nsize h =
     (case answer of
        None \<Rightarrow> (None, h)
      | Some q \<Rightarrow> (Some q, (c_free ptr h)(q \<mapsto> nsize)))"

text \<open>
  An allocator of Lua: its arguments \<open>ud\<close>, \<open>ptr\<close>, \<open>osize\<close> and \<open>nsize\<close>, the answer of \<open>realloc\<close>
  and the heap. \<open>LuaAllocator\<close> is one over the virtual methods of the checker.
\<close>

type_synonym 'c allocator =
  "'c option \<Rightarrow> addr option \<Rightarrow> size_t \<Rightarrow> size_t \<Rightarrow> addr option \<Rightarrow> heap \<Rightarrow> (addr option \<times> 'c \<times> heap) outcome"

definition lua_allocator :: "'c memory_checker_base \<Rightarrow> 'c allocator" where
  "lua_allocator vt ud ptr osize nsize answer h =
     (case ud of
        None \<Rightarrow> Throw (StdException ''Memory limit checker is NULL'')
      | Some checker \<Rightarrow>
          let osize = (if ptr = None then 0 else osize)
          in if nsize = 0
             then Ret (None, Deallocated vt osize checker, c_free ptr h)
             else
               let alloc = (if osize < nsize then nsize - osize else osize - nsize);
                   checker = Allocated vt alloc checker
               in if IsLimitReached vt checker
                  then Ret (None, checker, h)
                  else case c_realloc answer ptr nsize h of
                         (p, h') \<Rightarrow> Ret (p, checker, h'))"

section \<open>Runs of the allocator\<close>

text \<open>
  Lua calls the allocator with the original size of the block it passes. A request also
  carries the answer of \<open>realloc\<close>, which never hands out a live block except the one
  it was given.
\<close>

record alloc_request =
  rq_ptr :: "addr option"
  rq_osize :: size_t
  rq_nsize :: size_t
  rq_answer :: "addr option"

definition request_ok :: "heap \<Rightarrow> alloc_request \<Rightarrow> bool" where
  "request_ok h r \<longleftrightarrow>
     (case rq_ptr r of None \<Rightarrow> True | Some p \<Rightarrow> h p = Some (rq_osize r)) \<and>
     (case rq_answer r of None \<Rightarrow> True | Some q \<Rightarrow> h q = None \<or> rq_ptr r = Some q)"

text \<open>What a request adds to the checker's count.\<close>

definition request_charge :: "alloc_request \<Rightarrow> nat" where
  "request_charge r =
     (let o' = (if rq_ptr r = None then 0 else unat (rq_osize r)); n = unat (rq_nsize r)
      in if n = 0 then 0 else if o' < n then n - o' else o' - n)"

fun alloc_run ::
  "'c allocator \<Rightarrow> alloc_request list \<Rightarrow> 'c \<times> heap \<Rightarrow> ('c \<times> heap) outcome" where
  "alloc_run alloc [] s = Ret s"
| "alloc_run alloc (r # rs) (c, h) =
     bindO (alloc (Some c) (rq_ptr r) (rq_osize r) (rq_nsize r) (rq_answer r) h)
       (\<lambda>(p, c', h'). alloc_run alloc rs (c', h'))"

fun run_ok :: "'c allocator \<Rightarrow> alloc_request list \<Rightarrow> 'c \<times> heap \<Rightarrow> bool" where
  "run_ok alloc [] s = True"
| "run_ok alloc (r # rs) (c, h) =
     (request_ok h r \<and>
      (case alloc (Some c) (rq_ptr r) (rq_osize r) (rq_nsize r) (rq_answer r) h of
         Ret (p, c', h') \<Rightarrow> run_ok alloc rs (c', h')
       | _ \<Rightarrow> False))"

text \<open>Some request for memory in the run was refused.\<close>

fun run_refused :: "'c allocator \<Rightarrow> alloc_request list \<Rightarrow> 'c \<times> heap \<Rightarrow> bool" where
  "run_refused alloc [] s = False"
| "run_refused alloc (r # rs) (c, h) =
     (case alloc (Some c) (rq_ptr r) (rq_osize r) (rq_nsize r) (rq_answer r) h of
        Ret (p, c', h') \<Rightarrow> rq_nsize r \<noteq> 0 \<and> p = None \<or> run_refused alloc rs (c', h')
      | _ \<Rightarrow> False)"

definition run_charge :: "alloc_request list \<Rightarrow> nat" where
  "run_charge rs = sum_list (map request_charge rs)"

definition live_bytes :: "heap \<Rightarrow> nat" where
  "live_bytes h = (\<Sum>p \<in> dom h. unat (the (h p)))"

lemma run_charge_simps [simp]:
  "run_charge [] = 0" "run_charge (r # rs) = request_charge r + run_charge rs"
  by (simp_all add: run_charge_def)

section \<open>Live bytes\<close>

lemma live_bytes_empty [simp]: "live_bytes Map.empty = 0"
  by (simp add: live_bytes_def)

lemma live_bytes_delete:
  assumes "finite (dom h)" and "h p = Some n"
  shows "live_bytes (h(p := None)) + unat n = live_bytes h"
proof -
  have "p \<in> dom h" using assms(2) by blast
  then have "live_bytes h = unat n + (\<Sum>q \<in> dom h - {p}. unat (the (h q)))"
    using assms by (simp add: live_bytes_def sum.remove [of "dom h" p])
  also have "(\<Sum>q \<in> dom h - {p}. unat (the (h q))) = live_bytes (h(p := None))"
    unfolding live_bytes_def by (rule sum.cong) auto
  finally show ?thesis by simp
qed

lemma live_bytes_insert:
  assumes "finite (dom h)" and "h p = None"
  shows "live_bytes (h(p \<mapsto> n)) = live_bytes h + unat n"
proof -
  have "live_bytes ((h(p \<mapsto> n))(p := None)) + unat n = live_bytes (h(p \<mapsto> n))"
    by (rule live_bytes_delete) (use assms(1) in auto)
  moreover have "(h(p \<mapsto> n))(p := None) = h" using assms(2) by (simp add: fun_upd_idem)
  ultimately show ?thesis by simp
qed

lemma live_bytes_free:
  assumes "finite (dom h)" and "case ptr of None \<Rightarrow> n = 0 | Some p \<Rightarrow> h p = Some n"
  shows "live_bytes (c_free ptr h) + unat n = live_bytes h"
  using assms by (cases ptr) (auto simp: c_free_def live_bytes_delete)

lemma finite_dom_free [simp]: "finite (dom h) \<Longrightarrow> finite (dom (c_free ptr h))"
  by (cases ptr) (simp_all add: c_free_def)

section \<open>The contract of a checker, and the allocator under it\<close>

text \<open>
  What \<open>LuaAllocator\<close> relies on: \<open>charged\<close> is the number of bytes the checker
  believes to be in use and \<open>budget\<close> its limit. Charging is exact as long as the count
  stays below \<open>2^64\<close>, releasing as long as no more is released than was charged; the count
  is never more than what was charged.
\<close>

locale memory_limit_contract =
  fixes vt :: "'c memory_checker_base" and charged :: "'c \<Rightarrow> nat" and budget :: "'c \<Rightarrow> nat"
  assumes charged_Allocated: "charged c + unat n < 2 ^ 64 \<Longrightarrow> charged (Allocated vt n c) = charged c + unat n"
    and charged_Deallocated: "unat n \<le> charged c \<Longrightarrow> charged (Deallocated vt n c) = charged c - unat n"
    and Allocated_at_most: "charged (Allocated vt n c) \<le> charged c + unat n"
    and Deallocated_at_most: "charged (Deallocated vt n c) \<le> charged c"
    and budget_Allocated: "budget (Allocated vt n c) = budget c"
    and budget_Deallocated: "budget (Deallocated vt n c) = budget c"
    and IsLimitReached_iff: "IsLimitReached vt c \<longleftrightarrow> budget c < charged c"
begin

definition accounted :: "'c \<Rightarrow> heap \<Rightarrow> bool" where
  "accounted c h \<longleftrightarrow> finite (dom h) \<and> live_bytes h \<le> charged c \<and> live_bytes h \<le> budget c"

lemma allocator_frees:
  assumes "request_ok h r" and "accounted c h" and "rq_nsize r = 0"
  obtains c' h' where
    "lua_allocator vt (Some c) (rq_ptr r) (rq_osize r) (rq_nsize r) (rq_answer r) h = Ret (None, c', h')"
    "accounted c' h'" "budget c' = budget c" "charged c' \<le> charged c"
proof -
  let ?o = "if rq_ptr r = None then 0 else rq_osize r"
  have eq: "live_bytes (c_free (rq_ptr r) h) + unat ?o = live_bytes h"
    using assms(1,2) by (intro live_bytes_free) (auto simp: request_ok_def accounted_def split: option.splits)
  then have le: "unat ?o \<le> charged c" using assms(2) by (simp add: accounted_def)
  show thesis
    using assms eq le
    by (intro that [of "Deallocated vt ?o c" "c_free (rq_ptr r) h"])
      (auto simp: lua_allocator_def Let_def accounted_def charged_Deallocated budget_Deallocated)
qed

lemma allocator_charges:
  assumes ok: "request_ok h r" and acc: "accounted c h" and nz: "rq_nsize r \<noteq> 0"
    and fits: "charged c + request_charge r < 2 ^ 64"
  obtains p c' h' where
    "lua_allocator vt (Some c) (rq_ptr r) (rq_osize r) (rq_nsize r) (rq_answer r) h = Ret (p, c', h')"
    "accounted c' h'" "budget c' = budget c" "charged c' = charged c + request_charge r"
proof -
  let ?o = "if rq_ptr r = None then 0 else rq_osize r"
  let ?a = "if ?o < rq_nsize r then rq_nsize r - ?o else ?o - rq_nsize r"
  let ?c = "Allocated vt ?a c"
  have a: "unat ?a = request_charge r"
    using nz by (auto simp: request_charge_def Let_def unat_sub_le word_less_nat_alt unat_eq_zero)
  have ch: "charged ?c = charged c + request_charge r"
    using charged_Allocated [of c ?a] fits a by simp
  show thesis
  proof (cases "IsLimitReached vt ?c")
    case True
    then show ?thesis
      using nz acc ch
      by (intro that [of None ?c h]) (auto simp: lua_allocator_def Let_def accounted_def budget_Allocated)
  next
    case False
    then have within: "charged ?c \<le> budget c" by (simp add: IsLimitReached_iff budget_Allocated)
    show ?thesis
    proof (cases "rq_answer r")
      case None
      then show ?thesis
        using nz acc ch False
        by (intro that [of None ?c h])
          (auto simp: lua_allocator_def Let_def accounted_def budget_Allocated c_realloc_def)
    next
      case (Some q)
      let ?h = "(c_free (rq_ptr r) h)(q \<mapsto> rq_nsize r)"
      have fin: "finite (dom h)" using acc by (simp add: accounted_def)
      have eq: "live_bytes (c_free (rq_ptr r) h) + unat ?o = live_bytes h"
        using ok fin by (intro live_bytes_free) (auto simp: request_ok_def split: option.splits)
      have "c_free (rq_ptr r) h q = None"
        using ok Some by (auto simp: request_ok_def c_free_def split: option.splits)
      then have "live_bytes ?h = live_bytes (c_free (rq_ptr r) h) + unat (rq_nsize r)"
        using fin by (simp add: live_bytes_insert)
      moreover have "unat (rq_nsize r) \<le> unat ?o + request_charge r"
        using nz by (auto simp: request_charge_def Let_def unat_eq_zero)
      ultimately have "live_bytes ?h \<le> charged ?c"
        using eq ch acc by (simp add: accounted_def)
      with within show ?thesis
        using nz acc ch False Some fin
        by (intro that [of "Some q" ?c ?h])
          (auto simp: lua_allocator_def Let_def accounted_def budget_Allocated c_realloc_def)
    qed
  qed
qed

lemma allocator_step:
  assumes "request_ok h r" and "accounted c h" and "charged c + request_charge r < 2 ^ 64"
  obtains p c' h' where
    "lua_allocator vt (Some c) (rq_ptr r) (rq_osize r) (rq_nsize r) (rq_answer r) h = Ret (p, c', h')"
    "accounted c' h'" "budget c' = budget c" "charged c' \<le> charged c + request_charge r"
proof (cases "rq_nsize r = 0")
  case True
  with assms show ?thesis by (elim allocator_frees) (auto intro: that)
next
  case False
  with assms show ?thesis by (elim allocator_charges) (auto intro: that)
qed

lemma allocator_run:
  assumes "run_ok (lua_allocator vt) rs (c, h)" and "accounted c h" and "charged c + run_charge rs < 2 ^ 64"
  shows "\<exists>c' h'. alloc_run (lua_allocator vt) rs (c, h) = Ret (c', h') \<and> accounted c' h' \<and> budget c' = budget c"
  using assms
proof (induction rs arbitrary: c h)
  case Nil
  then show ?case by simp
next
  case (Cons r rs)
  from Cons.prems have ok: "request_ok h r" and fits: "charged c + request_charge r < 2 ^ 64" by simp_all
  from allocator_step [OF ok Cons.prems(2) fits] obtain p c' h' where
    step: "lua_allocator vt (Some c) (rq_ptr r) (rq_osize r) (rq_nsize r) (rq_answer r) h = Ret (p, c', h')"
    and inv: "accounted c' h'" "budget c' = budget c" "charged c' \<le> charged c + request_charge r"
    by blast
  from Cons.prems(1) step have "run_ok (lua_allocator vt) rs (c', h')" by simp
  moreover from inv(3) Cons.prems(3) have "charged c' + run_charge rs < 2 ^ 64" by simp
  ultimately obtain c'' h'' where "alloc_run (lua_allocator vt) rs (c', h') = Ret (c'', h'')"
    "accounted c'' h''" "budget c'' = budget c'"
    using Cons.IH [OF _ inv(1)] by blast
  with step inv(2) show ?case by simp
qed

text \<open>A heap that does not fail refuses a request only when more than the limit was charged.\<close>

lemma answered_step:
  assumes "lua_allocator vt (Some c) (rq_ptr r) (rq_osize r) (rq_nsize r) (rq_answer r) h = Ret (p, c', h')"
    and "rq_answer r \<noteq> None"
  shows "budget c' = budget c" and "charged c' \<le> charged c + request_charge r"
    and "rq_nsize r \<noteq> 0 \<Longrightarrow> p = None \<Longrightarrow> budget c < charged c + request_charge r"
proof -
  let ?o = "if rq_ptr r = None then 0 else rq_osize r"
  let ?a = "if ?o < rq_nsize r then rq_nsize r - ?o else ?o - rq_nsize r"
  have a: "rq_nsize r \<noteq> 0 \<Longrightarrow> unat ?a = request_charge r"
    by (auto simp: request_charge_def Let_def unat_sub_le word_less_nat_alt unat_eq_zero)
  have le: "rq_nsize r \<noteq> 0 \<Longrightarrow> charged (Allocated vt ?a c) \<le> charged c + request_charge r"
    using Allocated_at_most [of ?a c] a by simp
  have c': "c' = (if rq_nsize r = 0 then Deallocated vt ?o c else Allocated vt ?a c)"
    using assms(1) by (auto simp: lua_allocator_def Let_def split: if_splits prod.splits)
  then show "budget c' = budget c" by (simp add: budget_Allocated budget_Deallocated)
  show "charged c' \<le> charged c + request_charge r"
    using c' le Deallocated_at_most [of ?o c] by (cases "rq_nsize r = 0") simp_all
  show "budget c < charged c + request_charge r" if nz: "rq_nsize r \<noteq> 0" and p: "p = None"
  proof -
    have "IsLimitReached vt (Allocated vt ?a c)"
      using assms nz p by (auto simp: lua_allocator_def Let_def c_realloc_def split: if_splits)
    with le [OF nz] show ?thesis by (simp add: IsLimitReached_iff budget_Allocated)
  qed
qed

lemma refused_charge:
  assumes "run_refused (lua_allocator vt) rs (c, h)" and "\<forall>r\<in>set rs. rq_answer r \<noteq> None"
  shows "budget c < charged c + run_charge rs"
  using assms
proof (induction rs arbitrary: c h)
  case (Cons r rs)
  then obtain p c' h' where
    step: "lua_allocator vt (Some c) (rq_ptr r) (rq_osize r) (rq_nsize r) (rq_answer r) h = Ret (p, c', h')"
    and or: "rq_nsize r \<noteq> 0 \<and> p = None \<or> run_refused (lua_allocator vt) rs (c', h')"
    by (auto split: outcome.splits)
  have answer: "rq_answer r \<noteq> None" using Cons.prems(2) by simp
  from or show ?case
  proof
    assume "rq_nsize r \<noteq> 0 \<and> p = None"
    with answered_step(3) [OF step answer] show ?thesis by simp
  next
    assume "run_refused (lua_allocator vt) rs (c', h')"
    with Cons have "budget c' < charged c' + run_charge rs" by simp
    with answered_step(1,2) [OF step answer] show ?thesis by simp
  qed
qed simp

end

text \<open>\<open>MemoryLimitChecker\<close> keeps the contract.\<close>

interpretation mlc: memory_limit_contract memory_limit_checker_vt "\<lambda>c. unat (used c)" "\<lambda>c. unat (limit c)"
proof
  fix c :: memory_limit_checker and n :: size_t
  show "unat (used c) + unat n < 2 ^ 64 \<Longrightarrow>
      unat (used (Allocated memory_limit_checker_vt n c)) = unat (used c) + unat n"
    by (simp add: memory_limit_checker_vt_def allocated_def unat_add_no_wrap)
  show "unat n \<le> unat (used c) \<Longrightarrow>
      unat (used (Deallocated memory_limit_checker_vt n c)) = unat (used c) - unat n"
    by (simp add: memory_limit_checker_vt_def deallocated_def word_less_nat_alt unat_sub_le word_le_nat_alt)
  show "unat (used (Allocated memory_limit_checker_vt n c)) \<le> unat (used c) + unat n"
    by (simp add: memory_limit_checker_vt_def allocated_def unat_word_ariths)
  show "unat (used (Deallocated memory_limit_checker_vt n c)) \<le> unat (used c)"
    by (auto simp: memory_limit_checker_vt_def deallocated_def unat_sub_le word_le_nat_alt not_less)
qed (simp_all add: memory_limit_checker_vt_def allocated_def deallocated_def is_limit_reached_def
       word_less_nat_alt)

section \<open>What the allocator guarantees\<close>

lemmas allocator_defs = lua_allocator_def c_realloc_def c_free_def memory_limit_checker_vt_def
  allocated_def deallocated_def is_limit_reached_def new_memory_limit_checker_def

text \<open>
  C6. As long as the bytes ever charged stay below \<open>2^64\<close>, no sequence of requests gets
  the script more live memory than its limit, and the checker's count is never below the
  live bytes.
\<close>

theorem memory_limit_enforced:
  assumes "run_ok (lua_allocator memory_limit_checker_vt) rs (new_memory_limit_checker lim, Map.empty)"
    and "run_charge rs < 2 ^ 64"
  shows "\<exists>c h. alloc_run (lua_allocator memory_limit_checker_vt) rs (new_memory_limit_checker lim, Map.empty) = Ret (c, h)
    \<and> live_bytes h \<le> unat lim \<and> live_bytes h \<le> unat (used c)"
proof -
  have "mlc.accounted (new_memory_limit_checker lim) Map.empty"
    by (simp add: mlc.accounted_def)
  from mlc.allocator_run [OF assms(1) this] assms(2) show ?thesis
    by (auto simp: mlc.accounted_def new_memory_limit_checker_def)
qed

definition sample_run :: "alloc_request list" where
  "sample_run =
     [\<lparr>rq_ptr = None, rq_osize = 5, rq_nsize = 64, rq_answer = Some 1\<rparr>,
      \<lparr>rq_ptr = Some 1, rq_osize = 64, rq_nsize = 100, rq_answer = Some 2\<rparr>,
      \<lparr>rq_ptr = Some 2, rq_osize = 100, rq_nsize = 200, rq_answer = Some 3\<rparr>]"

theorem memory_limit_enforced_witness:
  "\<exists>c h. alloc_run (lua_allocator memory_limit_checker_vt) sample_run (new_memory_limit_checker 150, Map.empty) = Ret (c, h)
    \<and> live_bytes h \<le> unat (150 :: size_t) \<and> live_bytes h \<le> unat (used c)"
proof (rule memory_limit_enforced)
  show "run_ok (lua_allocator memory_limit_checker_vt) sample_run (new_memory_limit_checker 150, Map.empty)"
    by (simp add: sample_run_def request_ok_def allocator_defs Let_def)
  show "run_charge sample_run < 2 ^ 64"
    by (simp add: sample_run_def request_charge_def)
qed

text \<open>
  The answer keeps the contract of a Lua allocator: a returned block is live and has the
  size that was asked for, no other block changes, and a refused request leaves every block
  as it was.
\<close>

lemma allocator_result:
  assumes "lua_allocator vt (Some c) ptr osize nsize answer h = Ret (p, c', h')"
    and "nsize \<noteq> 0"
  shows "case p of
      None \<Rightarrow> h' = h
    | Some q \<Rightarrow> answer = Some q \<and> h' q = Some nsize \<and>
        (\<forall>r. r \<noteq> q \<longrightarrow> h' r = (if ptr = Some r then None else h r))"
  using assms
  by (auto simp: lua_allocator_def Let_def c_realloc_def c_free_def split: if_splits option.splits)

section \<open>Where the accounting is not exact\<close>

lemma alloc_run_append:
  "alloc_run alloc (xs @ ys) s = bindO (alloc_run alloc xs s) (alloc_run alloc ys)"
proof (induction xs arbitrary: s)
  case Nil
  then show ?case by simp
next
  case (Cons r rs)
  obtain c h where "s = (c, h)" by force
  with Cons show ?case
    by (cases "alloc (Some c) (rq_ptr r) (rq_osize r) (rq_nsize r) (rq_answer r) h") auto
qed

definition resize :: "addr \<Rightarrow> size_t \<Rightarrow> size_t \<Rightarrow> alloc_request" where
  "resize p old new = \<lparr>rq_ptr = Some p, rq_osize = old, rq_nsize = new, rq_answer = Some p\<rparr>"

definition shrink_and_regrow :: "addr \<Rightarrow> size_t \<Rightarrow> size_t \<Rightarrow> nat \<Rightarrow> alloc_request list" where
  "shrink_and_regrow p big small k = concat (replicate k [resize p big small, resize p small big])"

lemma shrink_and_regrow_once:
  assumes "h p = Some big" and "0 < small" and "small < big"
    and "unat (used c) + 2 * (unat big - unat small) \<le> unat (limit c)"
  shows "alloc_run (lua_allocator memory_limit_checker_vt) [resize p big small, resize p small big] (c, h)
     = Ret (c\<lparr>used := used c + (big - small) + (big - small)\<rparr>, h)"
proof -
  let ?d = "big - small"
  have d: "unat ?d = unat big - unat small"
    using assms(3) by (simp add: unat_sub_le word_less_nat_alt)
  have l: "unat (limit c) < 2 ^ 64" by (rule size_t_bound)
  have u1: "unat (used c + ?d) = unat (used c) + unat ?d"
    using assms(4) d l by (intro unat_add_no_wrap) simp
  have u2: "unat (used c + ?d + ?d) = unat (used c) + unat ?d + unat ?d"
    using assms(4) d l u1 unat_add_no_wrap [of "used c + ?d" ?d] by simp
  have "\<not> big < small" "small \<noteq> 0" "big \<noteq> 0" using assms(2,3) by auto
  moreover have "\<not> limit c < used c + ?d" "\<not> limit c < used c + ?d + ?d"
    using assms(4) d u1 u2 by (simp_all add: word_less_nat_alt)
  ultimately show ?thesis
    using assms(1,3) by (simp add: allocator_defs resize_def Let_def fun_upd_idem)
qed

text \<open>The rounds as long as the limit allows them: the heap is what it was, the count is not.\<close>

lemma shrink_rounds:
  assumes "h p = Some big" and "0 < small" and "small < big"
    and "unat (used c) + 2 * k * (unat big - unat small) \<le> unat (limit c)"
  shows "\<exists>c'. alloc_run (lua_allocator memory_limit_checker_vt) (shrink_and_regrow p big small k) (c, h) = Ret (c', h)
    \<and> limit c' = limit c \<and> unat (used c') = unat (used c) + 2 * k * (unat big - unat small)"
  using assms(4)
proof (induction k arbitrary: c)
  case 0
  then show ?case by (simp add: shrink_and_regrow_def)
next
  case (Suc k)
  let ?d = "big - small"
  let ?c = "c\<lparr>used := used c + ?d + ?d\<rparr>"
  have d: "unat ?d = unat big - unat small"
    using assms(3) by (simp add: unat_sub_le word_less_nat_alt)
  have l: "unat (limit c) < 2 ^ 64" by (rule size_t_bound)
  have s: "unat (used c) + 2 * unat ?d \<le> unat (limit c)" using Suc.prems d by simp
  have u1: "unat (used c + ?d) = unat (used c) + unat ?d"
    using s l by (intro unat_add_no_wrap) simp
  have u2: "unat (used ?c) = unat (used c) + 2 * unat ?d"
    using s l u1 unat_add_no_wrap [of "used c + ?d" ?d] by simp
  from u2 Suc.prems d have "unat (used ?c) + 2 * k * (unat big - unat small) \<le> unat (limit ?c)" by simp
  from Suc.IH [OF this] obtain c' where
    rest: "alloc_run (lua_allocator memory_limit_checker_vt) (shrink_and_regrow p big small k) (?c, h) = Ret (c', h)"
    and c': "limit c' = limit c" "unat (used c') = unat (used ?c) + 2 * k * (unat big - unat small)" by auto
  have split: "shrink_and_regrow p big small (Suc k) =
      [resize p big small, resize p small big] @ shrink_and_regrow p big small k"
    by (simp add: shrink_and_regrow_def)
  from s d have once: "alloc_run (lua_allocator memory_limit_checker_vt) [resize p big small, resize p small big] (c, h) = Ret (?c, h)"
    by (intro shrink_and_regrow_once [where h = h, OF assms(1-3)]) simp
  have "alloc_run (lua_allocator memory_limit_checker_vt) (shrink_and_regrow p big small (Suc k)) (c, h) = Ret (c', h)"
    by (simp only: split alloc_run_append once bindO.simps rest)
  with c' d u2 show ?case by simp
qed


lemma ask_refused:
  assumes "unat (limit c) < unat (used c) + unat n" and "unat (used c) + unat n < 2 ^ 64" and "n \<noteq> 0"
  shows "lua_allocator memory_limit_checker_vt (Some c) None 0 n answer h = Ret (None, c\<lparr>used := used c + n\<rparr>, h)"
proof -
  have "unat (used c + n) = unat (used c) + unat n" using assms(2) by (intro unat_add_no_wrap) simp
  with assms show ?thesis by (simp add: allocator_defs Let_def word_less_nat_alt unat_gt_0)
qed

lemma ask_granted:
  assumes "unat (used c) + unat n \<le> unat (limit c)" and "n \<noteq> 0"
  shows "lua_allocator memory_limit_checker_vt (Some c) None 0 n (Some q) h = Ret (Some q, c\<lparr>used := used c + n\<rparr>, h(q \<mapsto> n))"
proof -
  have "unat (used c + n) = unat (used c) + unat n"
    using assms(1) size_t_bound [of "limit c"] by (intro unat_add_no_wrap) simp
  with assms show ?thesis by (simp add: allocator_defs Let_def word_less_nat_alt unat_gt_0)
qed

text \<open>
  C36. \<open>LuaAllocator\<close> charges a block that shrinks for the bytes it gives back. After
  \<open>k\<close> rounds of shrinking a block and growing it again the heap is what it was and the count
  has grown by twice the difference per round; and a request for \<open>n\<close> more bytes, which would
  fit below the limit and which a checker that counted the live bytes would let through, is
  refused as soon as the count goes above the limit with it, although the heap would grant it.
\<close>

theorem shrinking_is_charged:
  assumes "h p = Some big" and "0 < small" and "small < big"
    and "unat (used c) + 2 * k * (unat big - unat small) \<le> unat (limit c)"
    and "live_bytes h + unat n \<le> unat (limit c)"
    and "unat (limit c) < unat (used c) + 2 * k * (unat big - unat small) + unat n"
    and "unat (used c) + 2 * k * (unat big - unat small) + unat n < 2 ^ 64"
  shows "\<exists>c'. alloc_run (lua_allocator memory_limit_checker_vt) (shrink_and_regrow p big small k) (c, h) = Ret (c', h)
    \<and> limit c' = limit c \<and> unat (used c') = unat (used c) + 2 * k * (unat big - unat small)
    \<and> lua_allocator memory_limit_checker_vt (Some c') None 0 n (Some q) h = Ret (None, c'\<lparr>used := used c' + n\<rparr>, h)
    \<and> (\<exists>c''. lua_allocator memory_limit_checker_vt (Some (c'\<lparr>used := of_nat (live_bytes h)\<rparr>)) None 0 n (Some q) h
        = Ret (Some q, c'', h(q \<mapsto> n)))"
proof -
  obtain c' where c': "alloc_run (lua_allocator memory_limit_checker_vt) (shrink_and_regrow p big small k) (c, h) = Ret (c', h)"
    "limit c' = limit c" "unat (used c') = unat (used c) + 2 * k * (unat big - unat small)"
    using shrink_rounds [of h p big small c k, OF assms(1-4)] by blast
  have n: "n \<noteq> 0" using assms(4,6) by auto
  have "unat (of_nat (live_bytes h) :: size_t) = live_bytes h"
    using assms(5) size_t_bound [of "limit c"] by (simp add: unat_of_nat)
  with assms(5) c'(2) have "unat (used (c'\<lparr>used := of_nat (live_bytes h)\<rparr>)) + unat n \<le> unat (limit (c'\<lparr>used := of_nat (live_bytes h)\<rparr>))" by simp
  note ask_granted [OF this n, of q h]
  moreover have "lua_allocator memory_limit_checker_vt (Some c') None 0 n (Some q) h = Ret (None, c'\<lparr>used := used c' + n\<rparr>, h)"
    by (rule ask_refused) (use assms(6,7) c' n in simp_all)
  ultimately show ?thesis using c' by blast
qed

theorem shrinking_is_charged_witness:
  "\<exists>c'. alloc_run (lua_allocator memory_limit_checker_vt) (shrink_and_regrow 1 11 1 5) (\<lparr>used = 11, limit = 111\<rparr>, [1 \<mapsto> 11]) = Ret (c', [1 \<mapsto> 11])
    \<and> live_bytes [1 \<mapsto> 11] + 1 \<le> unat (limit c')
    \<and> lua_allocator memory_limit_checker_vt (Some c') None 0 1 (Some 2) [1 \<mapsto> 11] = Ret (None, c'\<lparr>used := used c' + 1\<rparr>, [1 \<mapsto> 11])"
proof -
  have live: "live_bytes [Suc 0 \<mapsto> 11] = 11" by (simp add: live_bytes_insert)
  then show ?thesis
    using shrinking_is_charged [of "[1 \<mapsto> 11]" 1 11 1 "\<lparr>used = 11, limit = 111\<rparr>" 5 1 2] by auto
qed



end
