(* ===== verification/Timeout.thy ===== *)
theory Timeout
  imports Exceptions
begin

text \<open>
  The time limit of a script: the interface \<open>TimeoutCheckerBase\<close> with its contract,
  \<open>TimeoutChecker\<close>, and the client of the interface, the count hook \<open>Check\<close> that
  the executor installs in the Lua state. A point of the steady clock is a number of
  nanoseconds; the clock is read by taking the current time as an argument.
\<close>

section \<open>The interface \<open>TimeoutCheckerBase\<close>\<close>

type_synonym milliseconds = int
type_synonym time_point = int

record 'c timeout_checker_base =
  Start :: "time_point \<Rightarrow> 'c \<Rightarrow> 'c"
  IsExpired :: "time_point \<Rightarrow> 'c \<Rightarrow> bool"

record 'c timeout_checkers_factory_base =
  CreateTimeoutChecker :: "milliseconds \<Rightarrow> 'c"

section \<open>\<open>TimeoutChecker\<close>\<close>

text \<open>The deadline is the clock's epoch until \<open>Start\<close> sets it.\<close>

record timeout_checker =
  timeout :: milliseconds
  deadline :: time_point

definition new_timeout_checker :: "milliseconds \<Rightarrow> timeout_checker" where
  "new_timeout_checker t = \<lparr>timeout = t, deadline = 0\<rparr>"

definition start :: "time_point \<Rightarrow> timeout_checker \<Rightarrow> timeout_checker" where
  "start now c = c\<lparr>deadline := now + 1000000 * timeout c\<rparr>"

definition is_expired :: "time_point \<Rightarrow> timeout_checker \<Rightarrow> bool" where
  "is_expired now c \<longleftrightarrow> deadline c < now"

definition timeout_checker_vt :: "timeout_checker timeout_checker_base" where
  "timeout_checker_vt = \<lparr>Start = start, IsExpired = is_expired\<rparr>"

definition timeout_checkers_factory :: "timeout_checker timeout_checkers_factory_base" where
  "timeout_checkers_factory = \<lparr>CreateTimeoutChecker = new_timeout_checker\<rparr>"

section \<open>The hook\<close>

text \<open>
  The registry of the Lua state, as far as the service uses it: the checker stored under
  the name \<open>kTimeoutCheckerVariableName\<close>. The hook runs every
  \<open>kInstructionsBeforeHoock\<close> instructions; the one stack slot it uses it pops again.
\<close>

definition kInstructionsBeforeHoock :: nat where
  "kInstructionsBeforeHoock = 100"

definition kTimeoutCheckerVariableName :: string where
  "kTimeoutCheckerVariableName = ''miet_execution_timeout_checker''"

definition check_hook :: "'c timeout_checker_base \<Rightarrow> (string \<Rightarrow> 'c option) \<Rightarrow> time_point \<Rightarrow> unit outcome" where
  "check_hook vt registry now =
     (case registry kTimeoutCheckerVariableName of
        None \<Rightarrow> Crash NullDereference
      | Some checker \<Rightarrow>
          if IsExpired vt now checker
          then Throw (ExecutionTimeout ''Execution timeout is expired'')
          else Ret ())"

definition attach_timeout_checker :: "'c \<Rightarrow> (string \<Rightarrow> 'c option) \<Rightarrow> (string \<Rightarrow> 'c option)" where
  "attach_timeout_checker checker registry = registry(kTimeoutCheckerVariableName \<mapsto> checker)"

text \<open>
  A script under the hook: the times at which the hook runs, in order. The run ends at the
  first call that does not return; its time and outcome are the result.
\<close>

fun hook_run ::
  "'c timeout_checker_base \<Rightarrow> (string \<Rightarrow> 'c option) \<Rightarrow> time_point list \<Rightarrow> (time_point \<times> unit outcome) option" where
  "hook_run vt registry [] = None"
| "hook_run vt registry (now # later) =
     (case check_hook vt registry now of
        Ret _ \<Rightarrow> hook_run vt registry later
      | r \<Rightarrow> Some (now, r))"

text \<open>No two calls, and not the start and the first call, are more than \<open>gap\<close> apart.\<close>

fun paced :: "int \<Rightarrow> time_point \<Rightarrow> time_point list \<Rightarrow> bool" where
  "paced gap t [] = True"
| "paced gap t (u # us) = (t \<le> u \<and> u \<le> t + gap \<and> paced gap u us)"

section \<open>The contract of a checker, and the hook under it\<close>

locale timeout_contract =
  fixes vt :: "'c timeout_checker_base" and allowance :: "'c \<Rightarrow> int"
  assumes IsExpired_Start: "IsExpired vt now (Start vt t0 c) \<longleftrightarrow> t0 + allowance c < now"
begin

lemma check_hook_attached:
  "check_hook vt (attach_timeout_checker (Start vt t0 c) reg) now =
     (if t0 + allowance c < now then Throw (ExecutionTimeout ''Execution timeout is expired'') else Ret ())"
  by (simp add: check_hook_def attach_timeout_checker_def IsExpired_Start)

lemma hook_run_none:
  "hook_run vt (attach_timeout_checker (Start vt t0 c) reg) ts = None \<longleftrightarrow> (\<forall>t \<in> set ts. t \<le> t0 + allowance c)"
  by (induction ts) (auto simp: check_hook_attached)

lemma hook_run_stops:
  assumes "paced gap t ts" and "t \<le> t0 + allowance c"
    and "hook_run vt (attach_timeout_checker (Start vt t0 c) reg) ts = Some (u, r)"
  shows "r = Throw (ExecutionTimeout ''Execution timeout is expired'') \<and>
    t0 + allowance c < u \<and> u \<le> t0 + allowance c + gap"
  using assms
  by (induction ts arbitrary: t) (auto simp: check_hook_attached split: if_splits)

end

interpretation tc: timeout_contract timeout_checker_vt "\<lambda>c. 1000000 * timeout c"
  by unfold_locales (simp add: timeout_checker_vt_def start_def is_expired_def)

text \<open>
  A script whose hook runs at least every \<open>gap\<close> nanoseconds is stopped with
  \<open>ExecutionTimeout\<close> as soon as it runs past its allowance, at most \<open>gap\<close> late,
  and is never stopped before.
\<close>

lemma timeout_enforced:
  assumes "paced gap t0 ts" and "0 \<le> ms"
  shows "case hook_run timeout_checker_vt
           (attach_timeout_checker (start t0 (new_timeout_checker ms)) Map.empty) ts of
      None \<Rightarrow> \<forall>t \<in> set ts. t \<le> t0 + 1000000 * ms
    | Some (u, r) \<Rightarrow> r = Throw (ExecutionTimeout ''Execution timeout is expired'') \<and>
        t0 + 1000000 * ms < u \<and> u \<le> t0 + 1000000 * ms + gap"
proof -
  let ?c = "new_timeout_checker ms"
  have c: "Start timeout_checker_vt = start" "timeout ?c = ms"
    by (simp_all add: timeout_checker_vt_def new_timeout_checker_def)
  show ?thesis
    using tc.hook_run_none [of t0 ?c Map.empty ts] tc.hook_run_stops [OF assms(1), of t0 ?c Map.empty] assms(2)
    unfolding c by (auto split: option.splits)
qed

lemma timeout_enforced_sample:
  "hook_run timeout_checker_vt (attach_timeout_checker (start 50 (new_timeout_checker 1)) Map.empty)
     [400050, 800050, 1200050, 1600050] = Some (1200050, Throw (ExecutionTimeout ''Execution timeout is expired''))
   \<and> (1200050 :: int) \<le> 50 + 1000000 * 1 + 400000"
proof -
  have p: "paced 400000 50 [400050, 800050, 1200050, 1600050]" by simp
  have run: "hook_run timeout_checker_vt (attach_timeout_checker (start 50 (new_timeout_checker 1)) Map.empty)
     [400050, 800050, 1200050, 1600050] = Some (1200050, Throw (ExecutionTimeout ''Execution timeout is expired''))"
    by (simp add: check_hook_def attach_timeout_checker_def timeout_checker_vt_def start_def is_expired_def
        new_timeout_checker_def kTimeoutCheckerVariableName_def)
  from timeout_enforced [OF p, of 1] run show ?thesis by simp
qed

end
