(* ===== verification/Json.thy ===== *)
theory Json
  imports Exceptions "HOL-Library.Countable"
begin

text \<open>
  JSON documents and the JSON library (\<open>userver::formats::json\<close>). The library is not
  part of the repository: its functions are the fields of a record that every definition
  using them takes as an argument, and what the proofs use of its documented behaviour is
  the locale \<open>json_laws\<close>.
\<close>

section \<open>Documents\<close>

text \<open>
  \<open>'d\<close> is the type of numbers. Looking a member up gives a value that may be missing,
  hence \<open>'d jval\<close>.
\<close>

datatype 'd json =
    JNull
  | JBool bool
  | JNum 'd
  | JStr string
  | JArr "'d json list"
  | JObj "(string \<times> 'd json) list"

type_synonym 'd jval = "'d json option"

text \<open>Documents a JSON text can hold without a repeated key, with printable numbers.\<close>

fun json_wf :: "('d \<Rightarrow> bool) \<Rightarrow> 'd json \<Rightarrow> bool" where
  "json_wf num_ok (JNum d) = num_ok d"
| "json_wf num_ok (JArr js) = list_all (json_wf num_ok) js"
| "json_wf num_ok (JObj kvs) = (distinct (map fst kvs) \<and> list_all (json_wf num_ok) (map snd kvs))"
| "json_wf num_ok _ = True"

section \<open>The library\<close>

text \<open>
  \<open>Value\<close>: \<open>operator[]\<close>, \<open>HasMember\<close>, \<open>As<std::string>()\<close> without and with
  a default, and iteration with \<open>GetName\<close>; \<open>ValueBuilder\<close>: \<open>EmplaceNocheck\<close>,
  \<open>PushBack\<close> and the constructor from a \<open>double\<close>, which refuses what JSON cannot hold; and the parser and the printer.
\<close>

record 'd json_lib =
  FromString :: "string \<Rightarrow> 'd json outcome"
  ToString :: "'d json \<Rightarrow> string"
  At :: "'d jval \<Rightarrow> string \<Rightarrow> 'd jval outcome"
  HasMember :: "'d jval \<Rightarrow> string \<Rightarrow> bool outcome"
  AsString :: "'d jval \<Rightarrow> string outcome"
  AsStringOr :: "'d jval \<Rightarrow> string \<Rightarrow> string outcome"
  Members :: "'d jval \<Rightarrow> (string outcome \<times> 'd jval) list outcome"
  EmplaceNocheck :: "string \<Rightarrow> 'd json \<Rightarrow> 'd json \<Rightarrow> 'd json outcome"
  PushBack :: "'d json \<Rightarrow> 'd json \<Rightarrow> 'd json outcome"
  NumberOf :: "int \<Rightarrow> 'd"
  NumberValue :: "'d \<Rightarrow> 'd json outcome"

definition throws_std :: "'a outcome \<Rightarrow> bool" where
  "throws_std r \<longleftrightarrow> (\<exists>m. r = Throw (StdException m))"

text \<open>Every function of the library returns or throws an exception derived from \<open>std::exception\<close>.\<close>

definition answers :: "'a outcome \<Rightarrow> bool" where
  "answers r \<longleftrightarrow> (\<exists>x. r = Ret x) \<or> throws_std r"

lemma answers_Ret [simp, intro]: "answers (Ret x)"
  by (simp add: answers_def)

lemma answers_StdException [simp, intro]: "answers (Throw (StdException m))"
  by (simp add: answers_def throws_std_def)

lemma answers_bindO [intro]:
  "answers m \<Longrightarrow> (\<And>x. m = Ret x \<Longrightarrow> answers (f x)) \<Longrightarrow> answers (bindO m f)"
  by (auto simp: answers_def throws_std_def)

locale json_laws =
  fixes js :: "'d json_lib" and num_ok :: "'d \<Rightarrow> bool"
  assumes FromString_ToString: "json_wf num_ok j \<Longrightarrow> FromString js (ToString js j) = Ret j"
    and FromString_answers: "answers (FromString js s)"
    and At_answers: "answers (At js v k)"
    and HasMember_answers: "answers (HasMember js v k)"
    and AsString_answers: "answers (AsString js v)"
    and AsStringOr_answers: "answers (AsStringOr js v s)"
    and Members_answers: "answers (Members js v)"
    and Members_names: "Members js v = Ret ms \<Longrightarrow> (name, w) \<in> set ms \<Longrightarrow> answers name"
    and ToString_JBool: "ToString js (JBool b) = (if b then ''true'' else ''false'')"
    and At_obj: "At js (Some (JObj kvs)) k = Ret (map_of kvs k)"
    and HasMember_obj: "HasMember js (Some (JObj kvs)) k = Ret (map_of kvs k \<noteq> None)"
    and AsString_str: "AsString js (Some (JStr s)) = Ret s"
    and AsString_other: "(\<nexists>s. v = Some (JStr s)) \<Longrightarrow> throws_std (AsString js v)"
    and AsStringOr_str: "AsStringOr js (Some (JStr s)) d = Ret s"
    and AsStringOr_missing: "AsStringOr js None d = Ret d"
    and AsStringOr_other: "j \<noteq> JNull \<Longrightarrow> (\<nexists>s. j = JStr s) \<Longrightarrow> throws_std (AsStringOr js (Some j) d)"
    and Members_obj: "Members js (Some (JObj kvs)) = Ret (map (\<lambda>(k, v). (Ret k, Some v)) kvs)"
    and EmplaceNocheck_null: "EmplaceNocheck js k j JNull = Ret (JObj [(k, j)])"
    and EmplaceNocheck_obj: "EmplaceNocheck js k j (JObj kvs) = Ret (JObj (kvs @ [(k, j)]))"
    and EmplaceNocheck_arr: "throws_std (EmplaceNocheck js k j (JArr vs))"
    and PushBack_null: "PushBack js j JNull = Ret (JArr [j])"
    and PushBack_arr: "PushBack js j (JArr vs) = Ret (JArr (vs @ [j]))"
    and PushBack_obj: "throws_std (PushBack js j (JObj kvs))"
    and NumberValue_ok: "num_ok x \<Longrightarrow> NumberValue js x = Ret (JNum x)"
    and NumberValue_answers: "answers (NumberValue js x)"
begin

lemmas json_simps = FromString_ToString ToString_JBool At_obj HasMember_obj AsString_str
  AsStringOr_str AsStringOr_missing Members_obj EmplaceNocheck_null EmplaceNocheck_obj
  PushBack_null PushBack_arr

lemmas json_answers = FromString_answers At_answers HasMember_answers AsString_answers
  AsStringOr_answers Members_answers

end

section \<open>A library that keeps the laws\<close>

text \<open>
  A reference instance over integers. Its texts are numerals in base one of an enumeration
  of the documents, with the two words of the Booleans as JSON has them: the laws say
  nothing about the form of a text beyond that.
\<close>

instance json :: (countable) countable
  by countable_datatype

definition ref_text :: "int json \<Rightarrow> string" where
  "ref_text j =
     (case j of
        JBool b \<Rightarrow> if b then ''true'' else ''false''
      | _ \<Rightarrow> replicate (to_nat j) CHR ''#'')"

definition ref_parse :: "string \<Rightarrow> int json outcome" where
  "ref_parse s =
     (if s = ''true'' then Ret (JBool True)
      else if s = ''false'' then Ret (JBool False)
      else let j = from_nat (length s)
           in if ref_text j = s then Ret j else Throw (StdException ''parse error''))"

fun ref_emplace :: "string \<Rightarrow> int json \<Rightarrow> int json \<Rightarrow> int json outcome" where
  "ref_emplace k v JNull = Ret (JObj [(k, v)])"
| "ref_emplace k v (JObj kvs) = Ret (JObj (kvs @ [(k, v)]))"
| "ref_emplace k v _ = Throw (StdException ''type mismatch'')"

fun ref_push :: "int json \<Rightarrow> int json \<Rightarrow> int json outcome" where
  "ref_push v JNull = Ret (JArr [v])"
| "ref_push v (JArr vs) = Ret (JArr (vs @ [v]))"
| "ref_push v _ = Throw (StdException ''type mismatch'')"

fun ref_at :: "int jval \<Rightarrow> string \<Rightarrow> int jval outcome" where
  "ref_at (Some (JObj kvs)) k = Ret (map_of kvs k)"
| "ref_at (Some JNull) k = Ret None"
| "ref_at _ k = Throw (StdException ''type mismatch'')"

fun ref_has_member :: "int jval \<Rightarrow> string \<Rightarrow> bool outcome" where
  "ref_has_member (Some (JObj kvs)) k = Ret (map_of kvs k \<noteq> None)"
| "ref_has_member (Some JNull) k = Ret False"
| "ref_has_member _ k = Throw (StdException ''type mismatch'')"

fun ref_as_string :: "int jval \<Rightarrow> string outcome" where
  "ref_as_string (Some (JStr s)) = Ret s"
| "ref_as_string _ = Throw (StdException ''type mismatch'')"

fun ref_as_string_or :: "int jval \<Rightarrow> string \<Rightarrow> string outcome" where
  "ref_as_string_or None d = Ret d"
| "ref_as_string_or (Some JNull) d = Ret d"
| "ref_as_string_or (Some (JStr s)) d = Ret s"
| "ref_as_string_or _ d = Throw (StdException ''type mismatch'')"

fun ref_members :: "int jval \<Rightarrow> (string outcome \<times> int jval) list outcome" where
  "ref_members (Some (JObj kvs)) = Ret (map (\<lambda>(k, v). (Ret k, Some v)) kvs)"
| "ref_members (Some (JArr vs)) = Ret (map (\<lambda>v. (Throw (StdException ''type mismatch''), Some v)) vs)"
| "ref_members (Some JNull) = Ret []"
| "ref_members _ = Throw (StdException ''type mismatch'')"

definition ref_json :: "int json_lib" where
  "ref_json =
     \<lparr>FromString = ref_parse, ToString = ref_text, At = ref_at, HasMember = ref_has_member,
      AsString = ref_as_string, AsStringOr = ref_as_string_or, Members = ref_members,
      EmplaceNocheck = ref_emplace, PushBack = ref_push, NumberOf = (\<lambda>i. i), NumberValue = (\<lambda>d. Ret (JNum d))\<rparr>"

lemma ref_text_length: "\<nexists>b. j = JBool b \<Longrightarrow> ref_text j = replicate (to_nat j) CHR ''#''"
  by (cases j) (auto simp: ref_text_def)

lemma replicate_neq_words [simp]:
  "replicate n CHR ''#'' \<noteq> ''true''" "replicate n CHR ''#'' \<noteq> ''false''"
  by (cases n; simp)+

lemma ref_text_JBool: "ref_text (JBool b) = (if b then ''true'' else ''false'')"
  by (simp add: ref_text_def)

lemma ref_parse_text: "ref_parse (ref_text j) = Ret j"
proof (cases "\<exists>b. j = JBool b")
  case True
  then obtain b where "j = JBool b" by blast
  then show ?thesis by (cases b) (simp_all add: ref_parse_def ref_text_JBool)
next
  case False
  then show ?thesis by (simp add: ref_parse_def ref_text_length)
qed

lemma ref_answers:
  "answers (ref_parse s)" "answers (ref_at v k)" "answers (ref_has_member v k)"
  "answers (ref_as_string v)" "answers (ref_as_string_or v d)" "answers (ref_members v)"
  by (simp add: ref_parse_def Let_def)
    (cases v rule: ref_members.cases; simp)+

interpretation rj: json_laws ref_json "\<lambda>_. True"
proof
  fix v :: "int jval"
  show "(\<nexists>s. v = Some (JStr s)) \<Longrightarrow> throws_std (AsString ref_json v)"
    by (cases v rule: ref_as_string.cases) (auto simp: ref_json_def throws_std_def)
next
  fix j :: "int json" and d
  show "j \<noteq> JNull \<Longrightarrow> (\<nexists>s. j = JStr s) \<Longrightarrow> throws_std (AsStringOr ref_json (Some j) d)"
    by (cases j) (auto simp: ref_json_def throws_std_def)
next
  fix v :: "int jval" and ms name w
  show "Members ref_json v = Ret ms \<Longrightarrow> (name, w) \<in> set ms \<Longrightarrow> answers name"
    by (cases v rule: ref_members.cases) (auto simp: ref_json_def)
qed (simp_all add: ref_json_def throws_std_def ref_parse_text ref_text_JBool ref_answers)

end
