(* ===== verification/Http_Message.thy ===== *)
theory Http_Message
  imports Json
begin

text \<open>
  HTTP messages (\<open>src/miet/lambda/http\<close>): \<open>Message\<close>, \<open>Request\<close> and \<open>Response\<close>
  with their JSON forms. A pointer member is an option, and a class that derives from
  \<open>Message\<close> extends its record. The header map and the method names are userver's: they
  are arguments, with their documented behaviour in the locales \<open>header_laws\<close> and
  \<open>method_laws\<close>.
\<close>

section \<open>\<open>userver::http::headers::HeaderMap\<close>\<close>

record 'h header_lib =
  HmEmpty :: 'h
  HmEmplace :: "string \<Rightarrow> string \<Rightarrow> 'h \<Rightarrow> 'h"
  HmItems :: "'h \<Rightarrow> (string \<times> string) list"

text \<open>
  Names are compared by \<open>canon\<close> (they are case-insensitive). \<open>emplace\<close> keeps the
  entry that is there; the order of the entries is open.
\<close>

definition names_distinct :: "'h header_lib \<Rightarrow> (string \<Rightarrow> string) \<Rightarrow> 'h \<Rightarrow> bool" where
  "names_distinct hl canon h \<longleftrightarrow> distinct (map (canon \<circ> fst) (HmItems hl h))"

definition header_value :: "'h header_lib \<Rightarrow> (string \<Rightarrow> string) \<Rightarrow> 'h \<Rightarrow> string \<Rightarrow> string option" where
  "header_value hl canon h k = map_of (map (\<lambda>(n, v). (canon n, v)) (HmItems hl h)) (canon k)"

locale header_laws =
  fixes hl :: "'h header_lib" and canon :: "string \<Rightarrow> string"
  assumes items_empty: "HmItems hl (HmEmpty hl) = []"
    and items_emplace_old: "canon k \<in> (canon \<circ> fst) ` set (HmItems hl h) \<Longrightarrow>
      HmItems hl (HmEmplace hl k v h) = HmItems hl h"
    and items_emplace_new: "canon k \<notin> (canon \<circ> fst) ` set (HmItems hl h) \<Longrightarrow>
      mset (HmItems hl (HmEmplace hl k v h)) = add_mset (k, v) (mset (HmItems hl h))"
begin

lemma names_distinct_empty: "names_distinct hl canon (HmEmpty hl)"
  by (simp add: names_distinct_def items_empty)

lemma header_value_empty: "header_value hl canon (HmEmpty hl) n = None"
  by (simp add: header_value_def items_empty)

lemma emplace_new_distinct:
  assumes "names_distinct hl canon h" and "canon k \<notin> (canon \<circ> fst) ` set (HmItems hl h)"
  shows "mset (map (\<lambda>(n, v). (canon n, v)) (HmItems hl (HmEmplace hl k v h)))
      = mset (map (\<lambda>(n, v). (canon n, v)) ((k, v) # HmItems hl h))"
    and "distinct (map fst (map (\<lambda>(n, v). (canon n, v)) ((k, v) # HmItems hl h)))"
proof -
  show "mset (map (\<lambda>(n, v). (canon n, v)) (HmItems hl (HmEmplace hl k v h)))
      = mset (map (\<lambda>(n, v). (canon n, v)) ((k, v) # HmItems hl h))"
    using items_emplace_new [OF assms(2), of v] by simp
  have "map fst (map (\<lambda>(n, v). (canon n, v)) ((k, v) # HmItems hl h)) = map (canon \<circ> fst) ((k, v) # HmItems hl h)"
    by auto
  moreover have "distinct (map (canon \<circ> fst) ((k, v) # HmItems hl h))"
    using assms by (auto simp: names_distinct_def)
  ultimately show "distinct (map fst (map (\<lambda>(n, v). (canon n, v)) ((k, v) # HmItems hl h)))"
    by (simp only:)
qed

lemma names_distinct_emplace:
  assumes "names_distinct hl canon h"
  shows "names_distinct hl canon (HmEmplace hl k v h)"
proof (cases "canon k \<in> (canon \<circ> fst) ` set (HmItems hl h)")
  case True
  with assms show ?thesis by (simp add: names_distinct_def items_emplace_old)
next
  case False
  have "mset (map (canon \<circ> fst) (HmItems hl (HmEmplace hl k v h))) = mset (map (canon \<circ> fst) ((k, v) # HmItems hl h))"
    using items_emplace_new [OF False, of v] by simp
  moreover have "distinct (map (canon \<circ> fst) ((k, v) # HmItems hl h))"
    using assms False by (auto simp: names_distinct_def)
  ultimately show ?thesis
    unfolding names_distinct_def by (metis mset_eq_imp_distinct_iff)
qed

text \<open>The first value given under a name stays.\<close>

lemma header_value_emplace:
  assumes "names_distinct hl canon h"
  shows "header_value hl canon (HmEmplace hl k v h) n =
    (case header_value hl canon h n of Some w \<Rightarrow> Some w
     | None \<Rightarrow> if canon n = canon k then Some v else None)"
proof (cases "canon k \<in> (canon \<circ> fst) ` set (HmItems hl h)")
  case True
  then obtain w where "header_value hl canon h k = Some w"
    by (cases "header_value hl canon h k") (auto simp: header_value_def map_of_eq_None_iff image_image split_beta)
  then show ?thesis
    using True by (auto simp: header_value_def items_emplace_old split: option.split)
next
  case False
  then have "header_value hl canon h k = None"
    by (force simp: header_value_def map_of_eq_None_iff)
  then show ?thesis
    using map_of_mset_eq [OF emplace_new_distinct [OF assms False, of v]]
    by (auto simp: header_value_def split: option.split)
qed

lemma names_distinct_emplace_all:
  "names_distinct hl canon h \<Longrightarrow> names_distinct hl canon (fold (\<lambda>(k, v). HmEmplace hl k v) hs h)"
  by (induction hs arbitrary: h) (auto simp: names_distinct_emplace)

lemma header_value_emplace_all:
  "names_distinct hl canon h \<Longrightarrow>
   header_value hl canon (fold (\<lambda>(k, v). HmEmplace hl k v) hs h) n =
    (case header_value hl canon h n of Some w \<Rightarrow> Some w
     | None \<Rightarrow> map_of (map (\<lambda>(k, v). (canon k, v)) hs) (canon n))"
  by (induction hs arbitrary: h)
    (auto simp: names_distinct_emplace header_value_emplace split: option.split)

end

section \<open>Methods and statuses\<close>

datatype http_method = kDelete | kGet | kHead | kPost | kPut | kPatch | kOptions | kOtherMethod string

type_synonym http_status = "32 word"

record http_lib =
  HttpMethodFromString :: "string \<Rightarrow> http_method outcome"
  HttpMethodToString :: "http_method \<Rightarrow> string"

locale method_laws =
  fixes ht :: http_lib
  assumes method_answers: "answers (HttpMethodFromString ht s)"
    and method_roundtrip: "HttpMethodFromString ht (HttpMethodToString ht m) = Ret m \<or>
      (\<exists>s. m = kOtherMethod s)"

definition kOk :: http_status where
  "kOk = 200"

section \<open>Messages\<close>

record 'h message =
  msg_headers :: "'h option"
  msg_body :: string

record 'h request = "'h message" +
  req_method :: http_method
  req_url :: string
  req_query :: "(string, string) umap option"

record 'h response = "'h message" +
  resp_status :: http_status

definition populate_message_default :: "'h header_lib \<Rightarrow> ('h, 'z) message_scheme \<Rightarrow> ('h, 'z) message_scheme" where
  "populate_message_default hl m = m\<lparr>msg_body := [], msg_headers := Some (HmEmpty hl)\<rparr>"

text \<open>
  The loop over the members of a JSON object: each name and each value read as a string
  goes into the container.
\<close>

fun emplace_members ::
  "'d json_lib \<Rightarrow> (string \<Rightarrow> string \<Rightarrow> 'm \<Rightarrow> 'm) \<Rightarrow> (string outcome \<times> 'd jval) list \<Rightarrow> 'm \<Rightarrow> 'm outcome" where
  "emplace_members js emplace [] m = Ret m"
| "emplace_members js emplace ((name, v) # rest) m =
     bindO name (\<lambda>k. bindO (AsString js v) (\<lambda>s. emplace_members js emplace rest (emplace k s m)))"

definition populate_message_from_json ::
  "'d json_lib \<Rightarrow> 'h header_lib \<Rightarrow> ('h, 'z) message_scheme \<Rightarrow> 'd json \<Rightarrow> ('h, 'z) message_scheme outcome" where
  "populate_message_from_json js hl m json =
     bindO (At js (Some json) ''body'') (\<lambda>b.
     bindO (AsStringOr js b []) (\<lambda>s.
     bindO (HasMember js (Some json) ''headers'') (\<lambda>has.
     bindO (if has
            then bindO (At js (Some json) ''headers'') (\<lambda>hs.
                 bindO (Members js hs) (\<lambda>ms. emplace_members js (HmEmplace hl) ms (HmEmpty hl)))
            else Ret (HmEmpty hl)) (\<lambda>hs.
     Ret (m\<lparr>msg_body := s, msg_headers := Some hs\<rparr>)))))"

section \<open>\<open>Request\<close>\<close>

text \<open>
  A request object as it is constructed; the method has no initial value in the code, and
  every path below sets it before the object is handed on.
\<close>

definition new_request :: "http_method \<Rightarrow> 'h request" where
  "new_request m = \<lparr>msg_headers = None, msg_body = [], req_method = m, req_url = [], req_query = None\<rparr>"

definition request_default :: "'h header_lib \<Rightarrow> 'h request" where
  "request_default hl =
     (populate_message_default hl (new_request kGet))\<lparr>req_method := kGet, req_query := Some []\<rparr>"

definition request_from_json ::
  "'d json_lib \<Rightarrow> 'h header_lib \<Rightarrow> http_lib \<Rightarrow> (string, string) rehash \<Rightarrow> 'd json \<Rightarrow> 'h request outcome" where
  "request_from_json js hl ht reh json =
     bindO (populate_message_from_json js hl (new_request kGet) json) (\<lambda>r.
     bindO (bindO (At js (Some json) ''method'') (AsString js)) (\<lambda>name.
     bindO (HttpMethodFromString ht name) (\<lambda>m.
     bindO (bindO (At js (Some json) ''url'') (AsString js)) (\<lambda>u.
     bindO (HasMember js (Some json) ''query'') (\<lambda>has.
     bindO (if has
            then bindO (At js (Some json) ''query'') (\<lambda>q.
                 bindO (Members js q) (\<lambda>ms. emplace_members js (um_emplace reh) ms []))
            else Ret []) (\<lambda>params.
     Ret (r\<lparr>req_method := m, req_url := u, req_query := Some params\<rparr>)))))))"

section \<open>\<open>Response\<close>\<close>

definition new_response :: "http_status \<Rightarrow> 'h response" where
  "new_response st = \<lparr>msg_headers = None, msg_body = [], resp_status = st\<rparr>"

definition response_default :: "'h header_lib \<Rightarrow> 'h response" where
  "response_default hl = (populate_message_default hl (new_response kOk))\<lparr>resp_status := kOk\<rparr>"

fun emplace_headers :: "'d json_lib \<Rightarrow> (string \<times> string) list \<Rightarrow> 'd json \<Rightarrow> 'd json outcome" where
  "emplace_headers js [] b = Ret b"
| "emplace_headers js ((k, v) # rest) b = bindO (EmplaceNocheck js k (JStr v) b) (emplace_headers js rest)"

text \<open>An exception that leaves a \<open>noexcept\<close> function ends the process.\<close>

fun noexcept :: "'a outcome \<Rightarrow> 'a outcome" where
  "noexcept (Throw e) = Crash StdTerminate"
| "noexcept r = r"

definition response_to_json :: "'d json_lib \<Rightarrow> 'h header_lib \<Rightarrow> 'h response \<Rightarrow> 'd json outcome" where
  "response_to_json js hl r = noexcept
     (bindO (EmplaceNocheck js ''status'' (JNum (NumberOf js (uint (ucast (resp_status r) :: uint16)))) JNull) (\<lambda>b.
      case msg_headers r of
        None \<Rightarrow> Crash NullDereference
      | Some hs \<Rightarrow>
          bindO (emplace_headers js (HmItems hl hs) JNull) (\<lambda>hb.
          bindO (if hb \<noteq> JNull then EmplaceNocheck js ''headers'' hb b else Ret b) (\<lambda>b.
          EmplaceNocheck js ''body'' (JStr (msg_body r)) b))))"

section \<open>The library laws together\<close>

locale message_env = json_laws js num_ok + header_laws hl canon + method_laws ht
  for js :: "'d json_lib" and num_ok and hl :: "'h header_lib" and canon and ht +
  fixes reh :: "(string, string) rehash"
  assumes rehash_permutes: "permutes_entries reh"

definition str_members :: "(string \<times> string) list \<Rightarrow> (string \<times> 'd json) list" where
  "str_members ps = map (\<lambda>(k, v). (k, JStr v)) ps"

text \<open>A JSON object with the members of a request; body, headers and query may be absent.\<close>

definition describes_request ::
  "(string \<times> 'd json) list \<Rightarrow> string \<Rightarrow> string \<Rightarrow> string \<Rightarrow> (string \<times> string) list \<Rightarrow> (string \<times> string) list \<Rightarrow> bool" where
  "describes_request kvs name u b hs qs \<longleftrightarrow>
     map_of kvs ''method'' = Some (JStr name) \<and> map_of kvs ''url'' = Some (JStr u) \<and>
     (case map_of kvs ''body'' of None \<Rightarrow> b = [] | Some v \<Rightarrow> v = JStr b) \<and>
     (case map_of kvs ''headers'' of None \<Rightarrow> hs = [] | Some v \<Rightarrow> v = JObj (str_members hs)) \<and>
     (case map_of kvs ''query'' of None \<Rightarrow> qs = [] | Some v \<Rightarrow> v = JObj (str_members qs))"

context message_env
begin

lemma emplace_members_strings:
  "emplace_members js ins (map (\<lambda>(k, v). (Ret k, Some v)) (str_members ps)) m
     = Ret (fold (\<lambda>(k, v). ins k v) ps m)"
  by (induction ps arbitrary: m) (auto simp: str_members_def AsString_str)

lemma emplace_all_umap:
  assumes "um_ok m"
  shows "um_ok (fold (\<lambda>(k, v). um_emplace reh k v) ps m) \<and>
    map_of (fold (\<lambda>(k, v). um_emplace reh k v) ps m) = map_of ps ++ map_of m"
  using assms
proof (induction ps arbitrary: m)
  case Nil
  then show ?case by simp
next
  case (Cons kv ps)
  obtain k v where kv: "kv = (k, v)" by force
  note ok = um_ok_emplace [OF rehash_permutes Cons.prems, of k v]
  have eq: "map_of ps ++ map_of (um_emplace reh k v m) = (map_of ps)(k \<mapsto> v) ++ map_of m"
    using map_of_emplace [OF rehash_permutes Cons.prems, of k v]
    by (auto simp: fun_eq_iff map_add_def map_of_eq_None_iff split: option.split)
      (metis image_eqI fst_conv map_of_SomeD option.distinct(1))+
  from Cons.IH [OF ok] eq kv show ?case by (simp add: fun_upd_def)
qed

lemma emplace_members_answers:
  "\<forall>nv \<in> set ms. answers (fst nv) \<Longrightarrow> answers (emplace_members js ins ms m)"
proof (induction ms arbitrary: m)
  case Nil
  then show ?case by simp
next
  case (Cons nv ms)
  obtain name v where nv: "nv = (name, v)" by force
  from Cons.prems nv have "answers name" by simp
  moreover have "answers (emplace_members js ins ms m')" for m'
    using Cons by simp
  ultimately show ?case
    unfolding nv emplace_members.simps by (intro answers_bindO AsString_answers)
qed

lemma members_emplaced_answers: "Members js v = Ret ms \<Longrightarrow> answers (emplace_members js ins ms m)"
  by (intro emplace_members_answers) (auto intro: Members_names)

lemma populate_message_ok:
  assumes "case map_of kvs ''body'' of None \<Rightarrow> b = [] | Some v \<Rightarrow> v = JStr b"
    and "case map_of kvs ''headers'' of None \<Rightarrow> hs = [] | Some v \<Rightarrow> v = JObj (str_members hs)"
  shows "populate_message_from_json js hl m (JObj kvs)
    = Ret (m\<lparr>msg_body := b, msg_headers := Some (fold (\<lambda>(k, v). HmEmplace hl k v) hs (HmEmpty hl))\<rparr>)"
  using assms
  by (auto simp: populate_message_from_json_def json_simps emplace_members_strings split: option.splits)

lemma populate_message_answers: "answers (populate_message_from_json js hl m json)"
  unfolding populate_message_from_json_def
  by (intro answers_bindO json_answers answers_Ret)
    (auto intro!: json_answers members_emplaced_answers)

lemma request_from_json_described:
  assumes "describes_request kvs name u b hs qs" and "HttpMethodFromString ht name = Ret mt"
  shows "request_from_json js hl ht reh (JObj kvs) =
    Ret \<lparr>msg_headers = Some (fold (\<lambda>(k, v). HmEmplace hl k v) hs (HmEmpty hl)), msg_body = b,
         req_method = mt, req_url = u,
         req_query = Some (fold (\<lambda>(k, v). um_emplace reh k v) qs [])\<rparr>"
proof -
  have "populate_message_from_json js hl (new_request kGet) (JObj kvs) =
    Ret ((new_request kGet)\<lparr>msg_body := b,
      msg_headers := Some (fold (\<lambda>(k, v). HmEmplace hl k v) hs (HmEmpty hl))\<rparr>)"
    using assms(1) by (intro populate_message_ok) (simp_all add: describes_request_def)
  with assms show ?thesis
    by (auto simp: request_from_json_def new_request_def describes_request_def json_simps
        emplace_members_strings split: option.splits)
qed

lemma request_from_json_answers: "answers (request_from_json js hl ht reh json)"
  unfolding request_from_json_def
  by (intro answers_bindO json_answers populate_message_answers method_answers answers_Ret)
    (auto intro!: json_answers members_emplaced_answers)

lemma request_from_json_reading:
  assumes "describes_request kvs name u b hs qs" and "HttpMethodFromString ht name = Ret mt"
  shows "\<exists>h q. request_from_json js hl ht reh (JObj kvs) =
      Ret \<lparr>msg_headers = Some h, msg_body = b, req_method = mt, req_url = u, req_query = Some q\<rparr>
    \<and> um_ok q \<and> map_of q = map_of qs \<and> names_distinct hl canon h
    \<and> (\<forall>n. header_value hl canon h n = map_of (map (\<lambda>(k, v). (canon k, v)) hs) (canon n))"
  using request_from_json_described [OF assms] emplace_all_umap [OF um_ok_Nil, of qs]
  by (simp add: names_distinct_emplace_all names_distinct_empty header_value_emplace_all header_value_empty)

lemma request_from_json_incomplete:
  assumes "(\<nexists>s. map_of kvs ''method'' = Some (JStr s)) \<or> (\<nexists>s. map_of kvs ''url'' = Some (JStr s))"
  shows "throws_std (request_from_json js hl ht reh (JObj kvs))"
proof -
  have "\<not> (\<exists>r. request_from_json js hl ht reh (JObj kvs) = Ret r)"
  proof
    assume "\<exists>r. request_from_json js hl ht reh (JObj kvs) = Ret r"
    then obtain s s' where "AsString js (map_of kvs ''method'') = Ret s" "AsString js (map_of kvs ''url'') = Ret s'"
      by (auto simp: request_from_json_def bindO_Ret_iff At_obj)
    with assms AsString_other [of "map_of kvs ''method''"] AsString_other [of "map_of kvs ''url''"]
    show False by (auto simp: throws_std_def)
  qed
  with request_from_json_answers [of "JObj kvs"] show ?thesis by (auto simp: answers_def)
qed

lemma emplace_headers_obj:
  "emplace_headers js kvs (JObj acc) = Ret (JObj (acc @ str_members kvs))"
  by (induction kvs arbitrary: acc) (auto simp: str_members_def EmplaceNocheck_obj)

lemma emplace_headers_null:
  "emplace_headers js kvs JNull = Ret (if kvs = [] then JNull else JObj (str_members kvs))"
  by (cases kvs) (auto simp: EmplaceNocheck_null emplace_headers_obj str_members_def)

lemma response_to_json_written:
  "response_to_json js hl r =
    (case msg_headers r of
       None \<Rightarrow> Crash NullDereference
     | Some h \<Rightarrow> Ret (JObj ((''status'', JNum (NumberOf js (uint (resp_status r) mod 65536)))
         # (if HmItems hl h = [] then [] else [(''headers'', JObj (str_members (HmItems hl h)))])
         @ [(''body'', JStr (msg_body r))])))"
  by (auto simp: response_to_json_def json_simps emplace_headers_null unsigned_ucast_eq take_bit_eq_mod
      split: option.split)

end

section \<open>A reference header map and method table\<close>

definition lower_char :: "char \<Rightarrow> char" where
  "lower_char c = (let n = (of_char c :: nat) in if 65 \<le> n \<and> n \<le> 90 then char_of (n + 32) else c)"

definition lower :: "string \<Rightarrow> string" where
  "lower s = map lower_char s"

definition ref_headers :: "(string \<times> string) list header_lib" where
  "ref_headers =
     \<lparr>HmEmpty = [],
      HmEmplace = (\<lambda>k v h. if lower k \<in> (lower \<circ> fst) ` set h then h else h @ [(k, v)]),
      HmItems = (\<lambda>h. h)\<rparr>"

definition ref_methods :: "(string \<times> http_method) list" where
  "ref_methods = [(''DELETE'', kDelete), (''GET'', kGet), (''HEAD'', kHead), (''POST'', kPost),
     (''PUT'', kPut), (''PATCH'', kPatch), (''OPTIONS'', kOptions)]"

definition ref_http :: http_lib where
  "ref_http =
     \<lparr>HttpMethodFromString = (\<lambda>s. case map_of ref_methods s of
        Some m \<Rightarrow> Ret m | None \<Rightarrow> Throw (StdException (''unknown method '' @ s))),
      HttpMethodToString = (\<lambda>m. case map_of (map prod.swap ref_methods) m of
        Some s \<Rightarrow> s | None \<Rightarrow> [])\<rparr>"

interpretation rm: message_env ref_json "\<lambda>_. True" ref_headers lower ref_http "\<lambda>m. m"
proof
  fix m
  show "HttpMethodFromString ref_http (HttpMethodToString ref_http m) = Ret m \<or> (\<exists>s. m = kOtherMethod s)"
    by (cases m) (simp_all add: ref_http_def ref_methods_def)
qed (auto simp: ref_headers_def ref_http_def permutes_entries_def split: option.split)

section \<open>What the conversions guarantee\<close>

text \<open>
  C27. \<open>Request::FromJson\<close> reads a well-formed description: method, URL and body are
  those of the document, absent members give the empty body and empty containers, and in
  the headers and the query the first value given under a name is the one that counts,
  where header names are compared without case.
\<close>

theorem request_from_json_reads:
  assumes "message_env js num_ok hl canon ht reh"
    and "describes_request kvs name u b hs qs" and "HttpMethodFromString ht name = Ret mt"
  shows "\<exists>h q. request_from_json js hl ht reh (JObj kvs) =
      Ret \<lparr>msg_headers = Some h, msg_body = b, req_method = mt, req_url = u, req_query = Some q\<rparr>
    \<and> um_ok q \<and> map_of q = map_of qs \<and> names_distinct hl canon h
    \<and> (\<forall>n. header_value hl canon h n = map_of (map (\<lambda>(k, v). (canon k, v)) hs) (canon n))"
  using assms by (rule message_env.request_from_json_reading)

definition sample_request :: "(string \<times> int json) list" where
  "sample_request =
     [(''method'', JStr ''PATCH''), (''url'', JStr ''/lua''),
      (''headers'', JObj (str_members [(''X-A'', ''1''), (''x-a'', ''2'')])),
      (''query'', JObj (str_members [(''k'', ''v'')]))]"

theorem request_from_json_reads_witness:
  "\<exists>h q. request_from_json ref_json ref_headers ref_http (\<lambda>m. m) (JObj sample_request) =
      Ret \<lparr>msg_headers = Some h, msg_body = [], req_method = kPatch, req_url = ''/lua'', req_query = Some q\<rparr>
    \<and> map_of q ''k'' = Some ''v'' \<and> header_value ref_headers lower h ''X-a'' = Some ''1''"
proof -
  have d: "describes_request sample_request ''PATCH'' ''/lua'' [] [(''X-A'', ''1''), (''x-a'', ''2'')] [(''k'', ''v'')]"
    by (simp add: describes_request_def sample_request_def)
  have m: "HttpMethodFromString ref_http ''PATCH'' = Ret kPatch"
    by (simp add: ref_http_def ref_methods_def)
  have "lower ''X-a'' = lower ''X-A''" by code_simp
  with request_from_json_reads [OF rm.message_env_axioms d m] show ?thesis by fastforce
qed

text \<open>
  Whatever the JSON document is, \<open>Request::FromJson\<close> returns or throws an exception
  derived from \<open>std::exception\<close>; on an object whose method or URL is absent or not a
  string it throws.
\<close>

lemma request_from_json_rejects:
  assumes "message_env js num_ok hl canon ht reh"
  shows "answers (request_from_json js hl ht reh json)
    \<and> (\<forall>kvs. json = JObj kvs \<and>
        ((\<nexists>s. map_of kvs ''method'' = Some (JStr s)) \<or> (\<nexists>s. map_of kvs ''url'' = Some (JStr s)))
      \<longrightarrow> throws_std (request_from_json js hl ht reh json))"
  using message_env.request_from_json_answers [OF assms] message_env.request_from_json_incomplete [OF assms]
  by blast

lemma request_from_json_rejects_sample:
  "throws_std (request_from_json ref_json ref_headers ref_http (\<lambda>m. m) (JObj [(''method'', JStr ''GET'')]))"
  using request_from_json_rejects [OF rm.message_env_axioms, of "JObj [(''method'', JStr ''GET'')]"]
  by simp

end
