(* ===== verification/Http_Tests.thy ===== *)
theory Http_Tests
  imports Http_Message
begin

text \<open>
  The unit tests of the HTTP messages, \<open>src/src/ut/http-request-ut.cpp\<close> and \<open>http-response-ut.cpp\<close>, as
  definitions, and that the model passes them over every library that keeps its laws. A test
  returns whether all its assertions hold.
\<close>

section \<open>Lookups the tests use\<close>

definition kContentType :: string where
  "kContentType = ''Content-Type''"

definition kMyHeader :: string where
  "kMyHeader = ''X-My-Header''"

text \<open>\<open>json[key].As<std::string>()\<close>.\<close>

definition string_at :: "'d json_lib \<Rightarrow> 'd jval \<Rightarrow> string \<Rightarrow> string outcome" where
  "string_at js v key = bindO (At js v key) (AsString js)"

section \<open>Requests\<close>

definition test_request_default :: "'h header_lib \<Rightarrow> bool" where
  "test_request_default hl =
     (let request = request_default hl
      in req_method request = kGet \<and> req_url request = []
       \<and> map_option length (req_query request) = Some 0
       \<and> map_option (\<lambda>h. length (HmItems hl h)) (msg_headers request) = Some 0
       \<and> msg_body request = [])"

text \<open>\<open>kStringRequest\<close>, as the document the text denotes.\<close>

definition test_document :: "(string \<times> 'd json) list" where
  "test_document =
     [(''method'', JStr ''PATCH''),
      (''url'', JStr ''/miet/lambda-executor/lua''),
      (''query'', JObj [(''key'', JStr ''value''), (''format'', JStr ''json'')]),
      (''headers'', JObj [(''Content-Type'', JStr ''application/json''), (''X-My-Header'', JStr ''value'')]),
      (''body'', JStr ''some-data'')]"

definition test_request_from_json ::
  "'d json_lib \<Rightarrow> 'h header_lib \<Rightarrow> (string \<Rightarrow> string) \<Rightarrow> http_lib \<Rightarrow> (string, string) rehash \<Rightarrow> string \<Rightarrow> bool outcome" where
  "test_request_from_json js hl canon ht reh kStringRequest =
     bindO (FromString js kStringRequest) (\<lambda>json.
     bindO (request_from_json js hl ht reh json) (\<lambda>request. Ret
       (req_method request = kPatch \<and> req_url request = ''/miet/lambda-executor/lua''
        \<and> (case req_query request of
             None \<Rightarrow> False
           | Some q \<Rightarrow> length q = 2 \<and> map_of q ''key'' = Some ''value'' \<and> map_of q ''format'' = Some ''json'')
        \<and> (case msg_headers request of
             None \<Rightarrow> False
           | Some h \<Rightarrow> length (HmItems hl h) = 2 \<and> header_value hl canon h kContentType = Some ''application/json''
               \<and> header_value hl canon h kMyHeader = Some ''value'')
        \<and> msg_body request = ''some-data'')))"

section \<open>Responses\<close>

definition test_response_default :: "'h header_lib \<Rightarrow> bool" where
  "test_response_default hl =
     (let request = response_default hl
      in resp_status request = kOk
       \<and> map_option (\<lambda>h. length (HmItems hl h)) (msg_headers request) = Some 0
       \<and> msg_body request = [])"

definition test_response_default_to_json :: "'d json_lib \<Rightarrow> 'h header_lib \<Rightarrow> bool outcome" where
  "test_response_default_to_json js hl =
     bindO (response_to_json js hl (response_default hl)) (\<lambda>json.
     bindO (At js (Some json) ''status'') (\<lambda>status.
     bindO (HasMember js (Some json) ''headers'') (\<lambda>has.
     bindO (string_at js (Some json) ''body'') (\<lambda>body.
     Ret (status = Some (JNum (NumberOf js 200)) \<and> \<not> has \<and> body = [])))))"

definition test_response_custom_to_json :: "'d json_lib \<Rightarrow> 'h header_lib \<Rightarrow> bool outcome" where
  "test_response_custom_to_json js hl =
     (let response = (response_default hl)\<lparr>resp_status := 201, msg_body := ''test body'',
            msg_headers := Some (HmEmplace hl ''X-Custom-Header'' ''value''
              (HmEmplace hl ''Content-Type'' ''application/json'' (HmEmpty hl)))\<rparr>
      in bindO (response_to_json js hl response) (\<lambda>json.
         bindO (At js (Some json) ''status'') (\<lambda>status.
         bindO (string_at js (Some json) ''body'') (\<lambda>body.
         bindO (At js (Some json) ''headers'') (\<lambda>headers.
         bindO (string_at js headers ''Content-Type'') (\<lambda>type.
         bindO (string_at js headers ''X-Custom-Header'') (\<lambda>custom.
         Ret (status = Some (JNum (NumberOf js 201)) \<and> body = ''test body''
           \<and> type = ''application/json'' \<and> custom = ''value''))))))))"

section \<open>The tests pass\<close>

context message_env
begin

lemma two_headers:
  assumes "canon k \<noteq> canon l"
  shows "mset (HmItems hl (HmEmplace hl l y (HmEmplace hl k x (HmEmpty hl)))) = {#(k, x), (l, y)#}"
proof -
  have one: "mset (HmItems hl (HmEmplace hl k x (HmEmpty hl))) = {#(k, x)#}"
    using items_emplace_new [of k "HmEmpty hl" x] by (simp add: items_empty)
  then have "set (HmItems hl (HmEmplace hl k x (HmEmpty hl))) = {(k, x)}" by (metis set_mset_mset set_mset_single)
  with assms have "canon l \<notin> (canon \<circ> fst) ` set (HmItems hl (HmEmplace hl k x (HmEmpty hl)))" by simp
  from items_emplace_new [OF this, of y] one show ?thesis by simp
qed

lemma two_headers_values:
  fixes x y
  assumes "canon k \<noteq> canon l"
  defines "items \<equiv> HmItems hl (HmEmplace hl l y (HmEmplace hl k x (HmEmpty hl)))"
  shows "length items = 2" and "map_of items k = Some x" and "map_of items l = Some y"
proof -
  have ms: "mset items = mset [(k, x), (l, y)]" using two_headers [OF assms(1), of y x] by (simp add: items_def)
  then show "length items = 2" by (metis mset_eq_length length_Cons list.size(3) numeral_2_eq_2)
  have "distinct (map fst [(k, x), (l, y)])" using assms(1) by auto
  then have "map_of items = map_of [(k, x), (l, y)]" by (rule map_of_mset_eq [OF ms])
  then show "map_of items k = Some x" "map_of items l = Some y" using assms(1) by auto
qed

lemma two_params:
  assumes "k \<noteq> l"
  shows "length (um_emplace reh l y (um_emplace reh k x [])) = 2"
proof -
  let ?q = "fold (\<lambda>(k, v). um_emplace reh k v) [(k, x), (l, y)] []"
  have "um_ok ?q \<and> map_of ?q = map_of [(k, x), (l, y)]"
    using emplace_all_umap [OF um_ok_Nil, of "[(k, x), (l, y)]"] by simp
  then have q: "distinct (map fst ?q)" "dom (map_of ?q) = {k, l}" by (auto simp: um_ok_def simp del: fold.simps)
  then have "length ?q = card {k, l}" by (metis distinct_card dom_map_of_conv_image_fst length_map set_map)
  with assms show ?thesis by simp
qed

lemma request_tests_pass:
  assumes "HttpMethodFromString ht ''PATCH'' = Ret kPatch" and "canon kContentType \<noteq> canon kMyHeader"
    and "FromString js text = Ret (JObj test_document)"
  shows "test_request_default hl" and "test_request_from_json js hl canon ht reh text = Ret True"
proof -
  show "test_request_default hl"
    by (simp add: test_request_default_def request_default_def populate_message_default_def new_request_def items_empty)
  let ?hs = "[(''Content-Type'', ''application/json''), (''X-My-Header'', ''value'')]"
    and ?qs = "[(''key'', ''value''), (''format'', ''json'')]"
  let ?h = "fold (\<lambda>(k, v). HmEmplace hl k v) ?hs (HmEmpty hl)" and ?q = "fold (\<lambda>(k, v). um_emplace reh k v) ?qs []"
  have described: "describes_request test_document ''PATCH'' ''/miet/lambda-executor/lua'' ''some-data'' ?hs ?qs"
    by (simp add: describes_request_def test_document_def str_members_def)
  have names: "canon ''Content-Type'' \<noteq> canon ''X-My-Header''" using assms(2) by (simp add: kContentType_def kMyHeader_def)
  have "length ?q = 2" "map_of ?q = map_of ?qs"
    using two_params [of "''key''" "''format''"] emplace_all_umap [OF um_ok_Nil, of ?qs] by simp_all
  moreover have "length (HmItems hl ?h) = 2" using two_headers_values(1) [OF names] by simp
  moreover have "header_value hl canon ?h kContentType = Some ''application/json''" "header_value hl canon ?h kMyHeader = Some ''value''"
    using names header_value_emplace_all [OF names_distinct_empty, of ?hs]
    by (simp_all add: header_value_empty kContentType_def kMyHeader_def)
  ultimately show "test_request_from_json js hl canon ht reh text = Ret True"
    using request_from_json_described [OF described assms(1)] by (simp add: test_request_from_json_def assms(3))
qed

lemma response_tests_pass:
  assumes "canon ''Content-Type'' \<noteq> canon ''X-Custom-Header''"
  shows "test_response_default hl" and "test_response_default_to_json js hl = Ret True"
    and "test_response_custom_to_json js hl = Ret True"
proof -
  show "test_response_default hl" "test_response_default_to_json js hl = Ret True"
    by (simp_all add: test_response_default_def test_response_default_to_json_def string_at_def response_default_def
        populate_message_default_def new_response_def kOk_def items_empty response_to_json_written json_simps)
  define items where "items = HmItems hl (HmEmplace hl ''X-Custom-Header'' ''value''
    (HmEmplace hl ''Content-Type'' ''application/json'' (HmEmpty hl)))"
  have "length items = 2" "map_of items ''Content-Type'' = Some ''application/json''" "map_of items ''X-Custom-Header'' = Some ''value''"
    unfolding items_def by (rule two_headers_values [OF assms])+
  then have "items \<noteq> []" "AsString js (map_of (str_members items) ''Content-Type'') = Ret ''application/json''"
    "AsString js (map_of (str_members items) ''X-Custom-Header'') = Ret ''value''"
    by (auto simp: str_members_def map_of_map [of JStr] AsString_str)
  then show "test_response_custom_to_json js hl = Ret True"
    by (simp add: test_response_custom_to_json_def string_at_def response_to_json_written json_simps flip: items_def)
qed

end

text \<open>They pass over the reference libraries.\<close>

lemma ref_tests_pass:
  "test_request_from_json ref_json ref_headers lower ref_http (\<lambda>m. m) (ToString ref_json (JObj test_document)) = Ret True"
  "test_response_custom_to_json ref_json ref_headers = Ret True"
proof -
  have names: "lower kContentType \<noteq> lower kMyHeader" "lower ''Content-Type'' \<noteq> lower ''X-Custom-Header''"
    by (simp_all add: kContentType_def kMyHeader_def lower_def)
  have "json_wf (\<lambda>_. True) (JObj test_document)" by (simp add: test_document_def)
  then have "FromString ref_json (ToString ref_json (JObj test_document)) = Ret (JObj test_document)"
    by (rule rj.FromString_ToString)
  then show "test_request_from_json ref_json ref_headers lower ref_http (\<lambda>m. m) (ToString ref_json (JObj test_document)) = Ret True"
    by (intro rm.request_tests_pass names) (simp_all add: ref_http_def ref_methods_def)
  show "test_response_custom_to_json ref_json ref_headers = Ret True"
    by (rule rm.response_tests_pass(3) [OF names(2)])
qed

end
