(* ===== verification/Http_Client.thy ===== *)
theory Http_Client
  imports Http_Message
begin

text \<open>
  The HTTP client of the service: the interface \<open>ClientBase\<close> with its contract and its
  implementation \<open>http::Client\<close> over userver's client, which is the argument
  \<open>perform\<close>: it takes the request that was built and changes the world \<open>'w\<close>.
\<close>

section \<open>The interface \<open>ClientBase\<close>\<close>

record ('h, 'w) client_base =
  Send :: "'h request \<Rightarrow> ('w, 'h response) action"

text \<open>A request whose pointers are set, which the code hands to \<open>Send\<close>.\<close>

definition complete_request :: "'h request \<Rightarrow> bool" where
  "complete_request r \<longleftrightarrow> msg_headers r \<noteq> None \<and> req_query r \<noteq> None"

section \<open>\<open>http::Client\<close>\<close>

fun append_params :: "bool \<Rightarrow> (string \<times> string) list \<Rightarrow> string" where
  "append_params is_first [] = []"
| "append_params is_first ((k, v) # rest) =
     (if is_first then ''&'' else []) @ k @ ''='' @ v @ append_params False rest"

definition build_url_with_query_params :: "'h request \<Rightarrow> string outcome" where
  "build_url_with_query_params r =
     (case req_query r of
        None \<Rightarrow> Crash NullDereference
      | Some q \<Rightarrow> Ret (req_url r @ (if q \<noteq> [] then ''?'' @ append_params True q else [])))"

record 'h wire_request =
  wr_data :: string
  wr_method :: string
  wr_url :: string
  wr_headers :: 'h
  wr_timeout_s :: nat

record 'h native_response =
  nr_status :: http_status
  nr_headers :: 'h
  nr_body :: string

definition client_send ::
  "http_lib \<Rightarrow> ('h wire_request \<Rightarrow> ('w, 'h native_response) action) \<Rightarrow> 'h request \<Rightarrow> ('w, 'h response) action" where
  "client_send ht perform request =
     bindS (liftS (build_url_with_query_params request)) (\<lambda>url.
     case msg_headers request of
       None \<Rightarrow> liftS (Crash NullDereference)
     | Some hs \<Rightarrow>
         bindS (perform
           \<lparr>wr_data = c_str (msg_body request),
            wr_method = HttpMethodToString ht (req_method request),
            wr_url = url, wr_headers = hs, wr_timeout_s = 5\<rparr>) (\<lambda>response.
         returnS
           \<lparr>msg_headers = Some (nr_headers response), msg_body = nr_body response,
            resp_status = nr_status response\<rparr>))"

definition client_vt ::
  "http_lib \<Rightarrow> ('h wire_request \<Rightarrow> ('w, 'h native_response) action) \<Rightarrow> ('h, 'w) client_base" where
  "client_vt ht perform = \<lparr>Send = client_send ht perform\<rparr>"

section \<open>The contract of a client\<close>

locale http_client_contract =
  fixes cl :: "('h, 'w) client_base"
  assumes Send_answers: "complete_request r \<Longrightarrow> answersS (Send cl r w)"

locale native_client =
  fixes ht :: http_lib and perform :: "'h wire_request \<Rightarrow> ('w, 'h native_response) action"
  assumes perform_answers: "answersS (perform wr w)"
begin

lemma client_send_complete:
  assumes "msg_headers r = Some hs" and "req_query r = Some q"
  shows "client_send ht perform r w =
    (case perform
        \<lparr>wr_data = c_str (msg_body r), wr_method = HttpMethodToString ht (req_method r),
         wr_url = req_url r @ (if q \<noteq> [] then ''?'' @ append_params True q else []),
         wr_headers = hs, wr_timeout_s = 5\<rparr> w of
       (Ret a, w') \<Rightarrow> (Ret \<lparr>msg_headers = Some (nr_headers a), msg_body = nr_body a, resp_status = nr_status a\<rparr>, w')
     | (Throw e, w') \<Rightarrow> (Throw e, w')
     | (LuaJump m, w') \<Rightarrow> (LuaJump m, w')
     | (Crash c, w') \<Rightarrow> (Crash c, w')
     | (NoFuel, w') \<Rightarrow> (NoFuel, w'))"
  using assms
  by (auto simp: client_send_def build_url_with_query_params_def bindS_def liftS_def returnS_def
      split: prod.splits outcome.splits)

lemma client_send_answers:
  assumes "complete_request r"
  shows "answersS (client_send ht perform r w)"
proof -
  from assms obtain hs q where r: "msg_headers r = Some hs" "req_query r = Some q"
    by (auto simp: complete_request_def)
  let ?wr = "\<lparr>wr_data = c_str (msg_body r), wr_method = HttpMethodToString ht (req_method r),
         wr_url = req_url r @ (if q \<noteq> [] then ''?'' @ append_params True q else []),
         wr_headers = hs, wr_timeout_s = 5\<rparr>"
  show ?thesis
    unfolding client_send_complete [OF r]
    by (rule answersS_cases [OF perform_answers [of ?wr w]]) simp_all
qed

end

sublocale native_client \<subseteq> http_client_contract "client_vt ht perform"
  by unfold_locales (simp add: client_vt_def client_send_answers)

text \<open>A network that records what it is sent and answers everything with the body it got.\<close>

definition ref_perform ::
  "(string \<times> string) list wire_request \<Rightarrow> (string list, (string \<times> string) list native_response) action" where
  "ref_perform wr log =
     (if wr_url wr = [] then (Throw (StdException ''empty url''), log)
      else (Ret \<lparr>nr_status = 200, nr_headers = wr_headers wr, nr_body = wr_data wr\<rparr>, log @ [wr_url wr]))"

interpretation rn: native_client ref_http ref_perform
  by unfold_locales (simp add: ref_perform_def)

section \<open>The query string\<close>

text \<open>
  How a server reads a query string: pieces between \<open>&\<close>, empty pieces skipped, name
  and value split at the first \<open>=\<close>.
\<close>

fun split_pieces :: "string \<Rightarrow> string \<Rightarrow> string list" where
  "split_pieces acc [] = [acc]"
| "split_pieces acc (c # cs) =
     (if c = CHR ''&'' then acc # split_pieces [] cs else split_pieces (acc @ [c]) cs)"

definition decode_piece :: "string \<Rightarrow> string \<times> string" where
  "decode_piece s = (takeWhile (\<lambda>c. c \<noteq> CHR ''='') s, drop 1 (dropWhile (\<lambda>c. c \<noteq> CHR ''='') s))"

definition decode_query :: "string \<Rightarrow> (string \<times> string) list" where
  "decode_query s = map decode_piece (filter (\<lambda>p. p \<noteq> []) (split_pieces [] s))"

definition plain_param :: "string \<times> string \<Rightarrow> bool" where
  "plain_param p \<longleftrightarrow> CHR ''&'' \<notin> set (fst p) \<union> set (snd p) \<and> CHR ''='' \<notin> set (fst p)"

lemma split_pieces_plain: "CHR ''&'' \<notin> set s \<Longrightarrow> split_pieces acc s = [acc @ s]"
  by (induction s arbitrary: acc) auto

lemma append_params_later: "append_params False ps = concat (map (\<lambda>(k, v). k @ ''='' @ v) ps)"
  by (induction ps) auto

lemma append_params_no_amp:
  "\<forall>p \<in> set ps. plain_param p \<Longrightarrow> CHR ''&'' \<notin> set (append_params False ps)"
  by (induction ps) (auto simp: plain_param_def)

lemma decode_piece_eq: "CHR ''='' \<notin> set k \<Longrightarrow> decode_piece (k @ ''='' @ v) = (k, v)"
  unfolding decode_piece_def by (induction k) auto

text \<open>
  C40. The URL the client sends, character by character: \<open>?&\<close>, the first parameter, and the
  other parameters without a separator between any two of them. The separator before the first
  parameter is an empty piece, which a server skips; those that are missing make a server that
  decodes the query string of two or more parameters see one parameter only, whose value has the
  others run together in it.
\<close>

theorem query_parameters_run_together:
  assumes "req_query r = Some ((k, v) # ps)"
  shows "build_url_with_query_params r
      = Ret (req_url r @ ''?&'' @ k @ ''='' @ v @ concat (map (\<lambda>(k, v). k @ ''='' @ v) ps))
    \<and> ((\<forall>p \<in> set ((k, v) # ps). plain_param p) \<longrightarrow>
        decode_query (''&'' @ k @ ''='' @ v @ concat (map (\<lambda>(k, v). k @ ''='' @ v) ps))
          = [(k, v @ concat (map (\<lambda>(k, v). k @ ''='' @ v) ps))])"
proof (intro conjI impI)
  let ?rest = "concat (map (\<lambda>(k, v). k @ ''='' @ v) ps)"
  show "build_url_with_query_params r = Ret (req_url r @ ''?&'' @ k @ ''='' @ v @ ?rest)"
    using assms by (simp add: build_url_with_query_params_def append_params_later)
  assume plain: "\<forall>p \<in> set ((k, v) # ps). plain_param p"
  then have "CHR ''&'' \<notin> set ?rest"
    using append_params_no_amp [of ps] by (simp add: append_params_later)
  then have "CHR ''&'' \<notin> set (k @ ''='' @ v @ ?rest)"
    using plain by (auto simp: plain_param_def)
  from split_pieces_plain [OF this] plain
  show "decode_query (''&'' @ k @ ''='' @ v @ ?rest) = [(k, v @ ?rest)]"
    by (simp add: decode_query_def decode_piece_eq [simplified] plain_param_def)
qed

theorem query_parameters_run_together_witness:
  "build_url_with_query_params ((request_default ref_headers)\<lparr>req_url := ''/u'', req_query := Some [(''a'', ''1''), (''b'', ''2'')]\<rparr>)
      = Ret ''/u?&a=1b=2''
    \<and> decode_query ''&a=1b=2'' = [(''a'', ''1b=2'')]"
  using query_parameters_run_together
    [of "(request_default ref_headers)\<lparr>req_url := ''/u'', req_query := Some [(''a'', ''1''), (''b'', ''2'')]\<rparr>"
        "''a''" "''1''" "[(''b'', ''2'')]"]
  by (simp add: plain_param_def)

end
