(* ===== verification/Postgres.thy ===== *)
theory Postgres
  imports Exceptions
begin

text \<open>
  The database. The service talks to PostgreSQL through \<open>Cluster::Execute\<close>, which is
  an argument; the statements it sends are the constructors of \<open>sql_statement\<close>. What
  the statements mean is fixed by the tables of \<open>postgresql/schemas/main-db.sql\<close> and is
  the content of the locale \<open>postgres_laws\<close>.
\<close>

section \<open>Statements and results\<close>

text \<open>
  The statements of the program with their parameters:
  \<^item> \<open>SELECT parent_project_id, source_code FROM scripts WHERE id = $1\<close>
  \<^item> \<open>INSERT INTO projects_kv_storage (project_id, key, value) VALUES ($1, $2, $3)
    ON CONFLICT (project_id, key) DO UPDATE SET value = EXCLUDED.value\<close>
  \<^item> \<open>SELECT value FROM projects_kv_storage WHERE project_id = $1 AND key = $2\<close>
  \<^item> \<open>CREATE TABLE IF NOT EXISTS active_runner_instances (...)\<close>
  \<^item> \<open>INSERT INTO active_runner_instances (ip_address, port) VALUES ($1, $2)
    ON CONFLICT (ip_address, port) DO NOTHING\<close>
  \<^item> \<open>DELETE FROM active_runner_instances WHERE ip_address = $1 AND port = $2\<close>
\<close>

datatype sql_statement =
    SelectScript int64
  | UpsertValue int64 string string
  | SelectValue int64 string
  | CreateInstances
  | InsertInstance string uint16
  | DeleteInstance string uint16

datatype cluster_host = kMaster | kSlaveOrMaster

datatype pg_value = PgNull | PgInt int64 | PgText string

record pg_result =
  rows :: "(string \<times> pg_value) list list"
  rows_affected :: nat

record 'w pg_cluster =
  Execute :: "cluster_host \<Rightarrow> sql_statement \<Rightarrow> ('w, pg_result) action"
  AsBigint :: "pg_value option \<Rightarrow> int64 outcome"
  AsText :: "pg_value option \<Rightarrow> string outcome"

section \<open>The tables\<close>

record db_tables =
  db_scripts :: "int64 \<Rightarrow> (int64 option \<times> string) option"
  db_values :: "int64 \<times> string \<Rightarrow> string option"
  db_instances :: "(string \<times> uint16) list option"

fun sql_rows :: "sql_statement \<Rightarrow> db_tables \<Rightarrow> (string \<times> pg_value) list list" where
  "sql_rows (SelectScript i) db =
     (case db_scripts db i of
        None \<Rightarrow> []
      | Some (p, src) \<Rightarrow>
          [[(''parent_project_id'', case p of None \<Rightarrow> PgNull | Some n \<Rightarrow> PgInt n),
            (''source_code'', PgText src)]])"
| "sql_rows (SelectValue p k) db =
     (case db_values db (p, k) of None \<Rightarrow> [] | Some v \<Rightarrow> [[(''value'', PgText v)]])"
| "sql_rows _ db = []"

fun sql_effect :: "sql_statement \<Rightarrow> db_tables \<Rightarrow> db_tables" where
  "sql_effect (UpsertValue p k v) db = db\<lparr>db_values := (db_values db)((p, k) \<mapsto> v)\<rparr>"
| "sql_effect CreateInstances db =
     (if db_instances db = None then db\<lparr>db_instances := Some []\<rparr> else db)"
| "sql_effect (InsertInstance host port) db =
     (case db_instances db of
        None \<Rightarrow> db
      | Some is \<Rightarrow> if (host, port) \<in> set is then db else db\<lparr>db_instances := Some ((host, port) # is)\<rparr>)"
| "sql_effect (DeleteInstance host port) db =
     db\<lparr>db_instances := map_option (filter (\<lambda>i. i \<noteq> (host, port))) (db_instances db)\<rparr>"
| "sql_effect _ db = db"

fun sql_affected :: "sql_statement \<Rightarrow> db_tables \<Rightarrow> nat" where
  "sql_affected (UpsertValue p k v) db = 1"
| "sql_affected (InsertInstance host port) db =
     (case db_instances db of None \<Rightarrow> 0 | Some is \<Rightarrow> if (host, port) \<in> set is then 0 else 1)"
| "sql_affected (DeleteInstance host port) db =
     (case db_instances db of None \<Rightarrow> 0 | Some is \<Rightarrow> length (filter (\<lambda>i. i = (host, port)) is))"
| "sql_affected st db = length (sql_rows st db)"

section \<open>What a cluster promises\<close>

text \<open>
  \<open>tables\<close> is the content of the master, \<open>replica\<close> that of the host a read with
  \<open>kSlaveOrMaster\<close> goes to, which may lag behind. A statement may fail with an
  exception; a failed write may or may not have taken effect.
\<close>

locale postgres_laws =
  fixes pg :: "'w pg_cluster" and tables :: "'w \<Rightarrow> db_tables" and replica :: "'w \<Rightarrow> db_tables"
  assumes Execute_answers: "answersS (Execute pg host st w)"
    and Execute_tables: "Execute pg host st w = (Ret r, w') \<Longrightarrow> tables w' = sql_effect st (tables w)"
    and Execute_affected: "Execute pg host st w = (Ret r, w') \<Longrightarrow> rows_affected r = sql_affected st (tables w)"
    and Execute_master: "Execute pg kMaster st w = (Ret r, w') \<Longrightarrow> rows r = sql_rows st (tables w)"
    and Execute_replica: "Execute pg kSlaveOrMaster st w = (Ret r, w') \<Longrightarrow> rows r = sql_rows st (replica w)"
    and Execute_failed: "Execute pg host st w = (Throw e, w') \<Longrightarrow> tables w' \<in> {tables w, sql_effect st (tables w)}"
    and AsBigint_int: "AsBigint pg (Some (PgInt n)) = Ret n"
    and AsBigint_null: "\<exists>m. AsBigint pg (Some PgNull) = Throw (StdException m)"
    and AsText_text: "AsText pg (Some (PgText s)) = Ret s"
    and As_answers: "answersO (AsBigint pg v)" "answersO (AsText pg v)"
begin

lemma Execute_cases:
  obtains (ret) r w' where "Execute pg host st w = (Ret r, w')" "tables w' = sql_effect st (tables w)"
      "rows_affected r = sql_affected st (tables w)"
      "rows r = sql_rows st (if host = kMaster then tables w else replica w)"
    | (throw) e w' where "Execute pg host st w = (Throw e, w')" "is_std_exception e"
      "tables w' = tables w \<or> tables w' = sql_effect st (tables w)"
proof (rule answersS_cases [OF Execute_answers])
  fix r w' assume "Execute pg host st w = (Ret r, w')"
  then show thesis
    using Execute_tables Execute_affected Execute_master Execute_replica
    by (cases host) (auto intro!: ret)
next
  fix e w' assume "Execute pg host st w = (Throw e, w')" "is_std_exception e"
  then show thesis using Execute_failed [of host st w e w'] by (intro throw) auto
qed

end

section \<open>A reference database\<close>

text \<open>The tables themselves; the replica is never behind. A key that is too long is refused.\<close>

definition ref_execute :: "cluster_host \<Rightarrow> sql_statement \<Rightarrow> (db_tables, pg_result) action" where
  "ref_execute host st db =
     (case st of
        UpsertValue p k v \<Rightarrow>
          if 255 < length k then (Throw (StdException ''value too long for type character varying(255)''), db)
          else (Ret \<lparr>rows = [], rows_affected = 1\<rparr>, sql_effect st db)
      | _ \<Rightarrow> (Ret \<lparr>rows = sql_rows st db, rows_affected = sql_affected st db\<rparr>, sql_effect st db))"

definition ref_pg :: "db_tables pg_cluster" where
  "ref_pg =
     \<lparr>Execute = ref_execute,
      AsBigint = (\<lambda>v. case v of Some (PgInt n) \<Rightarrow> Ret n | _ \<Rightarrow> Throw (StdException ''field is not a bigint'')),
      AsText = (\<lambda>v. case v of Some (PgText s) \<Rightarrow> Ret s | _ \<Rightarrow> Throw (StdException ''field is not a text''))\<rparr>"

interpretation rp: postgres_laws ref_pg "\<lambda>db. db" "\<lambda>db. db"
  by unfold_locales
    (auto simp: ref_pg_def ref_execute_def split: sql_statement.splits if_splits option.splits pg_value.splits)

end
