(* ===== verification/Project_Storage.thy ===== *)
theory Project_Storage
  imports Postgres
begin

text \<open>
  The key-value storage of a project: the interface \<open>StorageBase\<close> with its contract and
  its implementation \<open>project::Storage\<close> over the database.
\<close>

section \<open>The interface \<open>StorageBase\<close>\<close>

record 'w storage_base =
  Store :: "size_t \<Rightarrow> string \<Rightarrow> string \<Rightarrow> ('w, unit) action"
  Get :: "size_t \<Rightarrow> string \<Rightarrow> ('w, string) action"

text \<open>
  The contract: \<open>value_of\<close> is what is stored under a project and a key. A \<open>Store\<close>
  that returns has stored; one that throws may have stored or not. A \<open>Get\<close> that
  returns gives the stored value, and one of an absent key does not return.
\<close>

locale kv_storage_contract =
  fixes st :: "'w storage_base" and value_of :: "'w \<Rightarrow> size_t \<times> string \<Rightarrow> string option"
  assumes Store_answers: "answersS (Store st p k v w)"
    and Get_answers: "answersS (Get st p k w)"
    and Store_returned: "Store st p k v w = (Ret (), w') \<Longrightarrow> value_of w' = (value_of w)((p, k) \<mapsto> v)"
    and Store_threw: "Store st p k v w = (Throw e, w') \<Longrightarrow>
      value_of w' = value_of w \<or> value_of w' = (value_of w)((p, k) \<mapsto> v)"
    and Get_returned: "Get st p k w = (Ret v, w') \<Longrightarrow> value_of w (p, k) = Some v"
    and Get_frame: "Get st p k w = (r, w') \<Longrightarrow> value_of w' = value_of w"
begin

lemma get_after_store:
  assumes "Store st p k v w = (Ret (), w1)" and "Get st q l w1 = (Ret u, w2)"
  shows "if (q, l) = (p, k) then u = v else value_of w (q, l) = Some u"
  using Get_returned [OF assms(2)] Store_returned [OF assms(1)] by auto

lemma store_other: "Store st p k v w = (r, w') \<Longrightarrow> (q, l) \<noteq> (p, k) \<Longrightarrow> value_of w' (q, l) = value_of w (q, l)"
  by (rule answersS_cases [OF Store_answers [of p k v w]]) (auto dest: Store_returned Store_threw)

end

section \<open>\<open>project::Storage\<close>\<close>

definition storage_store :: "'w pg_cluster \<Rightarrow> size_t \<Rightarrow> string \<Rightarrow> string \<Rightarrow> ('w, unit) action" where
  "storage_store pg projectId key val =
     bindS (Execute pg kMaster (UpsertValue projectId key val)) (\<lambda>result.
     if rows_affected result \<noteq> 1
     then throwS (StdException (''Can't store value (key = '' @ key @ '')''))
     else returnS ())"

definition storage_get :: "'w pg_cluster \<Rightarrow> size_t \<Rightarrow> string \<Rightarrow> ('w, string) action" where
  "storage_get pg projectId key =
     bindS (Execute pg kMaster (SelectValue projectId key)) (\<lambda>result.
     if length (rows result) \<noteq> 1
     then throwS (StdException (''No value with such key (key = '' @ key @ '')''))
     else liftS (AsText pg (map_of (last (rows result)) ''value'')))"

definition storage_vt :: "'w pg_cluster \<Rightarrow> 'w storage_base" where
  "storage_vt pg = \<lparr>Store = storage_store pg, Get = storage_get pg\<rparr>"

context postgres_laws
begin

lemma storage_store_cases:
  obtains (ret) w' where "storage_store pg p k v w = (Ret (), w')"
      "db_values (tables w') = (db_values (tables w))((p, k) \<mapsto> v)"
    | (throw) e w' where "storage_store pg p k v w = (Throw e, w')" "is_std_exception e"
      "db_values (tables w') \<in> {db_values (tables w), (db_values (tables w))((p, k) \<mapsto> v)}"
  by (rule Execute_cases [of kMaster "UpsertValue p k v" w])
    (auto simp: storage_store_def outcome_simps intro: that)

lemma storage_get_eq:
  obtains (ret) w' where "tables w' = tables w" "storage_get pg p k w =
      (case db_values (tables w) (p, k) of
         None \<Rightarrow> Throw (StdException (''No value with such key (key = '' @ k @ '')''))
       | Some v \<Rightarrow> Ret v, w')"
    | (throw) e w' where "tables w' = tables w" "storage_get pg p k w = (Throw e, w')" "is_std_exception e"
  by (rule Execute_cases [of kMaster "SelectValue p k" w])
    (auto simp: storage_get_def outcome_simps AsText_text intro: that split: option.splits)

end

sublocale postgres_laws \<subseteq> kv: kv_storage_contract "storage_vt pg" "\<lambda>w. db_values (tables w)"
proof
  fix p k v w
  show "answersS (Store (storage_vt pg) p k v w)"
    by (rule storage_store_cases [of p k v w]) (simp_all add: storage_vt_def)
  show "answersS (Get (storage_vt pg) p k w)"
    by (rule storage_get_eq [of w p k]) (auto simp: storage_vt_def split: option.splits)
next
  fix p k v w w'
  show "Store (storage_vt pg) p k v w = (Ret (), w') \<Longrightarrow>
      db_values (tables w') = (db_values (tables w))((p, k) \<mapsto> v)"
    by (rule storage_store_cases [of p k v w]) (simp_all add: storage_vt_def)
next
  fix p k v w w' e
  show "Store (storage_vt pg) p k v w = (Throw e, w') \<Longrightarrow>
      db_values (tables w') = db_values (tables w) \<or> db_values (tables w') = (db_values (tables w))((p, k) \<mapsto> v)"
    by (rule storage_store_cases [of p k v w]) (auto simp: storage_vt_def)
next
  fix p k v w w' r
  show "Get (storage_vt pg) p k w = (Ret v, w') \<Longrightarrow> db_values (tables w) (p, k) = Some v"
    by (rule storage_get_eq [of w p k]) (auto simp: storage_vt_def split: option.splits)
  show "Get (storage_vt pg) p k w = (r, w') \<Longrightarrow> db_values (tables w') = db_values (tables w)"
    by (rule storage_get_eq [of w p k]) (auto simp: storage_vt_def split: option.splits)
qed

context postgres_laws
begin

lemma stored_and_returned:
  assumes "storage_store pg p k v w = (r, w1)" and "storage_get pg q l w1 = (Ret u, w2)"
  shows "((q, l) = (p, k) \<and> r = Ret () \<longrightarrow> u = v)
    \<and> ((q, l) \<noteq> (p, k) \<longrightarrow> db_values (tables w) (q, l) = Some u)
    \<and> db_values (tables w2) = db_values (tables w1)"
proof -
  from assms have s: "Store (storage_vt pg) p k v w = (r, w1)" and g: "Get (storage_vt pg) q l w1 = (Ret u, w2)"
    by (simp_all add: storage_vt_def)
  from s kv.Store_returned have "r = Ret () \<Longrightarrow> db_values (tables w1) = (db_values (tables w))((p, k) \<mapsto> v)"
    by blast
  with kv.Get_returned [OF g] kv.Get_frame [OF g] kv.store_other [OF s, of q l] show ?thesis
    by auto
qed

end

section \<open>What the storage guarantees\<close>

text \<open>
  A value that \<open>Store\<close> has stored is the value \<open>Get\<close> returns for the same
  project and key, and no call for one project or key changes what another project or key
  holds, whether the call returns or throws.
\<close>

lemma stored_value_is_returned:
  assumes "postgres_laws pg tables replica"
    and "storage_store pg p k v w = (r, w1)" and "storage_get pg q l w1 = (Ret u, w2)"
  shows "((q, l) = (p, k) \<and> r = Ret () \<longrightarrow> u = v)
    \<and> ((q, l) \<noteq> (p, k) \<longrightarrow> db_values (tables w) (q, l) = Some u)
    \<and> db_values (tables w2) = db_values (tables w1)"
  using postgres_laws.stored_and_returned [OF assms] .

lemma stored_value_is_returned_sample:
  "storage_get ref_pg 1 ''k'' (snd (storage_store ref_pg 1 ''k'' ''new''
     \<lparr>db_scripts = Map.empty, db_values = [(1, ''k'') \<mapsto> ''old'', (2, ''k'') \<mapsto> ''other''], db_instances = None\<rparr>))
   = (Ret ''new'', \<lparr>db_scripts = Map.empty, db_values = [(1, ''k'') \<mapsto> ''new'', (2, ''k'') \<mapsto> ''other''], db_instances = None\<rparr>)"
  using stored_value_is_returned [OF rp.postgres_laws_axioms, of 1 "''k''" "''new''"
      "\<lparr>db_scripts = Map.empty, db_values = [(1, ''k'') \<mapsto> ''old'', (2, ''k'') \<mapsto> ''other''], db_instances = None\<rparr>"
      "Ret ()" "\<lparr>db_scripts = Map.empty, db_values = [(1, ''k'') \<mapsto> ''new'', (2, ''k'') \<mapsto> ''other''], db_instances = None\<rparr>"
      1 "''k''" "''new''"]
  by (simp add: storage_store_def storage_get_def ref_pg_def ref_execute_def bindS_def returnS_def liftS_def
      fun_upd_twist)

end
