(* ===== verification/Script.thy ===== *)
theory Script
  imports Exceptions
begin

text \<open>
  Scripts and their compilers: \<open>ScriptBase\<close>, the interface \<open>CompilerBase\<close> with its
  contract, and the compilers of the two engines. A class derived from \<open>ScriptBase\<close>
  extends its record, so that a \<open>ScriptPtr\<close> is a \<open>script_base\<close> of any extension.
\<close>

section \<open>\<open>ScriptBase\<close>\<close>

datatype script_language = StubLanguage | LuaLanguage | JSLanguage

type_synonym script_id = size_t
type_synonym project_id = size_t

record script_base =
  sb_language :: script_language
  sb_project_id :: project_id
  sb_script_id :: script_id

definition set_language :: "script_language \<Rightarrow> 'x script_base_scheme \<Rightarrow> 'x script_base_scheme" where
  "set_language l s = s\<lparr>sb_language := l\<rparr>"

definition set_project_id :: "project_id \<Rightarrow> 'x script_base_scheme \<Rightarrow> 'x script_base_scheme" where
  "set_project_id p s = s\<lparr>sb_project_id := p\<rparr>"

definition set_script_id :: "script_id \<Rightarrow> 'x script_base_scheme \<Rightarrow> 'x script_base_scheme" where
  "set_script_id i s = s\<lparr>sb_script_id := i\<rparr>"

section \<open>The interface \<open>CompilerBase\<close>\<close>

record 'x compiler_base =
  Compile :: "string \<Rightarrow> 'x script_base_scheme outcome"

text \<open>A compiler answers every source text, and its scripts are all of its language.\<close>

locale compiler_contract =
  fixes cp :: "'x compiler_base" and lang :: script_language
  assumes Compile_answers: "answersO (Compile cp code)"
    and Compile_language: "Compile cp code = Ret s \<Longrightarrow> sb_language s = lang"

section \<open>The stub engine's scripts\<close>

text \<open>
  A new script object has its identifiers unset; \<open>junk\<close> stands for the values they
  happen to have until they are set.
\<close>

type_synonym junk = "project_id \<times> script_id"

record stub_script = script_base +
  stub_code :: string

definition new_stub_script :: "junk \<Rightarrow> stub_script" where
  "new_stub_script junk =
     \<lparr>sb_language = StubLanguage, sb_project_id = fst junk, sb_script_id = snd junk, stub_code = []\<rparr>"

definition set_source_code :: "string \<Rightarrow> stub_script \<Rightarrow> stub_script" where
  "set_source_code code s = s\<lparr>stub_code := code\<rparr>"

definition stub_compile :: "junk \<Rightarrow> string \<Rightarrow> stub_script outcome" where
  "stub_compile junk code = Ret (set_source_code code (new_stub_script junk))"

definition stub_compiler :: "junk \<Rightarrow> unit stub_script_ext compiler_base" where
  "stub_compiler junk = \<lparr>Compile = stub_compile junk\<rparr>"

interpretation stub_cp: compiler_contract "stub_compiler junk" StubLanguage
  by unfold_locales (auto simp: stub_compiler_def stub_compile_def set_source_code_def new_stub_script_def)

section \<open>The Lua engine's scripts\<close>

text \<open>
  The snippet is LuaCpp's, and so is the compiler behind \<open>CompileString(name, code)\<close>: it
  returns a pointer or throws.
\<close>

record 'snip lua_script = script_base +
  lua_snippet :: 'snip

definition new_lua_script :: "junk \<Rightarrow> 'snip \<Rightarrow> 'snip lua_script" where
  "new_lua_script junk none =
     \<lparr>sb_language = LuaLanguage, sb_project_id = fst junk, sb_script_id = snd junk, lua_snippet = none\<rparr>"

definition set_code_snippet :: "'snip \<Rightarrow> 'snip lua_script \<Rightarrow> 'snip lua_script" where
  "set_code_snippet snippet s = s\<lparr>lua_snippet := snippet\<rparr>"

definition lua_compile ::
  "(string \<Rightarrow> string \<Rightarrow> 'snip option outcome) \<Rightarrow> junk \<Rightarrow> 'snip \<Rightarrow> string \<Rightarrow> 'snip lua_script outcome" where
  "lua_compile compile_string junk none code =
     bindO (compile_string [] code) (\<lambda>snippet_ptr.
     case snippet_ptr of
       None \<Rightarrow> Crash NullDereference
     | Some snippet \<Rightarrow> Ret (set_code_snippet snippet (new_lua_script junk none)))"

definition lua_compiler ::
  "(string \<Rightarrow> string \<Rightarrow> 'snip option outcome) \<Rightarrow> junk \<Rightarrow> 'snip \<Rightarrow> ('snip, unit) lua_script_ext compiler_base" where
  "lua_compiler compile_string junk none = \<lparr>Compile = lua_compile compile_string junk none\<rparr>"

text \<open>What the Lua compiler relies on: the call throws a standard exception or returns a snippet.\<close>

locale lua_front_end =
  fixes compile_string :: "string \<Rightarrow> string \<Rightarrow> 'snip option outcome"
  assumes compile_string_answers: "answersO (compile_string name code)"
    and compile_string_snippet: "compile_string name code \<noteq> Ret None"

sublocale lua_front_end \<subseteq> compiler_contract "lua_compiler compile_string junk none" LuaLanguage for junk none
proof
  fix code
  show "answersO (Compile (lua_compiler compile_string junk none) code)"
    using compile_string_answers [of "[]" code] compile_string_snippet [of "[]" code]
    by (cases "compile_string [] code") (auto simp: lua_compiler_def lua_compile_def split: option.split)
next
  fix code s
  show "Compile (lua_compiler compile_string junk none) code = Ret s \<Longrightarrow> sb_language s = LuaLanguage"
    by (auto simp: lua_compiler_def lua_compile_def bindO_Ret_iff set_code_snippet_def new_lua_script_def
        split: option.splits)
qed

text \<open>A front end whose snippets are the texts, and which rejects the empty one.\<close>

definition ref_compile_string :: "string \<Rightarrow> string \<Rightarrow> string option outcome" where
  "ref_compile_string name code =
     (if code = [] then Throw (StdException ''syntax error'') else Ret (Some code))"

interpretation rl: lua_front_end ref_compile_string
  by unfold_locales (simp_all add: ref_compile_string_def)

end
