(* ===== verification/Script_Fetcher.thy ===== *)
theory Script_Fetcher
  imports Script Postgres
begin

text \<open>
  Where scripts come from: the interface \<open>ScriptsFetcherBase\<close> with its contract, and its
  implementation \<open>DBScriptsFetcher\<close>.
\<close>

section \<open>The interface \<open>ScriptsFetcherBase\<close>\<close>

record script_info =
  si_id :: script_id
  si_project_id :: project_id
  si_source_code :: string

record 'w fetcher_base =
  Fetch :: "script_id \<Rightarrow> ('w, script_info) action"

text \<open>A fetcher answers, and what it returns is stamped with the identifier asked for.\<close>

locale fetcher_contract =
  fixes ft :: "'w fetcher_base"
  assumes Fetch_answers: "answersS (Fetch ft i w)"
    and Fetch_id: "Fetch ft i w = (Ret info, w') \<Longrightarrow> si_id info = i"

section \<open>\<open>DBScriptsFetcher\<close>\<close>

definition db_fetch :: "'w pg_cluster \<Rightarrow> script_id \<Rightarrow> ('w, script_info) action" where
  "db_fetch pg i =
     bindS (Execute pg kSlaveOrMaster (SelectScript i)) (\<lambda>result.
     if rows result = []
     then throwS (NotFoundScriptError (''No script with such id (id = '' @ decimal (unat i) @ '')''))
     else
       let row = map_of (last (rows result))
       in bindS (liftS (AsBigint pg (row ''parent_project_id''))) (\<lambda>project.
          bindS (liftS (AsText pg (row ''source_code''))) (\<lambda>source.
          returnS \<lparr>si_id = i, si_project_id = project, si_source_code = source\<rparr>)))"

definition db_scripts_fetcher :: "'w pg_cluster \<Rightarrow> 'w fetcher_base" where
  "db_scripts_fetcher pg = \<lparr>Fetch = db_fetch pg\<rparr>"

context postgres_laws
begin

lemma db_fetch_cases:
  obtains (found) w' p src where "db_scripts (replica w) i = Some (Some p, src)"
      "db_fetch pg i w = (Ret \<lparr>si_id = i, si_project_id = p, si_source_code = src\<rparr>, w')" "tables w' = tables w"
    | (absent) w' where "db_scripts (replica w) i = None"
      "db_fetch pg i w = (Throw (NotFoundScriptError (''No script with such id (id = '' @ decimal (unat i) @ '')'')), w')"
      "tables w' = tables w"
    | (orphan) w' m src where "db_scripts (replica w) i = Some (None, src)"
      "db_fetch pg i w = (Throw (StdException m), w')" "tables w' = tables w"
    | (failed) e w' where "Execute pg kSlaveOrMaster (SelectScript i) w = (Throw e, w')"
      "db_fetch pg i w = (Throw e, w')" "is_std_exception e" "tables w' = tables w"
proof (rule Execute_cases [of kSlaveOrMaster "SelectScript i" w])
  fix r w' assume ex: "Execute pg kSlaveOrMaster (SelectScript i) w = (Ret r, w')"
    and tab: "tables w' = sql_effect (SelectScript i) (tables w)"
    and rows: "rows r = sql_rows (SelectScript i) (if kSlaveOrMaster = kMaster then tables w else replica w)"
  obtain m where null: "AsBigint pg (Some PgNull) = Throw (StdException m)" using AsBigint_null by blast
  consider "db_scripts (replica w) i = None" | src where "db_scripts (replica w) i = Some (None, src)"
    | p src where "db_scripts (replica w) i = Some (Some p, src)"
    by (metis not_None_eq surj_pair)
  then show thesis
  proof cases
    case 1
    with ex tab rows show ?thesis by (intro absent [of w']) (simp_all add: db_fetch_def outcome_simps)
  next
    case (2 src)
    with ex tab rows null show ?thesis
      by (intro orphan [of src m w']) (simp_all add: db_fetch_def outcome_simps)
  next
    case (3 p src)
    with ex tab rows show ?thesis
      by (intro found [of p src w']) (simp_all add: db_fetch_def outcome_simps AsBigint_int AsText_text)
  qed
next
  fix e w' assume "Execute pg kSlaveOrMaster (SelectScript i) w = (Throw e, w')" "is_std_exception e"
    "tables w' = tables w \<or> tables w' = sql_effect (SelectScript i) (tables w)"
  then show thesis by (intro failed [of e w']) (auto simp: db_fetch_def outcome_simps)
qed

lemma db_fetch_row:
  assumes "Execute pg kSlaveOrMaster (SelectScript i) w = (Ret res, w1)" and "db_scripts (replica w) i = Some (Some p, src)"
  shows "db_fetch pg i w = (Ret \<lparr>si_id = i, si_project_id = p, si_source_code = src\<rparr>, w1)"
proof -
  have "snd (db_fetch pg i w) = w1"
    using assms(1) by (simp add: db_fetch_def bindS_def returnS_def throwS_def liftS_def Let_def split: outcome.split prod.split)
  with assms show ?thesis by (cases rule: db_fetch_cases [of w i]) auto
qed

end

sublocale postgres_laws \<subseteq> fetch: fetcher_contract "db_scripts_fetcher pg"
proof
  fix i w
  show "answersS (Fetch (db_scripts_fetcher pg) i w)"
    by (rule db_fetch_cases [of w i]) (simp_all add: db_scripts_fetcher_def)
next
  fix i w info w'
  show "Fetch (db_scripts_fetcher pg) i w = (Ret info, w') \<Longrightarrow> si_id info = i"
    by (rule db_fetch_cases [of w i]) (auto simp: db_scripts_fetcher_def)
qed

text \<open>
  A fetch never writes. It returns the row of the host it read, under the identifier that
  was asked for; it throws \<open>NotFoundScriptError\<close> exactly when that host has no such row
  (or the database itself threw it), and for a script that belongs to no project it throws
  another exception.
\<close>

lemma db_fetch_reads_the_row:
  assumes "postgres_laws pg tables replica"
    and "\<forall>m w'. Execute pg kSlaveOrMaster (SelectScript i) w \<noteq> (Throw (NotFoundScriptError m), w')"
  shows "tables (snd (db_fetch pg i w)) = tables w
    \<and> (case fst (db_fetch pg i w) of
        Ret info \<Rightarrow> si_id info = i \<and>
          db_scripts (replica w) i = Some (Some (si_project_id info), si_source_code info)
      | Throw (NotFoundScriptError m) \<Rightarrow> db_scripts (replica w) i = None
      | Throw e \<Rightarrow> is_std_exception e \<and> e \<noteq> ForeignException
      | _ \<Rightarrow> False)"
  by (rule postgres_laws.db_fetch_cases [OF assms(1), of w i])
    (use assms(2) in \<open>auto split: cpp_exn.split\<close>)

lemma db_fetch_reads_the_row_sample:
  "db_fetch ref_pg 7 \<lparr>db_scripts = [7 \<mapsto> (Some 1, ''return'')], db_values = Map.empty, db_instances = None\<rparr>
     = (Ret \<lparr>si_id = 7, si_project_id = 1, si_source_code = ''return''\<rparr>,
        \<lparr>db_scripts = [7 \<mapsto> (Some 1, ''return'')], db_values = Map.empty, db_instances = None\<rparr>)
   \<and> (\<exists>info. fst (db_fetch ref_pg 7 \<lparr>db_scripts = [7 \<mapsto> (Some 1, ''return'')], db_values = Map.empty, db_instances = None\<rparr>)
       = Ret info \<and> si_id info = 7)"
  using db_fetch_reads_the_row [OF rp.postgres_laws_axioms,
      of 7 "\<lparr>db_scripts = [7 \<mapsto> (Some 1, ''return'')], db_values = Map.empty, db_instances = None\<rparr>"]
  by (simp add: db_fetch_def ref_pg_def ref_execute_def bindS_def returnS_def liftS_def)

end
