(* ===== verification/Scripts_Storage.thy ===== *)
theory Scripts_Storage
  imports Script_Fetcher
begin

text \<open>
  The store of compiled scripts, \<open>ScriptsStorage\<close>: a least-recently-used cache in front of
  the fetcher and the compiler. This theory holds its operations as one caller sees them;
  \<open>Scripts_Storage_Tasks\<close> holds the interleavings of several callers.
\<close>

section \<open>The cache library\<close>

text \<open>
  \<open>userver::cache::LruMap\<close> is an argument. \<open>Get\<close> makes an entry the most recent
  one, so it changes the map. The locale says what is documented: \<open>contents\<close> is the map the
  cache stands for, \<open>capacity\<close> its bound, and \<open>ok\<close> its representation invariant.
\<close>

record ('k, 'v, 'c) lru_lib =
  LruNew :: "size_t \<Rightarrow> 'c"
  LruGet :: "'k \<Rightarrow> 'c \<Rightarrow> 'v option \<times> 'c"
  LruPut :: "'k \<Rightarrow> 'v \<Rightarrow> 'c \<Rightarrow> 'c"

locale lru_laws =
  fixes lru :: "('k, 'v, 'c) lru_lib" and contents :: "'c \<Rightarrow> 'k \<Rightarrow> 'v option"
    and capacity :: "'c \<Rightarrow> nat" and ok :: "'c \<Rightarrow> bool"
  assumes LruNew_ok: "0 < n \<Longrightarrow> ok (LruNew lru n)"
    and LruNew_contents: "contents (LruNew lru n) = Map.empty"
    and LruNew_capacity: "capacity (LruNew lru n) = unat n"
    and LruGet_ok: "ok c \<Longrightarrow> LruGet lru k c = (r, c') \<Longrightarrow> ok c' \<and> capacity c' = capacity c"
    and LruGet_contents: "ok c \<Longrightarrow> LruGet lru k c = (r, c') \<Longrightarrow> contents c' = contents c \<and> r = contents c k"
    and LruPut_ok: "ok c \<Longrightarrow> ok (LruPut lru k v c) \<and> capacity (LruPut lru k v c) = capacity c"
    and LruPut_same: "ok c \<Longrightarrow> contents (LruPut lru k v c) k = Some v"
    and LruPut_other: "ok c \<Longrightarrow> l \<noteq> k \<Longrightarrow> contents (LruPut lru k v c) l \<in> {contents c l, None}"
    and LruPut_room: "ok c \<Longrightarrow> k \<in> dom (contents c) \<or> card (dom (contents c)) < capacity c
      \<Longrightarrow> l \<noteq> k \<Longrightarrow> contents (LruPut lru k v c) l = contents c l"
    and ok_bound: "ok c \<Longrightarrow> finite (dom (contents c)) \<and> card (dom (contents c)) \<le> capacity c"

section \<open>\<open>ScriptsStorage\<close>\<close>

text \<open>
  The members \<open>fetcher_\<close> and \<open>compiler_\<close> never change and are arguments; the rest is
  the record. A script is shared by its pointer and not changed after it was stamped, so the
  model passes it by value.
\<close>

record 'c scripts_storage =
  ss_scripts :: 'c
  ss_use_cache :: bool

definition new_scripts_storage :: "('k, 'v, 'c) lru_lib \<Rightarrow> size_t \<Rightarrow> 'c scripts_storage" where
  "new_scripts_storage lru max_cache_size =
     \<lparr>ss_scripts = LruNew lru max_cache_size, ss_use_cache = (max_cache_size \<noteq> 0)\<rparr>"

text \<open>The four statements that \<open>Get\<close> (twice) and \<open>Refresh\<close> share.\<close>

definition load_script ::
  "'w fetcher_base \<Rightarrow> 'x compiler_base \<Rightarrow> script_id \<Rightarrow> ('w, 'x script_base_scheme) action" where
  "load_script ft cp i =
     bindS (Fetch ft i) (\<lambda>info.
     bindS (liftS (Compile cp (si_source_code info))) (\<lambda>script.
     returnS (set_project_id (si_project_id info) (set_script_id i script))))"

type_synonym ('x, 'c) script_lru = "(script_id, 'x script_base_scheme, 'c) lru_lib"

text \<open>The two sections that run under the lock.\<close>

definition cache_lookup ::
  "('x, 'c) script_lru \<Rightarrow> script_id \<Rightarrow> 'c scripts_storage \<Rightarrow> 'x script_base_scheme option \<times> 'c scripts_storage" where
  "cache_lookup lru i st =
     (case LruGet lru i (ss_scripts st) of (cached, c) \<Rightarrow> (cached, st\<lparr>ss_scripts := c\<rparr>))"

definition cache_put ::
  "('x, 'c) script_lru \<Rightarrow> script_id \<Rightarrow> 'x script_base_scheme \<Rightarrow> 'c scripts_storage \<Rightarrow> 'c scripts_storage" where
  "cache_put lru i script st = st\<lparr>ss_scripts := LruPut lru i script (ss_scripts st)\<rparr>"

definition scripts_get ::
  "'w fetcher_base \<Rightarrow> 'x compiler_base \<Rightarrow> ('x, 'c) script_lru \<Rightarrow> script_id
    \<Rightarrow> ('w \<times> 'c scripts_storage, 'x script_base_scheme) action" where
  "scripts_get ft cp lru i =
     bindS (getS (\<lambda>(w, st). ss_use_cache st)) (\<lambda>use_cache.
     if \<not> use_cache then firstS (load_script ft cp i)
     else
       bindS (\<lambda>(w, st). case cache_lookup lru i st of (cached, st') \<Rightarrow> (Ret cached, (w, st'))) (\<lambda>cached.
       case cached of
         Some script \<Rightarrow> returnS script
       | None \<Rightarrow>
           bindS (firstS (load_script ft cp i)) (\<lambda>script.
           thenS (modifyS (\<lambda>(w, st). (w, cache_put lru i script st)))
           (returnS script))))"

definition scripts_refresh ::
  "'w fetcher_base \<Rightarrow> 'x compiler_base \<Rightarrow> ('x, 'c) script_lru \<Rightarrow> script_id
    \<Rightarrow> ('w \<times> 'c scripts_storage, unit) action" where
  "scripts_refresh ft cp lru i =
     bindS (firstS (load_script ft cp i)) (\<lambda>script.
     modifyS (\<lambda>(w, st). (w, cache_put lru i script st)))"

text \<open>The first \<open>Get\<close> of a new storage loads the script, with a cache and without.\<close>

lemma first_get:
  assumes "lru_laws lru contents capacity ok" and "load_script ft cp i w = (Ret s, w')"
  shows "\<exists>st. scripts_get ft cp lru i (w, new_scripts_storage lru n) = (Ret s, (w', st))"
proof (cases "n = 0")
  case True
  with assms(2) show ?thesis by (simp add: scripts_get_def new_scripts_storage_def bindS_def getS_def firstS_def)
next
  case False
  obtain r c where get: "LruGet lru i (LruNew lru n) = (r, c)" by fastforce
  have "ok (LruNew lru n)" using lru_laws.LruNew_ok [OF assms(1)] False by (simp add: word_neq_0_conv)
  with lru_laws.LruGet_contents [OF assms(1) this get] lru_laws.LruNew_contents [OF assms(1)] have "r = None" by simp
  with assms(2) get False show ?thesis
    by (simp add: scripts_get_def new_scripts_storage_def bindS_def getS_def firstS_def cache_lookup_def thenS_def
        modifyS_def returnS_def)
qed

section \<open>What one caller sees\<close>

text \<open>Every cached script carries the identifier it is cached under and the compiler's language.\<close>

definition stamped :: "script_language \<Rightarrow> script_id \<Rightarrow> 'x script_base_scheme \<Rightarrow> bool" where
  "stamped lang i s \<longleftrightarrow> sb_script_id s = i \<and> sb_language s = lang"

definition cache_inv ::
  "script_language \<Rightarrow> ('c \<Rightarrow> script_id \<Rightarrow> 'x script_base_scheme option) \<Rightarrow> ('c \<Rightarrow> bool) \<Rightarrow> 'c scripts_storage \<Rightarrow> bool" where
  "cache_inv lang contents ok st \<longleftrightarrow>
     ok (ss_scripts st) \<and> (\<forall>i s. contents (ss_scripts st) i = Some s \<longrightarrow> stamped lang i s)"

text \<open>A sequence of calls; a caller that is answered with an exception goes on.\<close>

datatype storage_call = CallGet script_id | CallRefresh script_id

fun scripts_run ::
  "'w fetcher_base \<Rightarrow> 'x compiler_base \<Rightarrow> ('x, 'c) script_lru \<Rightarrow> storage_call list
    \<Rightarrow> 'w \<times> 'c scripts_storage \<Rightarrow> 'w \<times> 'c scripts_storage" where
  "scripts_run ft cp lru [] ws = ws"
| "scripts_run ft cp lru (CallGet i # calls) ws = scripts_run ft cp lru calls (snd (scripts_get ft cp lru i ws))"
| "scripts_run ft cp lru (CallRefresh i # calls) ws = scripts_run ft cp lru calls (snd (scripts_refresh ft cp lru i ws))"

locale scripts_storage_env =
  fetcher_contract ft + compiler_contract cp lang + lru_laws lru contents capacity ok
  for ft :: "'w fetcher_base" and cp :: "'x compiler_base" and lang
    and lru :: "('x, 'c) script_lru" and contents capacity ok
begin

lemma cache_invD: "cache_inv lang contents ok st \<Longrightarrow> ok (ss_scripts st)"
  "cache_inv lang contents ok st \<Longrightarrow> contents (ss_scripts st) i = Some s \<Longrightarrow> stamped lang i s"
  by (simp_all add: cache_inv_def)

lemma load_script_cases:
  obtains (loaded) info s w' where "Fetch ft i w = (Ret info, w')" "Compile cp (si_source_code info) = Ret s"
      "load_script ft cp i w = (Ret (set_project_id (si_project_id info) (set_script_id i s)), w')"
      "stamped lang i (set_project_id (si_project_id info) (set_script_id i s))"
    | (failed) e w' where "load_script ft cp i w = (Throw e, w')" "is_std_exception e"
proof (rule answersS_cases [OF Fetch_answers [of i w]])
  fix info w' assume fetch: "Fetch ft i w = (Ret info, w')"
  show thesis
  proof (cases "Compile cp (si_source_code info)")
    case (Ret s)
    with fetch Compile_language [OF Ret] show ?thesis
      by (intro loaded [of info w' s])
        (simp_all add: load_script_def outcome_simps stamped_def set_project_id_def set_script_id_def)
  next
    case (Throw e)
    with fetch Compile_answers [of "si_source_code info"] show ?thesis
      by (intro failed [of e w']) (simp_all add: load_script_def outcome_simps)
  qed (use Compile_answers [of "si_source_code info"] in simp_all)
next
  fix e w' assume "Fetch ft i w = (Throw e, w')" "is_std_exception e"
  then show thesis by (intro failed [of e w']) (simp_all add: load_script_def outcome_simps)
qed

lemma load_script_answers: "answersS (load_script ft cp i w)"
  by (rule load_script_cases [of i w]) simp_all

lemma load_script_stamped: "load_script ft cp i w = (Ret s, w') \<Longrightarrow> stamped lang i s"
  by (rule load_script_cases [of i w]) simp_all

lemma cache_lookup_eq:
  assumes "cache_inv lang contents ok st"
  obtains st' where "cache_lookup lru i st = (contents (ss_scripts st) i, st')" "cache_inv lang contents ok st'"
    "contents (ss_scripts st') = contents (ss_scripts st)" "ss_use_cache st' = ss_use_cache st"
    "capacity (ss_scripts st') = capacity (ss_scripts st)"
proof -
  obtain r c where get: "LruGet lru i (ss_scripts st) = (r, c)" by fastforce
  note laws = LruGet_ok [OF cache_invD(1) [OF assms] get] LruGet_contents [OF cache_invD(1) [OF assms] get]
  from get laws assms show thesis
    by (intro that [of "st\<lparr>ss_scripts := c\<rparr>"]) (auto simp: cache_lookup_def cache_inv_def)
qed

lemma cache_put_inv:
  assumes "cache_inv lang contents ok st" and "stamped lang i s"
  shows "cache_inv lang contents ok (cache_put lru i s st)"
    and "contents (ss_scripts (cache_put lru i s st)) i = Some s"
    and "l \<noteq> i \<Longrightarrow> contents (ss_scripts (cache_put lru i s st)) l \<in> {contents (ss_scripts st) l, None}"
    and "ss_use_cache (cache_put lru i s st) = ss_use_cache st"
    and "capacity (ss_scripts (cache_put lru i s st)) = capacity (ss_scripts st)"
proof -
  note ok = cache_invD(1) [OF assms(1)]
  have "stamped lang l t" if "contents (LruPut lru i s (ss_scripts st)) l = Some t" for l t
    using that assms cache_invD(2) [OF assms(1)] LruPut_same [OF ok, of i s] LruPut_other [OF ok, of l i s]
    by (cases "l = i") auto
  then show "cache_inv lang contents ok (cache_put lru i s st)"
    using LruPut_ok [OF ok] by (simp add: cache_inv_def cache_put_def)
qed (use LruPut_same LruPut_other LruPut_ok cache_invD(1) [OF assms(1)] in \<open>simp_all add: cache_put_def\<close>)

lemma cache_put_alters:
  "cache_inv lang contents ok st \<Longrightarrow> stamped lang i s \<Longrightarrow>
     \<forall>l. l = i \<or> contents (ss_scripts (cache_put lru i s st)) l = contents (ss_scripts st) l
       \<or> contents (ss_scripts (cache_put lru i s st)) l = None"
  using cache_put_inv(3) by (metis empty_iff insert_iff)

text \<open>The result of \<open>Get\<close> on every path.\<close>

lemma scripts_get_hit:
  assumes "cache_inv lang contents ok st" and "ss_use_cache st" and "contents (ss_scripts st) i = Some s"
  obtains st' where "scripts_get ft cp lru i (w, st) = (Ret s, (w, st'))"
    "cache_inv lang contents ok st'" "ss_use_cache st'" "contents (ss_scripts st') = contents (ss_scripts st)"
proof (rule cache_lookup_eq [OF assms(1), of i])
  fix st' assume "cache_lookup lru i st = (contents (ss_scripts st) i, st')" "cache_inv lang contents ok st'"
    "contents (ss_scripts st') = contents (ss_scripts st)" "ss_use_cache st' = ss_use_cache st"
  with assms show thesis
    by (intro that [of st']) (simp_all add: scripts_get_def bindS_def getS_def returnS_def)
qed

lemma scripts_get_miss:
  assumes "cache_inv lang contents ok st" and "ss_use_cache st" and "contents (ss_scripts st) i = None"
  obtains st' where "contents (ss_scripts st') = contents (ss_scripts st)" "cache_inv lang contents ok st'" "ss_use_cache st'"
    "scripts_get ft cp lru i (w, st) =
       (case load_script ft cp i w of
          (Ret s, w') \<Rightarrow> (Ret s, (w', cache_put lru i s st'))
        | (r, w') \<Rightarrow> (r, (w', st')))"
proof (rule cache_lookup_eq [OF assms(1), of i])
  fix st' assume "cache_lookup lru i st = (contents (ss_scripts st) i, st')" "cache_inv lang contents ok st'"
    "contents (ss_scripts st') = contents (ss_scripts st)" "ss_use_cache st' = ss_use_cache st"
  with assms show thesis
    by (intro that [of st'])
      (simp_all add: scripts_get_def bindS_def getS_def returnS_def thenS_def modifyS_def firstS_def
        split: prod.split outcome.split)
qed

lemma scripts_get_uncached: "\<not> ss_use_cache st \<Longrightarrow> scripts_get ft cp lru i (w, st) = firstS (load_script ft cp i) (w, st)"
  by (simp add: scripts_get_def bindS_def getS_def)

lemma scripts_refresh_eq:
  "scripts_refresh ft cp lru i (w, st) =
     (case load_script ft cp i w of
        (Ret s, w') \<Rightarrow> (Ret (), (w', cache_put lru i s st))
      | (Throw e, w') \<Rightarrow> (Throw e, (w', st))
      | (LuaJump m, w') \<Rightarrow> (LuaJump m, (w', st))
      | (Crash c, w') \<Rightarrow> (Crash c, (w', st))
      | (NoFuel, w') \<Rightarrow> (NoFuel, (w', st)))"
  by (simp add: scripts_refresh_def bindS_def modifyS_def firstS_def split: prod.split outcome.split)

lemma get_keeps_inv:
  assumes "cache_inv lang contents ok st" and "ss_use_cache st" and run: "scripts_get ft cp lru i (w, st) = (r, (w', st'))"
  shows "cache_inv lang contents ok st' \<and> ss_use_cache st' \<and> answersO r \<and> (\<forall>s. r = Ret s \<longrightarrow> stamped lang i s)"
proof (cases "contents (ss_scripts st) i")
  case (Some s)
  obtain st1 where "scripts_get ft cp lru i (w, st) = (Ret s, (w, st1))" "cache_inv lang contents ok st1" "ss_use_cache st1"
    using scripts_get_hit [OF assms(1,2) Some] by blast
  with run cache_invD(2) [OF assms(1) Some] show ?thesis by auto
next
  case None
  obtain st1 where st1: "cache_inv lang contents ok st1" "ss_use_cache st1"
    "scripts_get ft cp lru i (w, st) = (case load_script ft cp i w of
       (Ret s, w') \<Rightarrow> (Ret s, (w', cache_put lru i s st1)) | (r, w') \<Rightarrow> (r, (w', st1)))"
    using scripts_get_miss [OF assms(1,2) None] by blast
  show ?thesis
    using run st1 by (rule_tac load_script_cases [of i w]) (auto simp: cache_put_inv)
qed

lemma refresh_keeps_inv:
  assumes "cache_inv lang contents ok st" and run: "scripts_refresh ft cp lru i (w, st) = (r, (w', st'))"
  shows "cache_inv lang contents ok st' \<and> ss_use_cache st' = ss_use_cache st \<and> answersO r"
  using assms by (rule_tac load_script_cases [of i w]) (auto simp: scripts_refresh_eq cache_put_inv)

lemma get_after_refresh:
  assumes "cache_inv lang contents ok st" and "ss_use_cache st"
    and run: "scripts_refresh ft cp lru i (w, st) = (Ret (), (w1, st1))"
  obtains s st2 where "load_script ft cp i w = (Ret s, w1)"
    "scripts_get ft cp lru i (v, st1) = (Ret s, (v, st2))"
proof (rule load_script_cases [of i w])
  fix info w' and s :: "'x script_base_scheme"
  let ?s = "set_project_id (si_project_id info) (set_script_id i s)"
  assume load: "load_script ft cp i w = (Ret ?s, w')" "stamped lang i ?s"
  with run have st1: "st1 = cache_put lru i ?s st" "w1 = w'" by (simp_all add: scripts_refresh_eq)
  note put = cache_put_inv [OF assms(1) load(2)]
  have "ss_use_cache st1" using put(4) assms(2) st1 by simp
  from scripts_get_hit [OF put(1) _ put(2), of v] this st1 load(1) show thesis
    by (metis that)
qed (use run in \<open>simp_all add: scripts_refresh_eq\<close>)

lemma step_capacity:
  assumes "cache_inv lang contents ok st" and "ss_use_cache st"
  shows "capacity (ss_scripts (snd (snd (scripts_get ft cp lru i (w, st))))) = capacity (ss_scripts st)"
    and "capacity (ss_scripts (snd (snd (scripts_refresh ft cp lru i (w, st))))) = capacity (ss_scripts st)"
proof -
  show "capacity (ss_scripts (snd (snd (scripts_refresh ft cp lru i (w, st))))) = capacity (ss_scripts st)"
    using assms by (rule_tac load_script_cases [of i w]) (auto simp: scripts_refresh_eq cache_put_inv)
  obtain st' where look: "cache_lookup lru i st = (contents (ss_scripts st) i, st')" "cache_inv lang contents ok st'"
    "capacity (ss_scripts st') = capacity (ss_scripts st)"
    by (rule cache_lookup_eq [OF assms(1), of i])
  then show "capacity (ss_scripts (snd (snd (scripts_get ft cp lru i (w, st))))) = capacity (ss_scripts st)"
    using assms(2) cache_put_inv(5) [OF look(2)]
    by (rule_tac load_script_cases [of i w])
      (auto simp: scripts_get_def bindS_def getS_def returnS_def thenS_def modifyS_def firstS_def split: option.split)
qed

lemma scripts_run_inv:
  assumes "cache_inv lang contents ok st" and "ss_use_cache st"
  shows "cache_inv lang contents ok (snd (scripts_run ft cp lru calls (w, st))) \<and>
    capacity (ss_scripts (snd (scripts_run ft cp lru calls (w, st)))) = capacity (ss_scripts st)"
  using assms
proof (induction calls arbitrary: w st)
  case (Cons call calls)
  obtain i where call: "call = CallGet i \<or> call = CallRefresh i" by (cases call) auto
  obtain r w1 st1 where get: "scripts_get ft cp lru i (w, st) = (r, (w1, st1))" by (metis surj_pair)
  obtain q w2 st2 where refresh: "scripts_refresh ft cp lru i (w, st) = (q, (w2, st2))" by (metis surj_pair)
  from call show ?case
    using Cons.IH [of st1 w1] Cons.IH [of st2 w2] get refresh get_keeps_inv [OF Cons.prems get]
      refresh_keeps_inv [OF Cons.prems(1) refresh] step_capacity [OF Cons.prems, of i w] Cons.prems
    by auto
qed simp

lemma new_storage_inv: "0 < n \<Longrightarrow> cache_inv lang contents ok (new_scripts_storage lru n)"
  by (simp add: cache_inv_def new_scripts_storage_def LruNew_ok LruNew_contents)

lemma scripts_get_result:
  assumes "cache_inv lang contents ok st" and "ss_use_cache st"
    and run: "scripts_get ft cp lru i (w, st) = (r, (w', st'))"
  shows "case contents (ss_scripts st) i of
      Some s \<Rightarrow> r = Ret s \<and> w' = w \<and> contents (ss_scripts st') = contents (ss_scripts st)
    | None \<Rightarrow> (r, w') = load_script ft cp i w \<and>
        (case r of
           Ret s \<Rightarrow> stamped lang i s \<and> contents (ss_scripts st') i = Some s \<and>
             (\<forall>l. l = i \<or> contents (ss_scripts st') l = contents (ss_scripts st) l \<or> contents (ss_scripts st') l = None)
         | Throw e \<Rightarrow> contents (ss_scripts st') = contents (ss_scripts st)
         | _ \<Rightarrow> False)"
proof (cases "contents (ss_scripts st) i")
  case (Some s)
  obtain st1 where "scripts_get ft cp lru i (w, st) = (Ret s, (w, st1))"
    "contents (ss_scripts st1) = contents (ss_scripts st)"
    using scripts_get_hit [OF assms(1,2) Some] by blast
  with run Some show ?thesis by auto
next
  case None
  obtain st1 where st1: "contents (ss_scripts st1) = contents (ss_scripts st)" "cache_inv lang contents ok st1"
    "scripts_get ft cp lru i (w, st) = (case load_script ft cp i w of
       (Ret s, w') \<Rightarrow> (Ret s, (w', cache_put lru i s st1)) | (r, w') \<Rightarrow> (r, (w', st1)))"
    using scripts_get_miss [OF assms(1,2) None] by blast
  consider (loaded) s v where "load_script ft cp i w = (Ret s, v)" "stamped lang i s"
    | (failed) e v where "load_script ft cp i w = (Throw e, v)"
    by (rule load_script_cases [of i w]) auto
  then show ?thesis
  proof cases
    case (loaded s v)
    then have "r = Ret s" "w' = v" "st' = cache_put lru i s st1" using run st1(3) by simp_all
    with None loaded show ?thesis
      using cache_put_inv(2) [OF st1(2) loaded(2)] cache_put_alters [OF st1(2) loaded(2)] by (simp add: st1(1))
  next
    case (failed e v)
    then have "r = Throw e" "w' = v" "st' = st1" using run st1(3) by simp_all
    with None failed show ?thesis by (simp add: st1(1))
  qed
qed

lemma refresh_result:
  assumes "cache_inv lang contents ok st" and "ss_use_cache st"
    and run: "scripts_refresh ft cp lru i (w, st) = (r, (w1, st1))"
  shows "case r of
      Ret _ \<Rightarrow> \<exists>s. load_script ft cp i w = (Ret s, w1) \<and> (\<forall>v. \<exists>st2. scripts_get ft cp lru i (v, st1) = (Ret s, (v, st2)))
    | Throw e \<Rightarrow> is_std_exception e \<and> st1 = st
    | _ \<Rightarrow> False"
proof (cases r)
  case (Ret u)
  with get_after_refresh [OF assms(1,2)] run show ?thesis by (simp, metis Pair_inject outcome.inject(1))
next
  case (Throw e)
  with run show ?thesis by (rule_tac load_script_cases [of i w]) (auto simp: scripts_refresh_eq)
qed (use refresh_keeps_inv [OF assms(1) run] in simp_all)

text \<open>Over a database at rest the cache holds what a load returns, and nothing changes that.\<close>

definition holds_loads :: "'w \<Rightarrow> 'c scripts_storage \<Rightarrow> bool" where
  "holds_loads w st \<longleftrightarrow> cache_inv lang contents ok st \<and> ss_use_cache st
     \<and> (\<forall>i s. contents (ss_scripts st) i = Some s \<longrightarrow> load_script ft cp i w = (Ret s, w))"

lemma get_at_rest:
  assumes "\<And>i. snd (load_script ft cp i w) = w" and "holds_loads w st" and "scripts_get ft cp lru i (w, st) = (r, (w', st'))"
  shows "r = fst (load_script ft cp i w) \<and> w' = w \<and> holds_loads w st'"
proof -
  have inv: "cache_inv lang contents ok st" "ss_use_cache st"
    and held: "\<And>i s. contents (ss_scripts st) i = Some s \<Longrightarrow> load_script ft cp i w = (Ret s, w)"
    using assms(2) by (auto simp: holds_loads_def)
  note keeps = get_keeps_inv [OF inv assms(3)]
  note result = scripts_get_result [OF inv assms(3)]
  show ?thesis
  proof (cases "contents (ss_scripts st) i")
    case (Some s)
    with result keeps held show ?thesis by (auto simp: holds_loads_def)
  next
    case None
    then have load: "load_script ft cp i w = (r, w')" and w': "w' = w" using result assms(1) [of i] by (auto, metis snd_conv)
    have "load_script ft cp l w = (Ret s, w)" if "contents (ss_scripts st') l = Some s" for l s
    proof (cases r)
      case (Ret x)
      with result None have "contents (ss_scripts st') i = Some x"
        "l = i \<or> contents (ss_scripts st') l = contents (ss_scripts st) l \<or> contents (ss_scripts st') l = None" by auto
      with that load w' Ret held show ?thesis by auto
    qed (use result None that held keeps in auto)
    with keeps load w' show ?thesis by (simp add: holds_loads_def)
  qed
qed

lemma refresh_at_rest:
  assumes "\<And>i. snd (load_script ft cp i w) = w" and "holds_loads w st" and "scripts_refresh ft cp lru i (w, st) = (r, (w', st'))"
  shows "w' = w \<and> holds_loads w st'"
proof -
  have inv: "cache_inv lang contents ok st" "ss_use_cache st"
    and held: "\<And>i s. contents (ss_scripts st) i = Some s \<Longrightarrow> load_script ft cp i w = (Ret s, w)"
    using assms(2) by (auto simp: holds_loads_def)
  show ?thesis
  proof (rule load_script_cases [of i w])
    fix info v and s :: "'x script_base_scheme"
    let ?s = "set_project_id (si_project_id info) (set_script_id i s)"
    assume load: "load_script ft cp i w = (Ret ?s, v)" "stamped lang i ?s"
    then have "v = w" using assms(1) [of i] by simp
    moreover have "st' = cache_put lru i ?s st" "w' = v" using assms(3) load(1) by (simp_all add: scripts_refresh_eq)
    moreover have "load_script ft cp l w = (Ret t, w)" if "contents (ss_scripts (cache_put lru i ?s st)) l = Some t" for l t
      using that cache_put_inv(2) [OF inv(1) load(2)] cache_put_alters [OF inv(1) load(2)] load(1) held \<open>v = w\<close>
      by (metis option.distinct(1) option.inject)
    ultimately show ?thesis using cache_put_inv(1,4) [OF inv(1) load(2)] inv(2) by (simp add: holds_loads_def)
  next
    fix e v assume "load_script ft cp i w = (Throw e, v)"
    then show ?thesis using assms(1) [of i] assms(2,3) by (simp add: scripts_refresh_eq)
  qed
qed

lemma run_at_rest:
  assumes "\<And>i. snd (load_script ft cp i w) = w" and "holds_loads w st"
  shows "\<exists>st'. scripts_run ft cp lru calls (w, st) = (w, st') \<and> holds_loads w st'"
  using assms(2)
proof (induction calls arbitrary: st)
  case (Cons call calls)
  obtain i where call: "call = CallGet i \<or> call = CallRefresh i" by (cases call) auto
  obtain r w1 st1 where get: "scripts_get ft cp lru i (w, st) = (r, (w1, st1))" by (metis surj_pair)
  obtain q w2 st2 where refresh: "scripts_refresh ft cp lru i (w, st) = (q, (w2, st2))" by (metis surj_pair)
  from call show ?case
    using Cons.IH get refresh get_at_rest [OF assms(1) Cons.prems get] refresh_at_rest [OF assms(1) Cons.prems refresh] by auto
qed auto

lemma cache_transparent:
  assumes "\<And>i. snd (load_script ft cp i w) = w" and "0 < n"
  shows "fst (scripts_get ft cp lru i (scripts_run ft cp lru calls (w, new_scripts_storage lru n)))
    = fst (scripts_get ft cp lru i (w, new_scripts_storage lru 0))"
proof -
  have "holds_loads w (new_scripts_storage lru n)"
    using new_storage_inv [OF assms(2)] assms(2) by (auto simp: holds_loads_def new_scripts_storage_def LruNew_contents)
  then obtain st' where st': "scripts_run ft cp lru calls (w, new_scripts_storage lru n) = (w, st')" "holds_loads w st'"
    using run_at_rest [OF assms(1)] by blast
  obtain r w1 st1 where "scripts_get ft cp lru i (w, st') = (r, (w1, st1))" by (metis surj_pair)
  with get_at_rest [OF assms(1) st'(2) this]
  have "fst (scripts_get ft cp lru i (w, st')) = fst (load_script ft cp i w)" by simp
  moreover have "fst (scripts_get ft cp lru i (w, new_scripts_storage lru 0)) = fst (load_script ft cp i w)"
    using scripts_get_uncached [of "new_scripts_storage lru 0"]
    by (simp add: new_scripts_storage_def firstS_def split: prod.split)
  ultimately show ?thesis by (simp add: st'(1))
qed

end

section \<open>A reference cache\<close>

text \<open>The entries with the most recent one first, and the bound.\<close>

type_synonym ('k, 'v) recency_list = "nat \<times> ('k \<times> 'v) list"

fun ref_lru_get :: "'k \<Rightarrow> ('k, 'v) recency_list \<Rightarrow> 'v option \<times> ('k, 'v) recency_list" where
  "ref_lru_get k (n, es) =
     (case map_of es k of
        None \<Rightarrow> (None, (n, es))
      | Some v \<Rightarrow> (Some v, (n, (k, v) # filter (\<lambda>e. fst e \<noteq> k) es)))"

fun ref_lru_put :: "'k \<Rightarrow> 'v \<Rightarrow> ('k, 'v) recency_list \<Rightarrow> ('k, 'v) recency_list" where
  "ref_lru_put k v (n, es) = (n, take n ((k, v) # filter (\<lambda>e. fst e \<noteq> k) es))"

definition ref_lru :: "('k, 'v, ('k, 'v) recency_list) lru_lib" where
  "ref_lru = \<lparr>LruNew = (\<lambda>n. (unat n, [])), LruGet = ref_lru_get, LruPut = ref_lru_put\<rparr>"

fun ref_lru_ok :: "('k, 'v) recency_list \<Rightarrow> bool" where
  "ref_lru_ok (n, es) \<longleftrightarrow> 0 < n \<and> length es \<le> n \<and> distinct (map fst es)"

lemma map_of_filter_key: "map_of (filter (\<lambda>e. fst e \<noteq> k) es) = (map_of es)(k := None)"
  by (induction es) auto

lemma map_of_move_front: "map_of es k = Some v \<Longrightarrow> map_of ((k, v) # filter (\<lambda>e. fst e \<noteq> k) es) = map_of es"
  by (auto simp: map_of_filter_key)

lemma map_of_take: "map_of (take n es) k \<in> {map_of es k, None}"
  by (induction es arbitrary: n) (auto simp: take_Cons split: nat.split)

lemma filter_absent_key: "k \<notin> fst ` set es \<Longrightarrow> filter (\<lambda>e. fst e \<noteq> k) es = es"
  by (induction es) auto

lemma length_filter_key:
  "distinct (map fst es) \<Longrightarrow> map_of es k = Some v \<Longrightarrow> Suc (length (filter (\<lambda>e. fst e \<noteq> k) es)) = length es"
  by (induction es) (auto simp: filter_absent_key split: if_splits)

lemma dom_map_of_card: "distinct (map fst es) \<Longrightarrow> card (dom (map_of es)) = length es"
  by (simp add: dom_map_of_conv_image_fst distinct_card flip: set_map)

lemma distinct_keys_filter: "distinct (map fst es) \<Longrightarrow> distinct (map fst (filter P es))"
  by (induction es) auto

interpretation rlru: lru_laws ref_lru "\<lambda>(n, es). map_of es" fst ref_lru_ok
proof
  show "0 < n \<Longrightarrow> ref_lru_ok (LruNew ref_lru n)" for n
    by (simp add: ref_lru_def unat_gt_0 word_neq_0_conv)
next
  fix c c' :: "('a, 'b) recency_list" and k r
  obtain n es where c: "c = (n, es)" by (cases c)
  assume ok: "ref_lru_ok c" and get: "LruGet ref_lru k c = (r, c')"
  show "ref_lru_ok c' \<and> fst c' = fst c"
    using ok get c length_filter_key [of es k] distinct_keys_filter [of es]
    by (auto simp: ref_lru_def split: option.splits)
  show "(case c' of (n, es) \<Rightarrow> map_of es) = (case c of (n, es) \<Rightarrow> map_of es) \<and> r = (case c of (n, es) \<Rightarrow> map_of es) k"
    using get c by (auto simp: ref_lru_def map_of_filter_key split: option.splits)
next
  fix c :: "('a, 'b) recency_list" and k l and v :: 'b
  obtain n es where c: "c = (n, es)" by (cases c)
  assume ok: "ref_lru_ok c"
  then have n: "n = Suc (n - 1)" using c by simp
  let ?m = "\<lambda>(n, es). map_of es"
  show "ref_lru_ok (LruPut ref_lru k v c) \<and> fst (LruPut ref_lru k v c) = fst c"
    using ok c n distinct_keys_filter [of es]
    by (cases n) (auto simp: ref_lru_def take_map[symmetric] distinct_take dest: in_set_takeD)
  show "?m (LruPut ref_lru k v c) k = Some v"
    using c n by (cases n) (simp_all add: ref_lru_def)
  show other: "l \<noteq> k \<Longrightarrow> ?m (LruPut ref_lru k v c) l \<in> {?m c l, None}"
    using c n map_of_take [of "n - 1" "filter (\<lambda>e. fst e \<noteq> k) es" l]
    by (cases n) (auto simp: ref_lru_def map_of_filter_key)
  show "?m (LruPut ref_lru k v c) l = ?m c l" if "k \<in> dom (?m c) \<or> card (dom (?m c)) < fst c" "l \<noteq> k"
  proof -
    have "length (filter (\<lambda>e. fst e \<noteq> k) es) \<le> n - 1"
    proof (cases "map_of es k")
      case (Some v)
      then show ?thesis using ok c length_filter_key [OF _ Some] by simp linarith
    next
      case None
      then have "length es < n" using that(1) ok c dom_map_of_card [of es] by (simp add: domIff)
      then show ?thesis using length_filter_le [of "\<lambda>e. fst e \<noteq> k" es] by linarith
    qed
    then show ?thesis using c n that(2) by (cases n) (simp_all add: ref_lru_def map_of_filter_key)
  qed
  show "finite (dom (?m c)) \<and> card (dom (?m c)) \<le> fst c"
    using ok c by (simp add: dom_map_of_card finite_dom_map_of)
qed (simp_all add: ref_lru_def)

text \<open>The store over the fetcher and the compiler of the service.\<close>

interpretation rss: scripts_storage_env "db_scripts_fetcher ref_pg" "lua_compiler ref_compile_string junk none" LuaLanguage
    ref_lru "\<lambda>(n, es). map_of es" fst ref_lru_ok
  by (intro scripts_storage_env.intro rp.fetch.fetcher_contract_axioms rl.compiler_contract_axioms
      rlru.lru_laws_axioms)

section \<open>Properties\<close>

definition sample_db :: db_tables where
  "sample_db = \<lparr>db_scripts = [7 \<mapsto> (Some 1, ''return'')], db_values = Map.empty, db_instances = None\<rparr>"

definition sample_compiler :: "(string, unit) lua_script_ext compiler_base" where
  "sample_compiler = lua_compiler ref_compile_string (0, 0) []"

definition sample_storage :: "(script_id, string lua_script) recency_list scripts_storage" where
  "sample_storage = new_scripts_storage ref_lru 2"

lemmas sample_defs = sample_compiler_def sample_storage_def

lemmas sample_env = rss.scripts_storage_env_axioms [of "(0, 0)" "[]", folded sample_compiler_def]

lemma sample_storage_inv: "cache_inv LuaLanguage (\<lambda>(n, es). map_of es) ref_lru_ok sample_storage" "ss_use_cache sample_storage"
  using rss.new_storage_inv [of 2] by (simp_all add: sample_storage_def) (simp add: new_scripts_storage_def)

lemmas sample_simps = sample_defs sample_db_def scripts_get_def scripts_refresh_def bindS_def getS_def
  new_scripts_storage_def cache_lookup_def cache_put_def ref_lru_def firstS_def load_script_def
  db_scripts_fetcher_def db_fetch_def ref_pg_def ref_execute_def liftS_def returnS_def lua_compiler_def
  lua_compile_def ref_compile_string_def set_code_snippet_def new_lua_script_def set_project_id_def
  set_script_id_def thenS_def modifyS_def

text \<open>
  What fetching, compiling and stamping a script comes to, written out: the script the
  compiler gave, with the identifier asked for and the project of the fetched row; or the
  exception of the step that failed.
\<close>

definition loads ::
  "'w fetcher_base \<Rightarrow> 'x compiler_base \<Rightarrow> script_id \<Rightarrow> 'w \<Rightarrow> 'x script_base_scheme outcome \<Rightarrow> 'w \<Rightarrow> bool" where
  "loads ft cp i w r w' \<longleftrightarrow>
     (case Fetch ft i w of
        (Ret info, v) \<Rightarrow> w' = v \<and>
          (case Compile cp (si_source_code info) of
             Ret s \<Rightarrow> r = Ret (s\<lparr>sb_script_id := i, sb_project_id := si_project_id info\<rparr>)
           | Throw e \<Rightarrow> r = Throw e
           | _ \<Rightarrow> False)
      | (Throw e, v) \<Rightarrow> w' = v \<and> r = Throw e
      | _ \<Rightarrow> False)"

lemma load_script_loads:
  assumes "scripts_storage_env ft cp lang lru contents capacity ok" and "load_script ft cp i w = (r, w')"
  shows "loads ft cp i w r w'"
proof -
  note env = scripts_storage_env.axioms(1,2) [OF assms(1)]
  obtain f v where fetch: "Fetch ft i w = (f, v)" by fastforce
  from fetcher_contract.Fetch_answers [OF env(1), of i w] fetch have f: "answersO f" by (simp add: answersS_def)
  have cp: "answersO (Compile cp code)" for code by (rule compiler_contract.Compile_answers [OF env(2)])
  have "loads ft cp i w (fst (load_script ft cp i w)) (snd (load_script ft cp i w))"
  proof (cases f)
    case (Ret info)
    with cp [of "si_source_code info"] fetch show ?thesis
      by (cases "Compile cp (si_source_code info)")
        (simp_all add: loads_def load_script_def outcome_simps set_project_id_def set_script_id_def)
  qed (use f fetch in \<open>simp_all add: loads_def load_script_def outcome_simps\<close>)
  with assms(2) show ?thesis by simp
qed

text \<open>
  C15. \<open>Get\<close> without a cache fetches and compiles the script, stamps it with its identifier
  and its project, and leaves the store alone. With a cache, a cached script is returned
  without a look at the database; any other is fetched, compiled, stamped in the same way and
  cached, and only then may other entries leave. A call that fails leaves every entry as it was.
\<close>

theorem scripts_get_serves:
  assumes "scripts_storage_env ft cp lang lru contents capacity ok"
    and "ss_use_cache st \<Longrightarrow> cache_inv lang contents ok st"
    and "scripts_get ft cp lru i (w, st) = (r, (w', st'))"
  shows "if \<not> ss_use_cache st then loads ft cp i w r w' \<and> st' = st
    else case contents (ss_scripts st) i of
      Some s \<Rightarrow> r = Ret s \<and> w' = w \<and> contents (ss_scripts st') = contents (ss_scripts st)
    | None \<Rightarrow> loads ft cp i w r w' \<and>
        (case r of
           Ret s \<Rightarrow> stamped lang i s \<and> contents (ss_scripts st') i = Some s \<and>
             (\<forall>l. l = i \<or> contents (ss_scripts st') l = contents (ss_scripts st) l \<or> contents (ss_scripts st') l = None)
         | Throw e \<Rightarrow> contents (ss_scripts st') = contents (ss_scripts st)
         | _ \<Rightarrow> False)"
proof (cases "ss_use_cache st")
  case True
  note result = scripts_storage_env.scripts_get_result [OF assms(1) assms(2) [OF True] True assms(3)]
  show ?thesis
  proof (cases "contents (ss_scripts st) i")
    case None
    with result load_script_loads [OF assms(1), of i w r w'] True show ?thesis by auto
  qed (use result True in simp)
next
  case False
  then have "firstS (load_script ft cp i) (w, st) = (r, (w', st'))"
    using assms(3) scripts_storage_env.scripts_get_uncached [OF assms(1)] by metis
  then have "load_script ft cp i w = (r, w')" "st' = st"
    by (auto simp: firstS_def split: prod.splits)
  with False load_script_loads [OF assms(1)] show ?thesis by simp
qed

theorem scripts_get_serves_witness:
  "(let get = scripts_get (db_scripts_fetcher ref_pg) sample_compiler ref_lru 7 (sample_db, sample_storage)
    in fst get = Ret \<lparr>sb_language = LuaLanguage, sb_project_id = 1, sb_script_id = 7, lua_snippet = ''return''\<rparr>
      \<and> loads (db_scripts_fetcher ref_pg) sample_compiler 7 sample_db (fst get) (fst (snd get)))
   \<and> (let get = scripts_get (db_scripts_fetcher ref_pg) sample_compiler ref_lru 7 (sample_db, new_scripts_storage ref_lru 0)
      in fst get = Ret \<lparr>sb_language = LuaLanguage, sb_project_id = 1, sb_script_id = 7, lua_snippet = ''return''\<rparr>
        \<and> loads (db_scripts_fetcher ref_pg) sample_compiler 7 sample_db (fst get) (fst (snd get))
        \<and> snd (snd get) = new_scripts_storage ref_lru 0)"
proof -
  let ?get = "\<lambda>st. scripts_get (db_scripts_fetcher ref_pg) sample_compiler ref_lru 7 (sample_db, st)"
  obtain r w' st' where get: "?get sample_storage = (r, (w', st'))" by (metis surj_pair)
  obtain r0 w0 st0 where get0: "?get (new_scripts_storage ref_lru 0) = (r0, (w0, st0))" by (metis surj_pair)
  have results: "fst (?get st) = Ret \<lparr>sb_language = LuaLanguage, sb_project_id = 1, sb_script_id = 7, lua_snippet = ''return''\<rparr>"
    if "st = sample_storage \<or> st = new_scripts_storage ref_lru 0" for st
    using that by (auto simp: sample_simps)
  have "\<not> ss_use_cache (new_scripts_storage ref_lru 0 :: (script_id, string lua_script) recency_list scripts_storage)"
    by (simp add: new_scripts_storage_def)
  with scripts_get_serves [OF sample_env _ get0] get0 results [of "new_scripts_storage ref_lru 0"]
    scripts_get_serves [OF sample_env sample_storage_inv(1) get] get results [of sample_storage]
  show ?thesis by (simp add: sample_defs new_scripts_storage_def ref_lru_def Let_def)
qed

text \<open>
  C16. A script that \<open>Refresh\<close> has reloaded is what the next \<open>Get\<close> returns, whatever
  the database holds by then; a refresh that fails leaves the cache as it was.
\<close>

theorem refreshed_script_is_served:
  assumes "scripts_storage_env ft cp lang lru contents capacity ok"
    and "cache_inv lang contents ok st" and "ss_use_cache st"
    and "scripts_refresh ft cp lru i (w, st) = (r, (w1, st1))"
  shows "case r of
      Ret _ \<Rightarrow> \<exists>s. load_script ft cp i w = (Ret s, w1) \<and> (\<forall>v. \<exists>st2. scripts_get ft cp lru i (v, st1) = (Ret s, (v, st2)))
    | Throw e \<Rightarrow> is_std_exception e \<and> st1 = st
    | _ \<Rightarrow> False"
  by (rule scripts_storage_env.refresh_result [OF assms])

theorem refreshed_script_is_served_witness:
  "let refresh = scripts_refresh (db_scripts_fetcher ref_pg) sample_compiler ref_lru 7 (sample_db, sample_storage)
   in fst refresh = Ret () \<and>
      (\<exists>s. \<forall>v. \<exists>st. scripts_get (db_scripts_fetcher ref_pg) sample_compiler ref_lru 7 (v, snd (snd refresh)) = (Ret s, (v, st)))"
proof -
  let ?run = "scripts_refresh (db_scripts_fetcher ref_pg) sample_compiler ref_lru 7 (sample_db, sample_storage)"
  obtain r w' st' where run: "?run = (r, (w', st'))" by (metis surj_pair)
  have r: "fst ?run = Ret ()" by (simp add: sample_simps)
  from refreshed_script_is_served [OF sample_env sample_storage_inv run]
    r run
  show ?thesis by (simp add: sample_defs new_scripts_storage_def ref_lru_def) blast
qed

text \<open>
  C33. Whatever calls are made on a new store with a cache, every entry is stamped with the
  identifier it is cached under, and there are never more of them than \<open>max-cache-size\<close>.
\<close>

theorem scripts_cache_invariant:
  assumes env: "scripts_storage_env ft cp lang lru contents capacity ok" and "0 < max_cache_size"
  shows "let st = snd (scripts_run ft cp lru calls (w, new_scripts_storage lru max_cache_size)) in
    cache_inv lang contents ok st \<and> card (dom (contents (ss_scripts st))) \<le> unat max_cache_size"
proof -
  note lru = scripts_storage_env.axioms(3) [OF env]
  let ?st = "new_scripts_storage lru max_cache_size"
  have "ss_use_cache ?st" "capacity (ss_scripts ?st) = unat max_cache_size"
    using assms(2) lru_laws.LruNew_capacity [OF lru] by (auto simp: new_scripts_storage_def)
  with scripts_storage_env.scripts_run_inv [OF env scripts_storage_env.new_storage_inv [OF assms]]
  show ?thesis by (simp add: Let_def) (metis cache_inv_def lru_laws.ok_bound [OF lru])
qed

theorem scripts_cache_invariant_witness:
  "let st = snd (scripts_run (db_scripts_fetcher ref_pg) sample_compiler ref_lru [CallGet 7, CallRefresh 8, CallGet 7]
       (sample_db, new_scripts_storage ref_lru 2))
   in card (dom (map_of (snd (ss_scripts st)))) \<le> 2"
  using scripts_cache_invariant [OF sample_env, of 2 "[CallGet 7, CallRefresh 8, CallGet 7]" sample_db]
  by (simp add: sample_compiler_def Let_def case_prod_unfold)

text \<open>
  C17. The cache cannot be noticed while the database is at rest: after any calls, a storage with
  a cache of any size answers a \<open>Get\<close> exactly as a storage without a cache does, with the same
  script or the same exception.
\<close>

theorem cache_is_transparent:
  assumes "scripts_storage_env ft cp lang lru contents capacity ok"
    and "\<And>i. snd (load_script ft cp i w) = w" and "0 < n"
  shows "fst (scripts_get ft cp lru i (scripts_run ft cp lru calls (w, new_scripts_storage lru n)))
    = fst (scripts_get ft cp lru i (w, new_scripts_storage lru 0))"
  using assms by (rule scripts_storage_env.cache_transparent)

theorem cache_is_transparent_witness:
  "fst (scripts_get (db_scripts_fetcher ref_pg) sample_compiler ref_lru 7
      (scripts_run (db_scripts_fetcher ref_pg) sample_compiler ref_lru [CallGet 7, CallRefresh 7, CallGet 9]
        (sample_db, new_scripts_storage ref_lru 1)))
    = fst (scripts_get (db_scripts_fetcher ref_pg) sample_compiler ref_lru 7 (sample_db, new_scripts_storage ref_lru 0))"
proof -
  have "snd (load_script (db_scripts_fetcher ref_pg) sample_compiler i sample_db) = sample_db" for i
    by (simp add: sample_simps throwS_def)
  then show ?thesis by (rule cache_is_transparent [OF sample_env]) simp
qed

end
