(* ===== verification/Scripts_Storage_Tasks.thy ===== *)
theory Scripts_Storage_Tasks
  imports Scripts_Storage
begin

text \<open>
  The store of scripts under concurrency. Requests run as coroutines that share one
  \<open>ScriptsStorage\<close>; the lock covers the lookup and the insertion but neither the fetch nor
  the compilation, so other callers and writers of the database run between them. Here each
  section under the lock is one atomic step; \<open>Scripts_Storage_Lock\<close> has the lock itself, with
  callers that wait for it, and shows that the code with the lock refines this model.
\<close>

section \<open>Tasks and configurations\<close>

text \<open>
  Where a call of \<open>Get\<close> or \<open>Refresh\<close> stands: before its first section, after a miss,
  with a compiled script and waiting for the lock, or done.
\<close>

datatype 's task =
    GetStart script_id
  | GetLoad script_id
  | GetPut script_id 's
  | RefreshStart script_id
  | RefreshPut script_id 's
  | Finished script_id 's
  | Failed script_id cpp_exn

text \<open>\<open>cf_past\<close> records every state the database has been in; the code has no such variable.\<close>

record ('w, 'c, 's) config =
  cf_world :: 'w
  cf_storage :: "'c scripts_storage"
  cf_tasks :: "nat \<Rightarrow> 's task option"
  cf_past :: "'w list"

definition set_task :: "nat \<Rightarrow> 's task \<Rightarrow> ('w, 'c, 's) config \<Rightarrow> ('w, 'c, 's) config" where
  "set_task t task cf = cf\<lparr>cf_tasks := (cf_tasks cf)(t \<mapsto> task)\<rparr>"

definition load_task ::
  "'w fetcher_base \<Rightarrow> 'x compiler_base \<Rightarrow> nat \<Rightarrow> script_id \<Rightarrow> ('x script_base_scheme \<Rightarrow> 'x script_base_scheme task)
    \<Rightarrow> ('w, 'c, 'x script_base_scheme) config \<Rightarrow> ('w, 'c, 'x script_base_scheme) config" where
  "load_task ft cp t i next cf =
     (case load_script ft cp i (cf_world cf) of
        (Ret s, w) \<Rightarrow> set_task t (next s) (cf\<lparr>cf_world := w, cf_past := w # cf_past cf\<rparr>)
      | (Throw e, w) \<Rightarrow> set_task t (Failed i e) (cf\<lparr>cf_world := w, cf_past := w # cf_past cf\<rparr>)
      | _ \<Rightarrow> cf)"

text \<open>The next atomic section of a task.\<close>

definition advance ::
  "'w fetcher_base \<Rightarrow> 'x compiler_base \<Rightarrow> ('x, 'c) script_lru \<Rightarrow> nat
    \<Rightarrow> ('w, 'c, 'x script_base_scheme) config \<Rightarrow> ('w, 'c, 'x script_base_scheme) config" where
  "advance ft cp lru t cf =
     (case cf_tasks cf t of
        Some (GetStart i) \<Rightarrow>
          if \<not> ss_use_cache (cf_storage cf) then load_task ft cp t i (Finished i) cf
          else (case cache_lookup lru i (cf_storage cf) of
                  (Some s, st) \<Rightarrow> set_task t (Finished i s) (cf\<lparr>cf_storage := st\<rparr>)
                | (None, st) \<Rightarrow> set_task t (GetLoad i) (cf\<lparr>cf_storage := st\<rparr>))
      | Some (GetLoad i) \<Rightarrow> load_task ft cp t i (GetPut i) cf
      | Some (GetPut i s) \<Rightarrow> set_task t (Finished i s) (cf\<lparr>cf_storage := cache_put lru i s (cf_storage cf)\<rparr>)
      | Some (RefreshStart i) \<Rightarrow> load_task ft cp t i (RefreshPut i) cf
      | Some (RefreshPut i s) \<Rightarrow> set_task t (Finished i s) (cf\<lparr>cf_storage := cache_put lru i s (cf_storage cf)\<rparr>)
      | _ \<Rightarrow> cf)"

text \<open>What may happen next: a task runs, a call arrives, or the database changes.\<close>

inductive conc_step ::
  "('w \<Rightarrow> 'w \<Rightarrow> bool) \<Rightarrow> 'w fetcher_base \<Rightarrow> 'x compiler_base \<Rightarrow> ('x, 'c) script_lru
    \<Rightarrow> ('w, 'c, 'x script_base_scheme) config \<Rightarrow> ('w, 'c, 'x script_base_scheme) config \<Rightarrow> bool"
  for env ft cp lru where
  run: "conc_step env ft cp lru cf (advance ft cp lru t cf)"
| call_get: "cf_tasks cf t = None \<Longrightarrow> conc_step env ft cp lru cf (set_task t (GetStart i) cf)"
| call_refresh: "cf_tasks cf t = None \<Longrightarrow> conc_step env ft cp lru cf (set_task t (RefreshStart i) cf)"
| update: "env (cf_world cf) w \<Longrightarrow> conc_step env ft cp lru cf (cf\<lparr>cf_world := w, cf_past := w # cf_past cf\<rparr>)"

inductive_cases conc_stepE: "conc_step env ft cp lru cf cf'"

definition initial_config :: "('k, 'v, 'c) lru_lib \<Rightarrow> size_t \<Rightarrow> 'w \<Rightarrow> ('w, 'c, 's) config" where
  "initial_config lru n w =
     \<lparr>cf_world = w, cf_storage = new_scripts_storage lru n, cf_tasks = Map.empty, cf_past = [w]\<rparr>"

section \<open>The invariant\<close>

text \<open>A script of a call for \<open>i\<close>: it was loaded from some past state of the database.\<close>

definition loaded_from ::
  "'w fetcher_base \<Rightarrow> 'x compiler_base \<Rightarrow> 'w list \<Rightarrow> script_id \<Rightarrow> 'x script_base_scheme \<Rightarrow> bool" where
  "loaded_from ft cp past i s \<longleftrightarrow> (\<exists>w\<in>set past. fst (load_script ft cp i w) = Ret s)"

fun task_ok ::
  "'w fetcher_base \<Rightarrow> 'x compiler_base \<Rightarrow> 'w list \<Rightarrow> 'x script_base_scheme task \<Rightarrow> bool" where
  "task_ok ft cp past (GetPut i s) \<longleftrightarrow> loaded_from ft cp past i s"
| "task_ok ft cp past (RefreshPut i s) \<longleftrightarrow> loaded_from ft cp past i s"
| "task_ok ft cp past (Finished i s) \<longleftrightarrow> loaded_from ft cp past i s"
| "task_ok ft cp past (Failed i e) \<longleftrightarrow> (\<exists>w\<in>set past. fst (load_script ft cp i w) = Throw e)"
| "task_ok ft cp past _ \<longleftrightarrow> True"

definition config_ok ::
  "script_language \<Rightarrow> ('c \<Rightarrow> script_id \<Rightarrow> 'x script_base_scheme option) \<Rightarrow> ('c \<Rightarrow> bool) \<Rightarrow>
   'w fetcher_base \<Rightarrow> 'x compiler_base \<Rightarrow> ('w, 'c, 'x script_base_scheme) config \<Rightarrow> bool" where
  "config_ok lang contents ok ft cp cf \<longleftrightarrow>
     cf_world cf \<in> set (cf_past cf)
   \<and> cache_inv lang contents ok (cf_storage cf)
   \<and> (\<forall>i s. contents (ss_scripts (cf_storage cf)) i = Some s \<longrightarrow> loaded_from ft cp (cf_past cf) i s)
   \<and> (\<forall>t task. cf_tasks cf t = Some task \<longrightarrow> task_ok ft cp (cf_past cf) task)"

lemma config_okD:
  "config_ok lang contents ok ft cp cf \<Longrightarrow> cf_tasks cf t = Some task \<Longrightarrow> task_ok ft cp (cf_past cf) task"
  "config_ok lang contents ok ft cp cf \<Longrightarrow> contents (ss_scripts (cf_storage cf)) i = Some s
     \<Longrightarrow> loaded_from ft cp (cf_past cf) i s"
  by (simp_all add: config_ok_def)

lemma loaded_from_mono: "loaded_from ft cp past i s \<Longrightarrow> loaded_from ft cp (w # past) i s"
  by (auto simp: loaded_from_def)

lemma task_ok_mono: "task_ok ft cp past task \<Longrightarrow> task_ok ft cp (w # past) task"
  by (cases task) (auto simp: loaded_from_mono)

lemma config_ok_world:
  "config_ok lang contents ok ft cp cf \<Longrightarrow> config_ok lang contents ok ft cp (cf\<lparr>cf_world := w, cf_past := w # cf_past cf\<rparr>)"
  by (auto simp: config_ok_def loaded_from_mono task_ok_mono)

lemma config_ok_task:
  "config_ok lang contents ok ft cp cf \<Longrightarrow> task_ok ft cp (cf_past cf) task
    \<Longrightarrow> config_ok lang contents ok ft cp (set_task t task cf)"
  by (simp add: config_ok_def set_task_def)

context scripts_storage_env
begin

lemma load_task_ok:
  assumes cf: "config_ok lang contents ok ft cp cf"
    and next_ok: "\<And>past s. loaded_from ft cp past i s \<Longrightarrow> task_ok ft cp past (next s)"
  shows "config_ok lang contents ok ft cp (load_task ft cp t i next cf)"
proof -
  have here: "cf_world cf \<in> set (cf_past cf)" using cf by (simp add: config_ok_def)
  show ?thesis
  proof (rule load_script_cases [of i "cf_world cf"])
    fix info w' and s :: "'x script_base_scheme"
    let ?s = "set_project_id (si_project_id info) (set_script_id i s)"
    assume load: "load_script ft cp i (cf_world cf) = (Ret ?s, w')"
    with here have "loaded_from ft cp (w' # cf_past cf) i ?s"
      by (force simp: loaded_from_def)
    with load config_ok_world [OF cf, of w'] show ?thesis
      by (simp add: load_task_def config_ok_task next_ok)
  next
    fix e w' assume load: "load_script ft cp i (cf_world cf) = (Throw e, w')"
    with here have "task_ok ft cp (w' # cf_past cf) (Failed i e)" by force
    with load config_ok_world [OF cf, of w'] show ?thesis
      by (simp add: load_task_def config_ok_task)
  qed
qed

lemma put_ok:
  assumes cf: "config_ok lang contents ok ft cp cf" and s: "loaded_from ft cp (cf_past cf) i s"
  shows "config_ok lang contents ok ft cp
    (set_task t (Finished i s) (cf\<lparr>cf_storage := cache_put lru i s (cf_storage cf)\<rparr>))"
proof -
  have inv: "cache_inv lang contents ok (cf_storage cf)" using cf by (simp add: config_ok_def)
  have stamped: "stamped lang i s" using s load_script_stamped by (auto simp: loaded_from_def) (metis prod.collapse)
  note put = cache_put_inv [OF inv stamped] cache_put_alters [OF inv stamped]
  have "loaded_from ft cp (cf_past cf) l u"
    if "contents (ss_scripts (cache_put lru i s (cf_storage cf))) l = Some u" for l u
    using that put(2,6) s cf by (metis (no_types, lifting) config_ok_def option.distinct(1) option.inject)
  with cf s put(1) show ?thesis by (simp add: config_ok_def set_task_def)
qed

lemma lookup_ok:
  assumes cf: "config_ok lang contents ok ft cp cf" and look: "cache_lookup lru i (cf_storage cf) = (r, st)"
  shows "config_ok lang contents ok ft cp (cf\<lparr>cf_storage := st\<rparr>)"
    and "r = Some s \<Longrightarrow> loaded_from ft cp (cf_past cf) i s"
proof -
  have inv: "cache_inv lang contents ok (cf_storage cf)" using cf by (simp add: config_ok_def)
  obtain st' where "cache_lookup lru i (cf_storage cf) = (contents (ss_scripts (cf_storage cf)) i, st')"
    "cache_inv lang contents ok st'" "contents (ss_scripts st') = contents (ss_scripts (cf_storage cf))"
    by (rule cache_lookup_eq [OF inv, of i])
  with look cf show "config_ok lang contents ok ft cp (cf\<lparr>cf_storage := st\<rparr>)"
    "r = Some s \<Longrightarrow> loaded_from ft cp (cf_past cf) i s"
    by (auto simp: config_ok_def)
qed

lemma advance_ok:
  assumes cf: "config_ok lang contents ok ft cp cf"
  shows "config_ok lang contents ok ft cp (advance ft cp lru t cf)"
proof (cases "cf_tasks cf t")
  case (Some task)
  then have task: "task_ok ft cp (cf_past cf) task" using cf by (simp add: config_ok_def)
  show ?thesis
  proof (cases task)
    case (GetStart i)
    obtain r st where look: "cache_lookup lru i (cf_storage cf) = (r, st)" by fastforce
    with Some GetStart cf lookup_ok [OF cf look] show ?thesis
      by (cases r) (simp_all add: advance_def load_task_ok config_ok_task)
  qed (use Some task cf in \<open>simp_all add: advance_def load_task_ok put_ok\<close>)
qed (simp add: advance_def cf)

lemma conc_step_ok: "conc_step en ft cp lru cf cf' \<Longrightarrow> config_ok lang contents ok ft cp cf \<Longrightarrow> config_ok lang contents ok ft cp cf'"
  by (induction rule: conc_step.induct) (simp_all add: advance_ok config_ok_task config_ok_world)

lemma initial_ok: "0 < n \<Longrightarrow> config_ok lang contents ok ft cp (initial_config lru n w)"
  using new_storage_inv [of n]
  by (simp add: config_ok_def initial_config_def cache_inv_def new_scripts_storage_def LruNew_contents)

lemma reachable_ok:
  "(conc_step en ft cp lru)\<^sup>*\<^sup>* (initial_config lru n w) cf \<Longrightarrow> 0 < n \<Longrightarrow> config_ok lang contents ok ft cp cf"
  by (induction rule: rtranclp_induct) (simp_all add: initial_ok conc_step_ok)

end

section \<open>Schedules\<close>

text \<open>A schedule is a run of the relation above that can be evaluated.\<close>

datatype 'w event = Run nat | ArriveGet nat script_id | ArriveRefresh nat script_id | World 'w

fun happen ::
  "'w fetcher_base \<Rightarrow> 'x compiler_base \<Rightarrow> ('x, 'c) script_lru \<Rightarrow> 'w event
    \<Rightarrow> ('w, 'c, 'x script_base_scheme) config \<Rightarrow> ('w, 'c, 'x script_base_scheme) config" where
  "happen ft cp lru (Run t) cf = advance ft cp lru t cf"
| "happen ft cp lru (ArriveGet t i) cf = (if cf_tasks cf t = None then set_task t (GetStart i) cf else cf)"
| "happen ft cp lru (ArriveRefresh t i) cf = (if cf_tasks cf t = None then set_task t (RefreshStart i) cf else cf)"
| "happen ft cp lru (World w) cf = cf\<lparr>cf_world := w, cf_past := w # cf_past cf\<rparr>"

fun play ::
  "'w fetcher_base \<Rightarrow> 'x compiler_base \<Rightarrow> ('x, 'c) script_lru \<Rightarrow> 'w event list
    \<Rightarrow> ('w, 'c, 'x script_base_scheme) config \<Rightarrow> ('w, 'c, 'x script_base_scheme) config" where
  "play ft cp lru [] cf = cf"
| "play ft cp lru (e # es) cf = play ft cp lru es (happen ft cp lru e cf)"

lemma happen_steps: "(conc_step (\<lambda>_ _. True) ft cp lru)\<^sup>*\<^sup>* cf (happen ft cp lru e cf)"
  by (cases e) (auto intro: conc_step.intros)

lemma play_steps: "(conc_step (\<lambda>_ _. True) ft cp lru)\<^sup>*\<^sup>* cf (play ft cp lru es cf)"
  by (induction es arbitrary: cf) (auto intro: rtranclp_trans happen_steps)

section \<open>Properties\<close>

lemmas task_simps = sample_simps advance_def load_task_def set_task_def initial_config_def

text \<open>
  C3. Under every interleaving of calls and of changes to the database, a script that a call
  returned, or that the cache holds, was loaded from a state the database was in during the
  run, and is stamped with the identifier asked for.
\<close>

theorem scripts_come_from_the_database:
  assumes env: "scripts_storage_env ft cp lang lru contents capacity ok" and "0 < max_cache_size"
    and run: "(conc_step changes ft cp lru)\<^sup>*\<^sup>* (initial_config lru max_cache_size w) cf"
    and s: "cf_tasks cf t = Some (Finished i s) \<or> contents (ss_scripts (cf_storage cf)) i = Some s"
  shows "sb_script_id s = i \<and> sb_language s = lang \<and> loaded_from ft cp (cf_past cf) i s"
proof -
  have "loaded_from ft cp (cf_past cf) i s"
    using scripts_storage_env.reachable_ok [OF env run assms(2)] s
    by (metis config_okD task_ok.simps(3))
  moreover from this obtain v where "fst (load_script ft cp i v) = Ret s" by (auto simp: loaded_from_def)
  ultimately show ?thesis
    using scripts_storage_env.load_script_stamped [OF env] by (metis prod.collapse stamped_def)
qed

theorem scripts_come_from_the_database_witness:
  "let cf = play (db_scripts_fetcher ref_pg) sample_compiler ref_lru
       [ArriveGet 1 7, Run 1, Run 1, Run 1] (initial_config ref_lru 2 sample_db)
   in \<exists>s. cf_tasks cf 1 = Some (Finished 7 s) \<and> sb_script_id s = 7 \<and> lua_snippet s = ''return''"
proof -
  let ?cf = "play (db_scripts_fetcher ref_pg) sample_compiler ref_lru
       [ArriveGet 1 7, Run 1, Run 1, Run 1] (initial_config ref_lru 2 sample_db)"
  have "\<exists>s. cf_tasks ?cf 1 = Some (Finished 7 s) \<and> lua_snippet s = ''return''"
    by (simp add: task_simps)
  with scripts_come_from_the_database [OF sample_env _ play_steps, of 2 "[ArriveGet 1 7, Run 1, Run 1, Run 1]" sample_db 1 7]
  show ?thesis by fastforce
qed

end
