(* ===== verification/Scripts_Storage_Lock.thy ===== *)
theory Scripts_Storage_Lock
  imports Scripts_Storage_Tasks
begin

text \<open>
  The store of scripts with its lock. \<open>scripts_.Lock()\<close> gives the cache to one caller at a time and
  makes the others wait until the guard it returns is destroyed. A call of \<open>Get\<close> or \<open>Refresh\<close> stands
  at a statement of \<open>scripts-storage.cpp\<close>, and a step takes it to the next, if it does not have to
  wait. The model of \<open>Scripts_Storage_Tasks\<close>, whose sections are atomic, is what this one refines.
\<close>

section \<open>Calls and the lock\<close>

text \<open>Where a call stands, with the line of the code it does next.\<close>

datatype 's call_state =
    GetEntered script_id            \<comment> \<open>14\<close>
  | GetUncached script_id           \<comment> \<open>15 to 19\<close>
  | GetLocking script_id            \<comment> \<open>22, waiting for the lock\<close>
  | GetLooking script_id            \<comment> \<open>23, with the lock\<close>
  | GetLooked script_id "'s option" \<comment> \<open>24 to 27, with the lock\<close>
  | GetLoading script_id            \<comment> \<open>28 to 31\<close>
  | GetPutLocking script_id 's      \<comment> \<open>33, waiting for the lock\<close>
  | GetPutting script_id 's         \<comment> \<open>34, with the lock\<close>
  | GetPutDone script_id 's         \<comment> \<open>35, with the lock\<close>
  | RefreshLoading script_id        \<comment> \<open>40 to 43\<close>
  | RefreshLocking script_id 's     \<comment> \<open>45, waiting for the lock\<close>
  | RefreshPutting script_id 's     \<comment> \<open>46, with the lock\<close>
  | RefreshPutDone script_id 's     \<comment> \<open>47, with the lock\<close>
  | Returned script_id 's
  | Thrown script_id cpp_exn

record ('w, 'c, 's) lock_config =
  lk_world :: 'w
  lk_storage :: "'c scripts_storage"
  lk_calls :: "nat \<Rightarrow> 's call_state option"
  lk_owner :: "nat option"
  lk_past :: "'w list"

definition set_call :: "nat \<Rightarrow> 's call_state \<Rightarrow> ('w, 'c, 's) lock_config \<Rightarrow> ('w, 'c, 's) lock_config" where
  "set_call t c cf = cf\<lparr>lk_calls := (lk_calls cf)(t \<mapsto> c)\<rparr>"

text \<open>\<open>auto lock = scripts_.Lock()\<close>: nothing happens while another call, or this one, has the lock.\<close>

definition acquire :: "nat \<Rightarrow> 's call_state \<Rightarrow> ('w, 'c, 's) lock_config \<Rightarrow> ('w, 'c, 's) lock_config option" where
  "acquire t c cf = (if lk_owner cf = None then Some (set_call t c (cf\<lparr>lk_owner := Some t\<rparr>)) else None)"

text \<open>The end of the block of \<open>lock\<close>.\<close>

definition release :: "nat \<Rightarrow> 's call_state \<Rightarrow> ('w, 'c, 's) lock_config \<Rightarrow> ('w, 'c, 's) lock_config" where
  "release t c cf = set_call t c (cf\<lparr>lk_owner := None\<rparr>)"

definition load_call ::
  "'w fetcher_base \<Rightarrow> 'x compiler_base \<Rightarrow> nat \<Rightarrow> script_id \<Rightarrow> ('x script_base_scheme \<Rightarrow> 'x script_base_scheme call_state)
    \<Rightarrow> ('w, 'c, 'x script_base_scheme) lock_config \<Rightarrow> ('w, 'c, 'x script_base_scheme) lock_config option" where
  "load_call ft cp t i next cf =
     (case load_script ft cp i (lk_world cf) of
        (Ret s, w) \<Rightarrow> Some (set_call t (next s) (cf\<lparr>lk_world := w, lk_past := w # lk_past cf\<rparr>))
      | (Throw e, w) \<Rightarrow> Some (set_call t (Thrown i e) (cf\<lparr>lk_world := w, lk_past := w # lk_past cf\<rparr>))
      | _ \<Rightarrow> None)"

text \<open>The next statement of a call; \<open>None\<close> if it has to wait or has ended.\<close>

definition call_step ::
  "'w fetcher_base \<Rightarrow> 'x compiler_base \<Rightarrow> ('x, 'c) script_lru \<Rightarrow> nat
    \<Rightarrow> ('w, 'c, 'x script_base_scheme) lock_config \<Rightarrow> ('w, 'c, 'x script_base_scheme) lock_config option" where
  "call_step ft cp lru t cf =
     (case lk_calls cf t of
        Some (GetEntered i) \<Rightarrow>
          Some (set_call t (if \<not> ss_use_cache (lk_storage cf) then GetUncached i else GetLocking i) cf)
      | Some (GetUncached i) \<Rightarrow> load_call ft cp t i (Returned i) cf
      | Some (GetLocking i) \<Rightarrow> acquire t (GetLooking i) cf
      | Some (GetLooking i) \<Rightarrow>
          (case cache_lookup lru i (lk_storage cf) of
             (cached, st) \<Rightarrow> Some (set_call t (GetLooked i cached) (cf\<lparr>lk_storage := st\<rparr>)))
      | Some (GetLooked i cached) \<Rightarrow>
          Some (release t (case cached of Some s \<Rightarrow> Returned i s | None \<Rightarrow> GetLoading i) cf)
      | Some (GetLoading i) \<Rightarrow> load_call ft cp t i (GetPutLocking i) cf
      | Some (GetPutLocking i s) \<Rightarrow> acquire t (GetPutting i s) cf
      | Some (GetPutting i s) \<Rightarrow>
          Some (set_call t (GetPutDone i s) (cf\<lparr>lk_storage := cache_put lru i s (lk_storage cf)\<rparr>))
      | Some (GetPutDone i s) \<Rightarrow> Some (release t (Returned i s) cf)
      | Some (RefreshLoading i) \<Rightarrow> load_call ft cp t i (RefreshLocking i) cf
      | Some (RefreshLocking i s) \<Rightarrow> acquire t (RefreshPutting i s) cf
      | Some (RefreshPutting i s) \<Rightarrow>
          Some (set_call t (RefreshPutDone i s) (cf\<lparr>lk_storage := cache_put lru i s (lk_storage cf)\<rparr>))
      | Some (RefreshPutDone i s) \<Rightarrow> Some (release t (Returned i s) cf)
      | _ \<Rightarrow> None)"

definition new_world :: "'w \<Rightarrow> ('w, 'c, 's) lock_config \<Rightarrow> ('w, 'c, 's) lock_config" where
  "new_world w cf = cf\<lparr>lk_world := w, lk_past := w # lk_past cf\<rparr>"

inductive lock_step ::
  "('w \<Rightarrow> 'w \<Rightarrow> bool) \<Rightarrow> 'w fetcher_base \<Rightarrow> 'x compiler_base \<Rightarrow> ('x, 'c) script_lru
    \<Rightarrow> ('w, 'c, 'x script_base_scheme) lock_config \<Rightarrow> ('w, 'c, 'x script_base_scheme) lock_config \<Rightarrow> bool"
  for changes ft cp lru where
  go: "call_step ft cp lru t cf = Some cf' \<Longrightarrow> lock_step changes ft cp lru cf cf'"
| arrive_get: "lk_calls cf t = None \<Longrightarrow> lock_step changes ft cp lru cf (set_call t (GetEntered i) cf)"
| arrive_refresh: "lk_calls cf t = None \<Longrightarrow> lock_step changes ft cp lru cf (set_call t (RefreshLoading i) cf)"
| change: "changes (lk_world cf) w \<Longrightarrow> lock_step changes ft cp lru cf (new_world w cf)"

definition initial_lock_config :: "('k, 'v, 'c) lru_lib \<Rightarrow> size_t \<Rightarrow> 'w \<Rightarrow> ('w, 'c, 's) lock_config" where
  "initial_lock_config lru n w =
     \<lparr>lk_world = w, lk_storage = new_scripts_storage lru n, lk_calls = Map.empty, lk_owner = None, lk_past = [w]\<rparr>"

lemmas lock_defs = call_step_def set_call_def acquire_def release_def load_call_def

section \<open>The invariant of the lock\<close>

fun holds_lock :: "'s call_state \<Rightarrow> bool" where
  "holds_lock (GetLooking i) = True"
| "holds_lock (GetLooked i r) = True"
| "holds_lock (GetPutting i s) = True"
| "holds_lock (GetPutDone i s) = True"
| "holds_lock (RefreshPutting i s) = True"
| "holds_lock (RefreshPutDone i s) = True"
| "holds_lock _ = False"

fun ended :: "'s call_state \<Rightarrow> bool" where
  "ended (Returned i s) = True"
| "ended (Thrown i e) = True"
| "ended _ = False"

text \<open>A call is on the branch that the test of \<open>useCache_\<close> has sent it to.\<close>

fun on_branch :: "bool \<Rightarrow> 's call_state \<Rightarrow> bool" where
  "on_branch use_cache (GetUncached i) = (\<not> use_cache)"
| "on_branch use_cache (GetLocking i) = use_cache"
| "on_branch use_cache (GetLooking i) = use_cache"
| "on_branch use_cache _ = True"

definition lock_inv :: "('w, 'c, 's) lock_config \<Rightarrow> bool" where
  "lock_inv cf \<longleftrightarrow>
     (\<forall>t. lk_owner cf = Some t \<longleftrightarrow> (\<exists>c. lk_calls cf t = Some c \<and> holds_lock c))
   \<and> (\<forall>t c. lk_calls cf t = Some c \<longrightarrow> on_branch (ss_use_cache (lk_storage cf)) c)
   \<and> finite (dom (lk_calls cf))"

lemma cache_ops_keep_use_cache [simp]:
  "ss_use_cache (cache_put lru i s st) = ss_use_cache st"
  "cache_lookup lru i st = (r, st') \<Longrightarrow> ss_use_cache st' = ss_use_cache st"
  by (auto simp: cache_put_def cache_lookup_def split: prod.splits)

text \<open>A step that leaves the lock alone, one that takes it, and one that gives it back.\<close>

lemma lock_inv_set:
  "lock_inv cf \<Longrightarrow> lk_calls cf t = Some c \<Longrightarrow> holds_lock c = holds_lock d \<Longrightarrow> on_branch (ss_use_cache (lk_storage cf)) d
    \<Longrightarrow> lk_owner cf1 = lk_owner cf \<Longrightarrow> lk_calls cf1 = lk_calls cf
    \<Longrightarrow> ss_use_cache (lk_storage cf1) = ss_use_cache (lk_storage cf) \<Longrightarrow> lock_inv (set_call t d cf1)"
  by (auto simp: lock_inv_def set_call_def)

lemma lock_inv_new:
  "lock_inv cf \<Longrightarrow> lk_calls cf t = None \<Longrightarrow> \<not> holds_lock c \<Longrightarrow> on_branch (ss_use_cache (lk_storage cf)) c \<Longrightarrow> lock_inv (set_call t c cf)"
  by (auto simp: lock_inv_def set_call_def)

lemma lock_inv_acquire:
  "lock_inv cf \<Longrightarrow> acquire t c cf = Some cf' \<Longrightarrow> holds_lock c \<Longrightarrow> on_branch (ss_use_cache (lk_storage cf)) c \<Longrightarrow> lock_inv cf'"
  unfolding lock_inv_def acquire_def set_call_def by (auto split: if_splits)

lemma lock_inv_release:
  "lock_inv cf \<Longrightarrow> lk_calls cf t = Some d \<Longrightarrow> holds_lock d \<Longrightarrow> \<not> holds_lock c \<Longrightarrow> on_branch (ss_use_cache (lk_storage cf)) c
    \<Longrightarrow> lock_inv (release t c cf)"
  unfolding lock_inv_def release_def set_call_def by (auto; metis option.inject)

lemma load_call_cases:
  assumes "load_call ft cp t i next cf = Some cf'"
  obtains (loaded) s w where "load_script ft cp i (lk_world cf) = (Ret s, w)" "cf' = set_call t (next s) (new_world w cf)"
    | (failed) e w where "load_script ft cp i (lk_world cf) = (Throw e, w)" "cf' = set_call t (Thrown i e) (new_world w cf)"
  using assms by (auto simp: load_call_def new_world_def split: prod.splits outcome.splits)

lemma load_call_inv:
  assumes "lock_inv cf" and "lk_calls cf t = Some c" and "load_call ft cp t i after cf = Some cf'"
    and "\<not> holds_lock c" and "\<And>s. \<not> holds_lock (after s) \<and> on_branch (ss_use_cache (lk_storage cf)) (after s)"
  shows "lock_inv cf'"
proof (rule load_call_cases [OF assms(3)])
  fix s w assume "cf' = set_call t (after s) (new_world w cf)"
  then show ?thesis using assms(4,5) by (auto simp: new_world_def intro: lock_inv_set [OF assms(1,2)])
next
  fix e w assume "cf' = set_call t (Thrown i e) (new_world w cf)"
  then show ?thesis using assms(4) by (auto simp: new_world_def intro: lock_inv_set [OF assms(1,2)])
qed

lemma call_step_inv:
  assumes "lock_inv cf" and "call_step ft cp lru t cf = Some cf'"
  shows "lock_inv cf'"
proof (cases "lk_calls cf t")
  case (Some c)
  note set = lock_inv_set [OF assms(1) Some] and give = lock_inv_release [OF assms(1) Some] and take = lock_inv_acquire [OF assms(1)]
    and load = load_call_inv [OF assms(1) Some]
  have branch: "on_branch (ss_use_cache (lk_storage cf)) c" using assms(1) Some by (auto simp: lock_inv_def)
  show ?thesis
  proof (cases c)
    case (GetLooking i)
    obtain r st where "cache_lookup lru i (lk_storage cf) = (r, st)" by fastforce
    with Some GetLooking assms(2) set [of "GetLooked i r" "cf\<lparr>lk_storage := st\<rparr>"] show ?thesis by (simp add: call_step_def)
  next
    case (GetLooked i r)
    with Some assms(2) give show ?thesis by (cases r) (auto simp: call_step_def)
  next
    case (GetUncached i)
    with Some assms(2) branch show ?thesis by (intro load [where after = "Returned i"]) (simp_all add: call_step_def)
  next
    case (GetLoading i)
    with Some assms(2) branch show ?thesis by (intro load [where after = "GetPutLocking i"]) (simp_all add: call_step_def)
  next
    case (RefreshLoading i)
    with Some assms(2) branch show ?thesis by (intro load [where after = "RefreshLocking i"]) (simp_all add: call_step_def)
  qed (use Some assms(2) branch in \<open>auto simp: call_step_def intro: set give take split: if_splits\<close>)
qed (use assms in \<open>simp add: call_step_def\<close>)

lemma lock_step_inv: "lock_step changes ft cp lru cf cf' \<Longrightarrow> lock_inv cf \<Longrightarrow> lock_inv cf'"
proof (induction rule: lock_step.induct)
  case (change cf w)
  then show ?case by (simp add: lock_inv_def new_world_def)
qed (auto simp: call_step_inv intro: lock_inv_new)

lemma initial_lock_inv: "lock_inv (initial_lock_config lru n w)"
  by (simp add: lock_inv_def initial_lock_config_def)

lemma reachable_lock_inv:
  "(lock_step changes ft cp lru)\<^sup>*\<^sup>* (initial_lock_config lru n w) cf \<Longrightarrow> lock_inv cf"
  by (induction rule: rtranclp_induct) (simp_all add: initial_lock_inv lock_step_inv)

lemma lock_is_exclusive:
  "lock_inv cf \<Longrightarrow> lk_calls cf t = Some c \<Longrightarrow> holds_lock c \<Longrightarrow> lk_calls cf u = Some d \<Longrightarrow> holds_lock d \<Longrightarrow> t = u"
  unfolding lock_inv_def by (metis option.inject)

section \<open>Refinement of the atomic sections\<close>

text \<open>
  A call that waits for the lock or has just got it has not begun its section; one that is still
  to give it back has finished it.
\<close>

fun abs_call :: "'s call_state \<Rightarrow> 's task" where
  "abs_call (GetEntered i) = GetStart i"
| "abs_call (GetUncached i) = GetStart i"
| "abs_call (GetLocking i) = GetStart i"
| "abs_call (GetLooking i) = GetStart i"
| "abs_call (GetLooked i None) = GetLoad i"
| "abs_call (GetLooked i (Some s)) = Finished i s"
| "abs_call (GetLoading i) = GetLoad i"
| "abs_call (GetPutLocking i s) = GetPut i s"
| "abs_call (GetPutting i s) = GetPut i s"
| "abs_call (GetPutDone i s) = Finished i s"
| "abs_call (RefreshLoading i) = RefreshStart i"
| "abs_call (RefreshLocking i s) = RefreshPut i s"
| "abs_call (RefreshPutting i s) = RefreshPut i s"
| "abs_call (RefreshPutDone i s) = Finished i s"
| "abs_call (Returned i s) = Finished i s"
| "abs_call (Thrown i e) = Failed i e"

definition abs_config :: "('w, 'c, 's) lock_config \<Rightarrow> ('w, 'c, 's) config" where
  "abs_config cf =
     \<lparr>cf_world = lk_world cf, cf_storage = lk_storage cf, cf_tasks = (\<lambda>t. map_option abs_call (lk_calls cf t)),
      cf_past = lk_past cf\<rparr>"

lemma abs_config_simps [simp]:
  "cf_world (abs_config cf) = lk_world cf" "cf_storage (abs_config cf) = lk_storage cf"
  "cf_tasks (abs_config cf) t = map_option abs_call (lk_calls cf t)" "cf_past (abs_config cf) = lk_past cf"
  by (simp_all add: abs_config_def)

lemma abs_set_call [simp]: "abs_config (set_call t c cf) = set_task t (abs_call c) (abs_config cf)"
  by (auto simp: abs_config_def set_call_def set_task_def)

lemma abs_new_world [simp]:
  "abs_config (new_world w cf) = (abs_config cf)\<lparr>cf_world := w, cf_past := w # cf_past (abs_config cf)\<rparr>"
  by (simp add: abs_config_def new_world_def)

lemma abs_storage [simp]: "abs_config (cf\<lparr>lk_storage := st\<rparr>) = (abs_config cf)\<lparr>cf_storage := st\<rparr>"
  and abs_owner [simp]: "abs_config (cf\<lparr>lk_owner := o1\<rparr>) = abs_config cf"
  by (simp_all add: abs_config_def)

lemma set_task_same [simp]: "cf_tasks cf t = Some task \<Longrightarrow> set_task t task cf = cf"
  by (simp add: set_task_def fun_upd_idem)

lemma abs_load_call:
  assumes "load_call ft cp t i next cf = Some cf'" and "\<And>s. abs_call (next s) = next' s"
  shows "abs_config cf' = load_task ft cp t i next' (abs_config cf)"
  using assms(2) by (rule_tac load_call_cases [OF assms(1)]) (simp_all add: load_task_def)

text \<open>A step of a call is a section of the task it stands for, or is not seen.\<close>

lemma call_step_simulates:
  assumes "lock_inv cf" and "call_step ft cp lru t cf = Some cf'"
  shows "abs_config cf' = abs_config cf \<or> abs_config cf' = advance ft cp lru t (abs_config cf)"
proof (cases "lk_calls cf t")
  case (Some c)
  have branch: "on_branch (ss_use_cache (lk_storage cf)) c" using assms(1) Some by (auto simp: lock_inv_def)
  show ?thesis
  proof (cases c)
    case (GetLooking i)
    obtain r st where "cache_lookup lru i (lk_storage cf) = (r, st)" by fastforce
    with Some GetLooking assms(2) branch show ?thesis
      by (cases r) (auto simp: call_step_def advance_def)
  next
    case (GetLooked i r)
    with Some assms(2) show ?thesis by (cases r) (auto simp: call_step_def release_def)
  qed (use Some assms(2) branch in \<open>auto simp: call_step_def advance_def acquire_def release_def abs_load_call split: if_splits\<close>)
qed (use assms in \<open>simp add: call_step_def\<close>)

lemma lock_step_simulates:
  assumes "lock_step changes ft cp lru cf cf'" and "lock_inv cf"
  shows "(conc_step changes ft cp lru)\<^sup>*\<^sup>* (abs_config cf) (abs_config cf')"
  using assms
proof (induction rule: lock_step.induct)
  case (go t cf cf')
  with call_step_simulates [OF go(2,1)] show ?case by (metis conc_step.run r_into_rtranclp rtranclp.rtrancl_refl)
next
  case (arrive_get cf t i)
  then have "conc_step changes ft cp lru (abs_config cf) (set_task t (GetStart i) (abs_config cf))"
    by (intro conc_step.call_get) simp
  then show ?case by simp
next
  case (arrive_refresh cf t i)
  then have "conc_step changes ft cp lru (abs_config cf) (set_task t (RefreshStart i) (abs_config cf))"
    by (intro conc_step.call_refresh) simp
  then show ?case by simp
next
  case (change cf w)
  then show ?case using conc_step.update [of changes "abs_config cf" w ft cp lru] by (simp add: r_into_rtranclp)
qed

lemma initial_abs: "abs_config (initial_lock_config lru n w) = initial_config lru n w"
  by (simp add: abs_config_def initial_lock_config_def initial_config_def)

lemma reachable_simulates:
  "(lock_step changes ft cp lru)\<^sup>*\<^sup>* (initial_lock_config lru n w) cf
    \<Longrightarrow> (conc_step changes ft cp lru)\<^sup>*\<^sup>* (initial_config lru n w) (abs_config cf)"
proof (induction rule: rtranclp_induct)
  case base
  show ?case by (simp add: initial_abs)
next
  case (step cf cf')
  from lock_step_simulates [OF step(2) reachable_lock_inv [OF step(1)]] step(3) show ?case by (metis rtranclp_trans)
qed

section \<open>Progress\<close>

text \<open>The steps a call still has to take, at most.\<close>

fun steps_left :: "'s call_state \<Rightarrow> nat" where
  "steps_left (GetEntered i) = 8"
| "steps_left (GetUncached i) = 1"
| "steps_left (GetLocking i) = 7"
| "steps_left (GetLooking i) = 6"
| "steps_left (GetLooked i r) = 5"
| "steps_left (GetLoading i) = 4"
| "steps_left (GetPutLocking i s) = 3"
| "steps_left (GetPutting i s) = 2"
| "steps_left (GetPutDone i s) = 1"
| "steps_left (RefreshLoading i) = 4"
| "steps_left (RefreshLocking i s) = 3"
| "steps_left (RefreshPutting i s) = 2"
| "steps_left (RefreshPutDone i s) = 1"
| "steps_left _ = 0"

lemma steps_left_le: "steps_left c \<le> 8"
  by (cases c) simp_all

definition total_left :: "('w, 'c, 's) lock_config \<Rightarrow> nat" where
  "total_left cf = (\<Sum>t\<in>dom (lk_calls cf). steps_left (the (lk_calls cf t)))"

lemma total_left_le: "finite (dom (lk_calls cf)) \<Longrightarrow> total_left cf \<le> 8 * card (dom (lk_calls cf))"
  unfolding total_left_def using sum_bounded_above [of "dom (lk_calls cf)" _ 8] steps_left_le by (metis mult.commute of_nat_id)

lemma load_call_left:
  assumes "load_call ft cp t i after cf = Some cf'" and "\<And>s. steps_left (after s) < n" and "0 < n"
  shows "\<exists>d. lk_calls cf' = (lk_calls cf)(t \<mapsto> d) \<and> steps_left d < n"
  using assms(2,3) by (rule_tac load_call_cases [OF assms(1)]) (auto simp: set_call_def new_world_def)

lemma call_step_left:
  assumes "call_step ft cp lru t cf = Some cf'"
  obtains c d where "lk_calls cf t = Some c" "lk_calls cf' = (lk_calls cf)(t \<mapsto> d)" "steps_left d < steps_left c"
proof (cases "lk_calls cf t")
  case (Some c)
  have "\<exists>d. lk_calls cf' = (lk_calls cf)(t \<mapsto> d) \<and> steps_left d < steps_left c"
  proof (cases c)
    case (GetUncached i)
    with Some assms show ?thesis by (intro load_call_left [where after = "Returned i"]) (simp_all add: call_step_def)
  next
    case (GetLoading i)
    with Some assms show ?thesis by (intro load_call_left [where after = "GetPutLocking i"]) (simp_all add: call_step_def)
  next
    case (RefreshLoading i)
    with Some assms show ?thesis by (intro load_call_left [where after = "RefreshLocking i"]) (simp_all add: call_step_def)
  qed (use Some assms in \<open>auto simp: call_step_def acquire_def release_def set_call_def split: if_splits option.splits prod.splits\<close>)
  with Some that show thesis by blast
qed (use assms in \<open>simp add: call_step_def\<close>)

lemma call_step_total:
  assumes "call_step ft cp lru t cf = Some cf'" and "finite (dom (lk_calls cf))"
  shows "total_left cf' < total_left cf" and "dom (lk_calls cf') = dom (lk_calls cf)"
proof -
  obtain c d where c: "lk_calls cf t = Some c" "lk_calls cf' = (lk_calls cf)(t \<mapsto> d)" "steps_left d < steps_left c"
    by (rule call_step_left [OF assms(1)])
  then show dom: "dom (lk_calls cf') = dom (lk_calls cf)" by auto
  have t: "t \<in> dom (lk_calls cf)" using c(1) by blast
  show "total_left cf' < total_left cf"
    unfolding total_left_def dom
    by (rule sum_strict_mono_ex1 [OF assms(2)]) (use c t in \<open>auto intro!: bexI [of _ t]\<close>)
qed

text \<open>
  A run in which no call arrives: \<open>n\<close> steps of calls, and changes to the database between them.
\<close>

inductive quiet_run ::
  "('w \<Rightarrow> 'w \<Rightarrow> bool) \<Rightarrow> 'w fetcher_base \<Rightarrow> 'x compiler_base \<Rightarrow> ('x, 'c) script_lru \<Rightarrow> nat
    \<Rightarrow> ('w, 'c, 'x script_base_scheme) lock_config \<Rightarrow> ('w, 'c, 'x script_base_scheme) lock_config \<Rightarrow> bool"
  for changes ft cp lru where
  rest: "quiet_run changes ft cp lru 0 cf cf"
| step: "quiet_run changes ft cp lru n cf cf1 \<Longrightarrow> call_step ft cp lru t cf1 = Some cf2 \<Longrightarrow> quiet_run changes ft cp lru (Suc n) cf cf2"
| other: "quiet_run changes ft cp lru n cf cf1 \<Longrightarrow> changes (lk_world cf1) w \<Longrightarrow> quiet_run changes ft cp lru n cf (new_world w cf1)"

lemma quiet_run_left:
  "quiet_run changes ft cp lru n cf cf' \<Longrightarrow> lock_inv cf
    \<Longrightarrow> lock_inv cf' \<and> dom (lk_calls cf') = dom (lk_calls cf) \<and> total_left cf' + n \<le> total_left cf"
proof (induction rule: quiet_run.induct)
  case (step n cf cf1 t cf2)
  then have "finite (dom (lk_calls cf1))" by (simp add: lock_inv_def)
  from call_step_total [OF step(2) this] call_step_inv [OF _ step(2)] step(3,4) show ?case by auto
next
  case (other n cf cf1 w)
  then have "lock_inv (new_world w cf1)" by (intro lock_step_inv [OF lock_step.change [where changes = changes]]) auto
  moreover have "lk_calls (new_world w cf1) = lk_calls cf1" "total_left (new_world w cf1) = total_left cf1"
    by (simp_all add: new_world_def total_left_def)
  ultimately show ?case using other by simp
qed simp

text \<open>The call that has the lock never waits; if no call has it, none has to wait.\<close>

lemma holder_goes_on:
  "lk_calls cf t = Some c \<Longrightarrow> holds_lock c \<Longrightarrow> \<exists>cf'. call_step ft cp lru t cf = Some cf'"
  by (cases c) (auto simp: call_step_def split: prod.split)

context scripts_storage_env
begin

lemma load_call_goes_on: "\<exists>cf'. load_call ft cp t i after cf = Some cf'"
  by (rule load_script_cases [of i "lk_world cf"]) (simp_all add: load_call_def)

lemma some_call_goes_on:
  assumes "lock_inv cf" and "lk_calls cf t = Some c" and "\<not> ended c"
  shows "\<exists>u cf'. call_step ft cp lru u cf = Some cf'"
proof (cases "lk_owner cf")
  case None
  with assms(2,3) load_call_goes_on have "\<exists>cf'. call_step ft cp lru t cf = Some cf'"
    by (cases c) (auto simp: call_step_def acquire_def split: prod.split)
  then show ?thesis by blast
next
  case (Some u)
  then obtain d where "lk_calls cf u = Some d" "holds_lock d" using assms(1) unfolding lock_inv_def by blast
  with holder_goes_on show ?thesis by blast
qed

end

section \<open>Schedules\<close>

text \<open>A schedule of calls that can be evaluated; a call that has to wait stays where it is.\<close>

datatype call_event = Go nat | GetArrives nat script_id | RefreshArrives nat script_id

fun call_event_step ::
  "'w fetcher_base \<Rightarrow> 'x compiler_base \<Rightarrow> ('x, 'c) script_lru \<Rightarrow> call_event
    \<Rightarrow> ('w, 'c, 'x script_base_scheme) lock_config \<Rightarrow> ('w, 'c, 'x script_base_scheme) lock_config" where
  "call_event_step ft cp lru (Go t) cf = (case call_step ft cp lru t cf of None \<Rightarrow> cf | Some cf' \<Rightarrow> cf')"
| "call_event_step ft cp lru (GetArrives t i) cf = (if lk_calls cf t = None then set_call t (GetEntered i) cf else cf)"
| "call_event_step ft cp lru (RefreshArrives t i) cf = (if lk_calls cf t = None then set_call t (RefreshLoading i) cf else cf)"

definition lock_play ::
  "'w fetcher_base \<Rightarrow> 'x compiler_base \<Rightarrow> ('x, 'c) script_lru \<Rightarrow> call_event list
    \<Rightarrow> ('w, 'c, 'x script_base_scheme) lock_config \<Rightarrow> ('w, 'c, 'x script_base_scheme) lock_config" where
  "lock_play ft cp lru = fold (call_event_step ft cp lru)"

lemma lock_play_simps [simp]:
  "lock_play ft cp lru [] cf = cf"
  "lock_play ft cp lru (e # es) cf = lock_play ft cp lru es (call_event_step ft cp lru e cf)"
  by (simp_all add: lock_play_def)

lemma lock_play_steps: "(lock_step changes ft cp lru)\<^sup>*\<^sup>* cf (lock_play ft cp lru es cf)"
proof (induction es arbitrary: cf)
  case (Cons e es)
  have "(lock_step changes ft cp lru)\<^sup>*\<^sup>* cf (call_event_step ft cp lru e cf)"
    by (cases e) (auto intro: lock_step.intros split: option.split)
  with Cons.IH show ?case by (simp add: rtranclp_trans)
qed simp

lemma lock_play_quiet: "\<exists>n. quiet_run changes ft cp lru n cf (lock_play ft cp lru (map Go ts) cf)"
proof (induction ts rule: rev_induct)
  case Nil
  show ?case by (auto intro: quiet_run.rest)
next
  case (snoc t ts)
  then show ?case
    by (auto simp: lock_play_def intro: quiet_run.step split: option.split)
qed

section \<open>A lost refresh\<close>

text \<open>
  Call 1 misses and loads a script; after a change of the database call 2 refreshes it, to the end;
  call 1 stores what it has loaded; call 3 arrives.
\<close>

definition misses_and_loads :: "script_id \<Rightarrow> call_event list" where
  "misses_and_loads i = [GetArrives 1 i, Go 1, Go 1, Go 1, Go 1, Go 1]"

definition refreshes :: "script_id \<Rightarrow> call_event list" where
  "refreshes i = [RefreshArrives 2 i, Go 2, Go 2, Go 2, Go 2]"

definition stores_and_arrives :: "script_id \<Rightarrow> call_event list" where
  "stores_and_arrives i = [Go 1, Go 1, Go 1, GetArrives 3 i, Go 3, Go 3, Go 3, Go 3]"

context scripts_storage_env
begin

lemma refresh_is_overwritten:
  assumes "0 < n" and "load_script ft cp i w = (Ret s1, w)" and "load_script ft cp i v = (Ret s2, v)" and "changes w v"
  shows "\<exists>cf1 cf2. (lock_step changes ft cp lru)\<^sup>*\<^sup>* (initial_lock_config lru n w) cf1
    \<and> lk_world cf1 = v \<and> lk_calls cf1 2 = Some (Returned i s2) \<and> lk_calls cf1 3 = None
    \<and> contents (ss_scripts (lk_storage cf1)) i = Some s2
    \<and> (lock_step changes ft cp lru)\<^sup>*\<^sup>* cf1 cf2
    \<and> lk_world cf2 = v \<and> lk_calls cf2 3 = Some (Returned i s1)
    \<and> contents (ss_scripts (lk_storage cf2)) i = Some s1"
proof -
  let ?S = "new_scripts_storage lru n" and ?play = "lock_play ft cp lru"
  have inv: "cache_inv lang contents ok ?S" by (rule new_storage_inv [OF assms(1)])
  have use: "ss_use_cache ?S" using assms(1) by (auto simp: new_scripts_storage_def)
  have "contents (ss_scripts ?S) i = None" by (simp add: new_scripts_storage_def LruNew_contents)
  with cache_lookup_eq [OF inv, of i] obtain S1 where S1: "cache_lookup lru i ?S = (None, S1)" "cache_inv lang contents ok S1" by metis
  note put2 = cache_put_inv [OF S1(2) load_script_stamped [OF assms(3)]]
  note put1 = cache_put_inv [OF put2(1) load_script_stamped [OF assms(2)]]
  let ?S2 = "cache_put lru i s2 S1"
  let ?S3 = "cache_put lru i s1 ?S2"
  obtain S4 where S4: "cache_lookup lru i ?S3 = (Some s1, S4)" "contents (ss_scripts S4) = contents (ss_scripts ?S3)"
    using cache_lookup_eq [OF put1(1), of i] put1(2) by metis
  have use1: "ss_use_cache S1" using use S1(1) by simp
  define A where "A = ?play (misses_and_loads i) (initial_lock_config lru n w)"
  have A: "lk_world A = w" "lk_storage A = S1" "lk_calls A = [1 \<mapsto> GetPutLocking i s1]" "lk_owner A = None"
    by (simp_all add: A_def misses_and_loads_def initial_lock_config_def lock_defs use S1(1) assms(2) numeral_eq_Suc)
  define B where "B = ?play (refreshes i) (new_world v A)"
  have B: "lk_world B = v" "lk_storage B = ?S2" "lk_calls B = [1 \<mapsto> GetPutLocking i s1, 2 \<mapsto> Returned i s2]" "lk_owner B = None"
    by (simp_all add: B_def refreshes_def new_world_def lock_defs A assms(3))
  define C where "C = ?play (stores_and_arrives i) B"
  have C: "lk_world C = v" "lk_calls C 3 = Some (Returned i s1)" "lk_storage C = S4"
    by (simp_all add: C_def stores_and_arrives_def lock_defs B use1 S4(1))
  have "lock_step changes ft cp lru A (new_world v A)" using lock_step.change [of changes A v ft cp lru] assms(4) A(1) by simp
  then have "(lock_step changes ft cp lru)\<^sup>*\<^sup>* (initial_lock_config lru n w) B"
    using lock_play_steps [of changes ft cp lru "initial_lock_config lru n w" "misses_and_loads i"]
      lock_play_steps [of changes ft cp lru "new_world v A" "refreshes i"]
    unfolding A_def [symmetric] B_def [symmetric] by (meson rtranclp.rtrancl_into_rtrancl rtranclp_trans)
  moreover have "(lock_step changes ft cp lru)\<^sup>*\<^sup>* B C" unfolding C_def by (rule lock_play_steps)
  ultimately show ?thesis using B C put2(2) put1(2) S4(2) by (intro exI [of _ B] exI [of _ C]) simp
qed

end

section \<open>Properties\<close>

text \<open>
  C24. The lock makes the sections atomic: at most one call is in a section, and every run of the
  code with its lock, with calls that wait for it and are overtaken, is a run of the atomic
  sections of \<open>Scripts_Storage_Tasks\<close>, with the same cache, the same database and the same results.
\<close>

theorem lock_refines_atomic_sections:
  assumes "(lock_step changes ft cp lru)\<^sup>*\<^sup>* (initial_lock_config lru max_cache_size w) cf"
  shows "(conc_step changes ft cp lru)\<^sup>*\<^sup>* (initial_config lru max_cache_size w) (abs_config cf)
    \<and> cf_storage (abs_config cf) = lk_storage cf \<and> cf_world (abs_config cf) = lk_world cf
    \<and> (\<forall>t i s. lk_calls cf t = Some (Returned i s) \<longrightarrow> cf_tasks (abs_config cf) t = Some (Finished i s))
    \<and> (\<forall>t u c d. lk_calls cf t = Some c \<and> holds_lock c \<and> lk_calls cf u = Some d \<and> holds_lock d \<longrightarrow> t = u)"
  using reachable_simulates [OF assms] lock_is_exclusive [OF reachable_lock_inv [OF assms]] by auto

theorem lock_refines_atomic_sections_witness:
  "let cf = lock_play (db_scripts_fetcher ref_pg) sample_compiler ref_lru
       [GetArrives 1 7, RefreshArrives 2 7, Go 2, Go 2, Go 1, Go 1, Go 2, Go 2, Go 1, Go 1, Go 1]
       (initial_lock_config ref_lru 2 sample_db)
   in (\<exists>s. lk_calls cf 1 = Some (Returned 7 s) \<and> lk_calls cf 2 = Some (Returned 7 s))
    \<and> (conc_step (\<lambda>_ _. False) (db_scripts_fetcher ref_pg) sample_compiler ref_lru)\<^sup>*\<^sup>*
        (initial_config ref_lru 2 sample_db) (abs_config cf)"
  unfolding Let_def
  by (intro conjI lock_refines_atomic_sections [OF lock_play_steps, THEN conjunct1])
    (simp add: task_simps lock_defs initial_lock_config_def)

text \<open>
  C32. No call waits for ever. From any state the store can get to, with any calls under way and
  whatever the database does, a run in which no call arrives has at most eight steps for each
  call; and when no call can go on, every one of them has returned or thrown: there is no deadlock.
\<close>

theorem every_call_finishes:
  assumes env: "scripts_storage_env ft cp lang lru contents capacity ok"
    and reached: "(lock_step changes ft cp lru)\<^sup>*\<^sup>* (initial_lock_config lru max_cache_size w) cf"
    and run: "quiet_run changes ft cp lru n cf cf'"
  shows "n \<le> 8 * card (dom (lk_calls cf))
    \<and> ((\<forall>t. call_step ft cp lru t cf' = None) \<longrightarrow>
        (\<forall>t\<in>dom (lk_calls cf). \<exists>i. (\<exists>s. lk_calls cf' t = Some (Returned i s)) \<or> (\<exists>e. lk_calls cf' t = Some (Thrown i e))))"
proof (intro conjI impI ballI)
  have inv: "lock_inv cf" by (rule reachable_lock_inv [OF reached])
  note after = quiet_run_left [OF run inv]
  show "n \<le> 8 * card (dom (lk_calls cf))"
    using after total_left_le [of cf] inv by (simp add: lock_inv_def)
  fix t assume still: "\<forall>t. call_step ft cp lru t cf' = None" and "t \<in> dom (lk_calls cf)"
  then have "t \<in> dom (lk_calls cf')" using after by simp
  then obtain c where c: "lk_calls cf' t = Some c" by blast
  have "ended c" using scripts_storage_env.some_call_goes_on [OF env _ c] after still by fastforce
  with c show "\<exists>i. (\<exists>s. lk_calls cf' t = Some (Returned i s)) \<or> (\<exists>e. lk_calls cf' t = Some (Thrown i e))"
    by (cases c) auto
qed

theorem every_call_finishes_witness:
  "let cf = lock_play (db_scripts_fetcher ref_pg) sample_compiler ref_lru [GetArrives 1 7, RefreshArrives 2 9, Go 1, Go 1]
       (initial_lock_config ref_lru 2 sample_db);
     cf' = lock_play (db_scripts_fetcher ref_pg) sample_compiler ref_lru (map Go [1, 2, 1, 1, 1, 1, 1, 1]) cf
   in \<forall>t\<in>{1, 2}. \<exists>i. (\<exists>s. lk_calls cf' t = Some (Returned i s)) \<or> (\<exists>e. lk_calls cf' t = Some (Thrown i e))"
proof -
  let ?play = "lock_play (db_scripts_fetcher ref_pg) sample_compiler ref_lru"
  let ?cf = "?play [GetArrives 1 7, RefreshArrives 2 9, Go 1, Go 1] (initial_lock_config ref_lru 2 sample_db)"
  let ?cf' = "?play (map Go [1, 2, 1, 1, 1, 1, 1, 1]) ?cf"
  obtain n where n: "quiet_run (\<lambda>_ _. True) (db_scripts_fetcher ref_pg) sample_compiler ref_lru n ?cf ?cf'"
    using lock_play_quiet by blast
  have "dom (lk_calls ?cf) = {1, 2}" "\<forall>t. call_step (db_scripts_fetcher ref_pg) sample_compiler ref_lru t ?cf' = None"
    by (auto simp: task_simps lock_defs initial_lock_config_def throwS_def)
  with every_call_finishes [OF sample_env lock_play_steps n] show ?thesis unfolding Let_def by blast
qed

text \<open>
  C34. A refresh can be lost, whatever the script, the database and the cache are. Let a script
  load as \<open>s1\<close>, and as \<open>s2\<close> after a change to the database. There is a run in which \<open>Refresh\<close>
  returns after the change with \<open>s2\<close> in the cache, the database does not change any more, and a
  call of \<open>Get\<close> that arrives only then is served \<open>s1\<close>: a caller had fetched the old version and not
  yet stored it, and stored it over the refreshed one, where it stays.
\<close>

theorem refresh_can_be_lost:
  assumes "scripts_storage_env ft cp lang lru contents capacity ok" and "0 < max_cache_size"
    and "load_script ft cp i w = (Ret s1, w)" and "load_script ft cp i v = (Ret s2, v)" and "changes w v"
    and "s1 \<noteq> s2"
  shows "\<exists>cf1 cf2. (lock_step changes ft cp lru)\<^sup>*\<^sup>* (initial_lock_config lru max_cache_size w) cf1
    \<and> lk_calls cf1 2 = Some (Returned i s2) \<and> contents (ss_scripts (lk_storage cf1)) i = Some s2
    \<and> lk_calls cf1 3 = None
    \<and> (lock_step changes ft cp lru)\<^sup>*\<^sup>* cf1 cf2
    \<and> lk_calls cf2 3 = Some (Returned i s1) \<and> contents (ss_scripts (lk_storage cf2)) i = Some s1
    \<and> fst (load_script ft cp i (lk_world cf2)) \<noteq> Ret s1"
  using scripts_storage_env.refresh_is_overwritten [where changes = changes and w = w and v = v, OF assms(1-5)] assms(4,6) by fastforce

definition updated_db :: db_tables where
  "updated_db = sample_db\<lparr>db_scripts := [7 \<mapsto> (Some 1, ''return 1'')]\<rparr>"

theorem refresh_can_be_lost_witness:
  "\<exists>cf1 cf2. (lock_step (\<lambda>_ v. v = updated_db) (db_scripts_fetcher ref_pg) sample_compiler ref_lru)\<^sup>*\<^sup>*
        (initial_lock_config ref_lru 2 sample_db) cf1
    \<and> (\<exists>s. lk_calls cf1 2 = Some (Returned 7 s) \<and> lua_snippet s = ''return 1'') \<and> lk_calls cf1 3 = None
    \<and> (lock_step (\<lambda>_ v. v = updated_db) (db_scripts_fetcher ref_pg) sample_compiler ref_lru)\<^sup>*\<^sup>* cf1 cf2
    \<and> (\<exists>s. lk_calls cf2 3 = Some (Returned 7 s) \<and> lua_snippet s = ''return'')"
proof -
  obtain s1 s2 where load: "load_script (db_scripts_fetcher ref_pg) sample_compiler 7 sample_db = (Ret s1, sample_db)"
    "load_script (db_scripts_fetcher ref_pg) sample_compiler 7 updated_db = (Ret s2, updated_db)"
    and snippets: "lua_snippet s1 = ''return''" "lua_snippet s2 = ''return 1''"
    by (simp add: updated_db_def task_simps)
  from snippets have "s1 \<noteq> s2" by auto
  from refresh_can_be_lost [where changes = "\<lambda>_ v. v = updated_db", OF sample_env _ load refl this, of 2] snippets
  show ?thesis by auto
qed

end
