(* ===== verification/Instance_Registrator.thy ===== *)
theory Instance_Registrator
  imports Postgres
begin

text \<open>
  The component \<open>InstanceRegistrator\<close>, which enters a starting service into the table of
  running instances and removes it when it stops, and the fleet of processes that do so
  over one database.
\<close>

section \<open>The component\<close>

record instance_info =
  hostname :: string
  port :: uint16

text \<open>The constructor reads both from the configuration, whose lookups are arguments.\<close>

definition instance_registrator ::
  "(string \<Rightarrow> string outcome) \<Rightarrow> (string \<Rightarrow> uint16 outcome) \<Rightarrow> instance_info outcome" where
  "instance_registrator as_string as_uint16 =
     bindO (as_string ''hostname'') (\<lambda>h.
     bindO (as_uint16 ''port'') (\<lambda>p.
     Ret \<lparr>hostname = h, port = p\<rparr>))"

definition instance_text :: "string \<Rightarrow> instance_info \<Rightarrow> string" where
  "instance_text verb info =
     verb @ '' instance (hostname = '' @ hostname info @ '', port = '' @ decimal (unat (port info)) @ '')''"

definition on_all_components_loaded :: "'w pg_cluster \<Rightarrow> instance_info \<Rightarrow> ('w, unit) action" where
  "on_all_components_loaded pg info =
     bindS (Execute pg kMaster CreateInstances) (\<lambda>_.
     bindS (Execute pg kMaster (InsertInstance (hostname info) (port info))) (\<lambda>result.
     if rows_affected result \<noteq> 1
     then throwS (StdException (instance_text ''Can't register'' info))
     else returnS ()))"

text \<open>The result is the critical message that is logged, if one is.\<close>

definition on_all_components_are_stopping :: "'w pg_cluster \<Rightarrow> instance_info \<Rightarrow> ('w, string option) action" where
  "on_all_components_are_stopping pg info =
     bindS (Execute pg kMaster (DeleteInstance (hostname info) (port info))) (\<lambda>result.
     if rows_affected result \<noteq> 1
     then returnS (Some (instance_text ''Can't unregister'' info))
     else returnS None)"

section \<open>The fleet\<close>

definition address :: "instance_info \<Rightarrow> string \<times> uint16" where
  "address info = (hostname info, port info)"

definition registered :: "db_tables \<Rightarrow> (string \<times> uint16) set" where
  "registered db = (case db_instances db of None \<Rightarrow> {} | Some is \<Rightarrow> set is)"

definition no_twins :: "db_tables \<Rightarrow> bool" where
  "no_twins db = (case db_instances db of None \<Rightarrow> True | Some is \<Rightarrow> distinct is)"

text \<open>
  The processes by number, each with the address it was configured with. A process may also
  end without the stopping callback. What the framework does with a component whose
  \<open>OnAllComponentsLoaded\<close> has thrown is not in the code of the service, so it is a parameter:
  \<open>cleans\<close> says whether it still runs \<open>OnAllComponentsAreStopping\<close> when it takes the failed
  process down; the two callbacks are then one step of the fleet, with nothing of another process
  between them. The properties below state what follows in either case.
\<close>

record 'w fleet =
  fl_world :: 'w
  fl_running :: "nat \<Rightarrow> instance_info option"

inductive fleet_step :: "'w pg_cluster \<Rightarrow> bool \<Rightarrow> 'w fleet \<Rightarrow> 'w fleet \<Rightarrow> bool" for pg cleans where
  start: "fl_running f p = None \<Longrightarrow> on_all_components_loaded pg info (fl_world f) = (Ret (), w)
    \<Longrightarrow> fleet_step pg cleans f \<lparr>fl_world = w, fl_running = (fl_running f)(p \<mapsto> info)\<rparr>"
| start_failed: "fl_running f p = None \<Longrightarrow> on_all_components_loaded pg info (fl_world f) = (Throw e, w)
    \<Longrightarrow> \<not> cleans \<Longrightarrow> fleet_step pg cleans f (f\<lparr>fl_world := w\<rparr>)"
| start_failed_stops: "fl_running f p = None \<Longrightarrow> on_all_components_loaded pg info (fl_world f) = (Throw e, w)
    \<Longrightarrow> cleans \<Longrightarrow> on_all_components_are_stopping pg info w = (r, v)
    \<Longrightarrow> fleet_step pg cleans f (f\<lparr>fl_world := v\<rparr>)"
| stop: "fl_running f p = Some info \<Longrightarrow> on_all_components_are_stopping pg info (fl_world f) = (r, w)
    \<Longrightarrow> fleet_step pg cleans f \<lparr>fl_world = w, fl_running = (fl_running f)(p := None)\<rparr>"
| crash: "fleet_step pg cleans f (f\<lparr>fl_running := (fl_running f)(p := None)\<rparr>)"

inductive_cases fleet_stepE: "fleet_step pg cleans f f'"

definition fleet_inv :: "('w \<Rightarrow> db_tables) \<Rightarrow> 'w fleet \<Rightarrow> bool" where
  "fleet_inv tables f \<longleftrightarrow>
     (\<forall>p info. fl_running f p = Some info \<longrightarrow> address info \<in> registered (tables (fl_world f)))
   \<and> (\<forall>p q info info'. fl_running f p = Some info \<longrightarrow> fl_running f q = Some info'
        \<longrightarrow> address info = address info' \<longrightarrow> p = q)"

section \<open>What the operations do to the table\<close>

context postgres_laws
begin

lemma registered_effects [simp]:
  "registered (sql_effect CreateInstances db) = registered db"
  "registered (sql_effect (InsertInstance h p) (sql_effect CreateInstances db)) = insert (h, p) (registered db)"
  "registered (sql_effect (DeleteInstance h p) db) = registered db - {(h, p)}"
  by (auto simp: registered_def split: option.splits)

lemma insert_affected:
  "sql_affected (InsertInstance h p) (sql_effect CreateInstances db) = (if (h, p) \<in> registered db then 0 else 1)"
  by (auto simp: registered_def split: option.splits)

lemma loaded_cases:
  obtains (fresh) w' where "on_all_components_loaded pg info w = (Ret (), w')"
      "address info \<notin> registered (tables w)" "registered (tables w') = insert (address info) (registered (tables w))"
    | (taken) w' where "on_all_components_loaded pg info w = (Throw (StdException (instance_text ''Can't register'' info)), w')"
      "address info \<in> registered (tables w)" "registered (tables w') = registered (tables w)"
    | (failed) e w' where "on_all_components_loaded pg info w = (Throw e, w')" "is_std_exception e"
      "registered (tables w') = registered (tables w) \<or> registered (tables w') = insert (address info) (registered (tables w))"
proof (rule Execute_cases [of kMaster CreateInstances w])
  let ?st = "InsertInstance (hostname info) (port info)"
  fix r1 w1 assume c: "Execute pg kMaster CreateInstances w = (Ret r1, w1)"
    "tables w1 = sql_effect CreateInstances (tables w)"
  show thesis
  proof (rule Execute_cases [of kMaster ?st w1])
    fix r2 w2 assume i: "Execute pg kMaster ?st w1 = (Ret r2, w2)" "tables w2 = sql_effect ?st (tables w1)"
      "rows_affected r2 = sql_affected ?st (tables w1)"
    show thesis
    proof (cases "address info \<in> registered (tables w)")
      case True
      with c i show ?thesis
        by (intro taken [of w2])
          (auto simp: on_all_components_loaded_def outcome_simps insert_affected address_def simp del: sql_effect.simps sql_affected.simps)
    next
      case False
      with c i show ?thesis
        by (intro fresh [of w2])
          (simp_all add: on_all_components_loaded_def outcome_simps insert_affected address_def del: sql_effect.simps sql_affected.simps)
    qed
  next
    fix e w2 assume "Execute pg kMaster ?st w1 = (Throw e, w2)" "is_std_exception e"
      "tables w2 = tables w1 \<or> tables w2 = sql_effect ?st (tables w1)"
    with c show thesis
      by (intro failed [of e w2]) (auto simp: on_all_components_loaded_def outcome_simps address_def simp del: sql_effect.simps)
  qed
next
  fix e w1 assume "Execute pg kMaster CreateInstances w = (Throw e, w1)" "is_std_exception e"
    "tables w1 = tables w \<or> tables w1 = sql_effect CreateInstances (tables w)"
  then show thesis
    by (intro failed [of e w1]) (auto simp: on_all_components_loaded_def outcome_simps simp del: sql_effect.simps)
qed

lemma stopping_registered:
  assumes "on_all_components_are_stopping pg info w = (r, w')"
  shows "registered (tables w) - {address info} \<subseteq> registered (tables w')"
    and "r = Ret m \<Longrightarrow> registered (tables w') = registered (tables w) - {address info}"
proof -
  let ?st = "DeleteInstance (hostname info) (port info)"
  have "(registered (tables w) - {address info} \<subseteq> registered (tables w')) \<and>
    (r = Ret m \<longrightarrow> registered (tables w') = registered (tables w) - {address info})"
    using assms
    by (rule_tac Execute_cases [of kMaster ?st w])
      (auto simp: on_all_components_are_stopping_def outcome_simps address_def
        simp del: sql_effect.simps sql_affected.simps split: if_splits)
  then show "registered (tables w) - {address info} \<subseteq> registered (tables w')"
    "r = Ret m \<Longrightarrow> registered (tables w') = registered (tables w) - {address info}" by blast+
qed

lemma fleet_step_inv:
  assumes "fleet_step pg False f f'" and "fleet_inv tables f"
  shows "fleet_inv tables f'"
  using assms
proof (cases rule: fleet_step.cases)
  case (start p info w)
  then have "address info \<notin> registered (tables (fl_world f))"
    "registered (tables w) = insert (address info) (registered (tables (fl_world f)))"
    by (rule_tac loaded_cases [of info "fl_world f"]; simp)+
  with start assms(2) show ?thesis unfolding fleet_inv_def by (auto split: if_splits; metis)
next
  case (start_failed p info e w)
  then have "registered (tables (fl_world f)) \<subseteq> registered (tables w)"
    by (rule_tac loaded_cases [of info "fl_world f"]) auto
  with start_failed assms(2) show ?thesis unfolding fleet_inv_def by auto
next
  case (stop p info r w)
  with stopping_registered(1) [OF stop(3)] assms(2) show ?thesis
    unfolding fleet_inv_def by (auto split: if_splits)
next
  case (crash p)
  with assms(2) show ?thesis unfolding fleet_inv_def by (auto split: if_splits)
qed simp

lemma fleet_reachable_inv:
  "(fleet_step pg False)\<^sup>*\<^sup>* \<lparr>fl_world = w, fl_running = Map.empty\<rparr> f \<Longrightarrow> fleet_inv tables f"
  by (induction rule: rtranclp_induct) (simp add: fleet_inv_def, rule fleet_step_inv)

text \<open>An address that is in the table and that no running process has.\<close>

definition locked_out :: "string \<times> uint16 \<Rightarrow> 'w fleet \<Rightarrow> bool" where
  "locked_out a f \<longleftrightarrow> a \<in> registered (tables (fl_world f)) \<and> (\<forall>p info. fl_running f p = Some info \<longrightarrow> address info \<noteq> a)"

lemma fleet_step_locked_out:
  assumes "fleet_step pg False f f'" and "locked_out a f"
  shows "locked_out a f'"
  using assms
proof (cases rule: fleet_step.cases)
  case (start p info w)
  then have "address info \<notin> registered (tables (fl_world f))"
    "registered (tables w) = insert (address info) (registered (tables (fl_world f)))"
    by (rule_tac loaded_cases [of info "fl_world f"]; simp)+
  with start assms(2) show ?thesis unfolding locked_out_def by auto
next
  case (start_failed p info e w)
  then have "registered (tables (fl_world f)) \<subseteq> registered (tables w)"
    by (rule_tac loaded_cases [of info "fl_world f"]) auto
  with start_failed assms(2) show ?thesis unfolding locked_out_def by auto
next
  case (stop p info r w)
  with stopping_registered(1) [OF stop(3)] assms(2) show ?thesis unfolding locked_out_def by auto
qed (use assms in \<open>auto simp: locked_out_def\<close>)

lemma fleet_reachable_locked_out: "(fleet_step pg False)\<^sup>*\<^sup>* f f' \<Longrightarrow> locked_out a f \<Longrightarrow> locked_out a f'"
  by (induction rule: rtranclp_induct) (auto intro: fleet_step_locked_out)

lemma crash_locks_out:
  assumes "fleet_inv tables f" and "fl_running f p = Some info"
  shows "locked_out (address info) (f\<lparr>fl_running := (fl_running f)(p := None)\<rparr>)"
  using assms unfolding fleet_inv_def locked_out_def by auto

lemma crashed_stays_out:
  assumes "(fleet_step pg False)\<^sup>*\<^sup>* \<lparr>fl_world = w, fl_running = Map.empty\<rparr> f" and "fl_running f p = Some info"
    and "(fleet_step pg False)\<^sup>*\<^sup>* (f\<lparr>fl_running := (fl_running f)(p := None)\<rparr>) f'"
  shows "(\<forall>q info'. fl_running f' q = Some info' \<longrightarrow> address info' \<noteq> address info)
    \<and> (\<nexists>w'. on_all_components_loaded pg info (fl_world f') = (Ret (), w'))"
proof -
  have "locked_out (address info) f'"
    using fleet_reachable_locked_out [OF assms(3) crash_locks_out [OF fleet_reachable_inv [OF assms(1)] assms(2)]] .
  then show ?thesis
    by (rule_tac loaded_cases [of info "fl_world f'"]) (auto simp: locked_out_def)
qed

text \<open>
  A start that fails and is followed by the stopping callback: whatever the reason was, the
  entry of the address is gone, and if the database goes along the next start succeeds.
\<close>

lemma stopped_after_failure:
  assumes "on_all_components_are_stopping pg info w1 = (Ret m, w2)"
  shows "address info \<notin> registered (tables w2)"
    and "Execute pg kMaster CreateInstances w2 = (Ret r1, v1)
      \<Longrightarrow> Execute pg kMaster (InsertInstance (hostname info) (port info)) v1 = (Ret r2, v2)
      \<Longrightarrow> on_all_components_loaded pg info w2 = (Ret (), v2)"
proof -
  show gone: "address info \<notin> registered (tables w2)" using stopping_registered(2) [OF assms refl] by simp
  assume run: "Execute pg kMaster CreateInstances w2 = (Ret r1, v1)"
    "Execute pg kMaster (InsertInstance (hostname info) (port info)) v1 = (Ret r2, v2)"
  have "rows_affected r2 = 1"
    using Execute_affected [OF run(2)] Execute_tables [OF run(1)] insert_affected gone by (simp add: address_def)
  with run show "on_all_components_loaded pg info w2 = (Ret (), v2)"
    by (simp add: on_all_components_loaded_def outcome_simps)
qed

end

section \<open>Properties\<close>

definition sample_instance :: instance_info where
  "sample_instance = \<lparr>hostname = ''runner'', port = 8080\<rparr>"

definition empty_db :: db_tables where
  "empty_db = \<lparr>db_scripts = Map.empty, db_values = Map.empty, db_instances = None\<rparr>"

definition one_instance_db :: db_tables where
  "one_instance_db = empty_db\<lparr>db_instances := Some [(''runner'', 8080)]\<rparr>"

lemmas sample_defs = sample_instance_def empty_db_def one_instance_db_def

lemma sample_loaded: "on_all_components_loaded ref_pg sample_instance empty_db = (Ret (), one_instance_db)"
  by (simp add: on_all_components_loaded_def sample_defs ref_pg_def ref_execute_def bindS_def returnS_def)

lemma sample_stopped: "fst (on_all_components_are_stopping ref_pg sample_instance one_instance_db) = Ret None"
  by (simp add: on_all_components_are_stopping_def sample_defs ref_pg_def ref_execute_def bindS_def returnS_def)

lemma sample_fleet:
  "(fleet_step ref_pg cleans)\<^sup>*\<^sup>* \<lparr>fl_world = empty_db, fl_running = Map.empty\<rparr>
     \<lparr>fl_world = one_instance_db, fl_running = [0 \<mapsto> sample_instance]\<rparr>"
  using fleet_step.start [of "\<lparr>fl_world = empty_db, fl_running = Map.empty\<rparr>" 0 ref_pg sample_instance] sample_loaded
  by (intro r_into_rtranclp) simp

text \<open>The start of a twin, and the callback the framework may run after it.\<close>

lemma sample_twin:
  "on_all_components_loaded ref_pg sample_instance one_instance_db
     = (Throw (StdException (instance_text ''Can't register'' sample_instance)), one_instance_db)"
  "on_all_components_are_stopping ref_pg sample_instance one_instance_db = (Ret None, empty_db\<lparr>db_instances := Some []\<rparr>)"
  by (simp_all add: on_all_components_loaded_def on_all_components_are_stopping_def sample_defs ref_pg_def ref_execute_def
      bindS_def returnS_def throwS_def)

text \<open>
  C29. Whatever instances start, stop, fail to start and crash: if the framework does not run the
  stopping callback of a process whose start has failed, those that run have entries in the table
  and pairwise distinct addresses. If it does run it, this is not so: the callback deletes by the
  address, so a process that was started with the address of one that runs, and was refused for it,
  takes the entry of the other with it, which goes on running without one.
\<close>

theorem running_instances_are_registered:
  assumes "postgres_laws pg tables replica"
    and "(fleet_step pg cleans)\<^sup>*\<^sup>* \<lparr>fl_world = w, fl_running = Map.empty\<rparr> f"
    and "fl_running f p = Some info"
  shows "(\<not> cleans \<longrightarrow> (hostname info, port info) \<in> registered (tables (fl_world f))
      \<and> (\<forall>q info'. q \<noteq> p \<longrightarrow> fl_running f q = Some info' \<longrightarrow> (hostname info', port info') \<noteq> (hostname info, port info)))
    \<and> (cleans \<longrightarrow> (\<forall>q e w1 m w2. fl_running f q = None
        \<and> on_all_components_loaded pg info (fl_world f) = (Throw e, w1)
        \<and> on_all_components_are_stopping pg info w1 = (Ret m, w2) \<longrightarrow>
        (\<exists>f'. fleet_step pg cleans f f' \<and> fl_running f' p = Some info
          \<and> (hostname info, port info) \<notin> registered (tables (fl_world f')))))"
proof (intro conjI impI allI; (elim conjE)?)
  assume "\<not> cleans"
  then have "(fleet_step pg False)\<^sup>*\<^sup>* \<lparr>fl_world = w, fl_running = Map.empty\<rparr> f" using assms(2) by simp
  from postgres_laws.fleet_reachable_inv [OF assms(1) this] assms(3)
  show "(hostname info, port info) \<in> registered (tables (fl_world f))"
    "q \<noteq> p \<Longrightarrow> fl_running f q = Some info' \<Longrightarrow> (hostname info', port info') \<noteq> (hostname info, port info)" for q info'
    unfolding fleet_inv_def address_def by blast+
next
  fix q e w1 m w2
  assume twin: "cleans" "fl_running f q = None" "on_all_components_loaded pg info (fl_world f) = (Throw e, w1)"
    "on_all_components_are_stopping pg info w1 = (Ret m, w2)"
  have "fleet_step pg cleans f (f\<lparr>fl_world := w2\<rparr>)" by (rule start_failed_stops [OF twin(2,3,1,4)])
  with postgres_laws.stopped_after_failure(1) [OF assms(1) twin(4)] assms(3)
  show "\<exists>f'. fleet_step pg cleans f f' \<and> fl_running f' p = Some info
      \<and> (hostname info, port info) \<notin> registered (tables (fl_world f'))"
    by (intro exI [of _ "f\<lparr>fl_world := w2\<rparr>"]) (simp add: address_def)
qed

theorem running_instances_are_registered_witness:
  "(''runner'', 8080) \<in> registered one_instance_db
   \<and> (\<exists>f. fleet_step ref_pg True \<lparr>fl_world = one_instance_db, fl_running = [0 \<mapsto> sample_instance]\<rparr> f
       \<and> fl_running f 0 = Some sample_instance \<and> (''runner'', 8080) \<notin> registered (fl_world f))"
proof
  show "(''runner'', 8080) \<in> registered one_instance_db"
    using running_instances_are_registered [OF rp.postgres_laws_axioms sample_fleet [of False], of 0 sample_instance]
    by (simp add: sample_instance_def)
  let ?f = "\<lparr>fl_world = one_instance_db, fl_running = [0 \<mapsto> sample_instance]\<rparr>"
  have "fl_running ?f 1 = None" "fl_running ?f 0 = Some sample_instance" by simp_all
  with running_instances_are_registered [OF rp.postgres_laws_axioms sample_fleet [of True], of 0 sample_instance] sample_twin
  have "\<exists>f. fleet_step ref_pg True ?f f \<and> fl_running f 0 = Some sample_instance
      \<and> (hostname sample_instance, port sample_instance) \<notin> registered (fl_world f)"
    by (metis fleet.select_convs(1))
  then show "\<exists>f. fleet_step ref_pg True ?f f
       \<and> fl_running f 0 = Some sample_instance \<and> (''runner'', 8080) \<notin> registered (fl_world f)"
    by (simp add: sample_instance_def)
qed

text \<open>
  Starting and stopping leave the table as it was: an instance that registered and then
  unregistered is gone, every other entry is kept, and a start that is refused for a taken
  address changes nothing.
\<close>

lemma start_and_stop_restore_the_table:
  assumes "postgres_laws pg tables replica"
    and "on_all_components_loaded pg info w = (r, w1)"
    and "registered (tables v) = registered (tables w1)"
    and "on_all_components_are_stopping pg info v = (Ret log, v1)"
  shows "case r of
      Ret _ \<Rightarrow> registered (tables v1) = registered (tables w) \<and> address info \<notin> registered (tables w)
    | Throw e \<Rightarrow> address info \<in> registered (tables w) \<longrightarrow> registered (tables w1) = registered (tables w)
    | _ \<Rightarrow> False"
proof -
  have v1: "registered (tables v1) = registered (tables w1) - {address info}"
    using postgres_laws.stopping_registered(2) [OF assms(1,4) refl] assms(3) by simp
  show ?thesis
    by (rule postgres_laws.loaded_cases [OF assms(1), of info w]) (use assms(2) v1 in auto)
qed

lemma start_and_stop_restore_the_table_sample:
  "registered (snd (on_all_components_are_stopping ref_pg sample_instance one_instance_db)) = registered empty_db"
  using start_and_stop_restore_the_table [OF rp.postgres_laws_axioms sample_loaded refl, of None
      "snd (on_all_components_are_stopping ref_pg sample_instance one_instance_db)"] sample_stopped
  by (simp add: prod_eq_iff)

text \<open>
  C35. An instance that ends without the stopping callback leaves its entry in the table. If the
  framework does not run the callback of a process whose start has failed, the instance can never
  come back: no run of the fleet starts a process with its address again. If it does run it, the
  first attempt to come back that the database refuses takes the stale entry away, and the next one
  succeeds as soon as the database carries out both statements.
\<close>

theorem crashed_instance_never_returns:
  assumes "postgres_laws pg tables replica"
    and "(fleet_step pg cleans)\<^sup>*\<^sup>* \<lparr>fl_world = w, fl_running = Map.empty\<rparr> f" and "fl_running f p = Some info"
    and "(fleet_step pg cleans)\<^sup>*\<^sup>* (f\<lparr>fl_running := (fl_running f)(p := None)\<rparr>) f'"
  shows "(\<not> cleans \<longrightarrow> (\<forall>q info'. fl_running f' q = Some info' \<longrightarrow> address info' \<noteq> address info)
      \<and> (\<nexists>w'. on_all_components_loaded pg info (fl_world f') = (Ret (), w')))
    \<and> (cleans \<longrightarrow> (\<forall>q e w1 m w2 r1 v1 r2 v2. fl_running f' q = None
        \<and> on_all_components_loaded pg info (fl_world f') = (Throw e, w1)
        \<and> on_all_components_are_stopping pg info w1 = (Ret m, w2)
        \<and> Execute pg kMaster CreateInstances w2 = (Ret r1, v1)
        \<and> Execute pg kMaster (InsertInstance (hostname info) (port info)) v1 = (Ret r2, v2) \<longrightarrow>
        (\<exists>f''. (fleet_step pg cleans)\<^sup>*\<^sup>* f' f'' \<and> fl_running f'' q = Some info)))"
proof (intro conjI impI)
  assume cleans: "\<not> cleans"
  then have "(fleet_step pg False)\<^sup>*\<^sup>* \<lparr>fl_world = w, fl_running = Map.empty\<rparr> f"
    "(fleet_step pg False)\<^sup>*\<^sup>* (f\<lparr>fl_running := (fl_running f)(p := None)\<rparr>) f'" using assms(2,4) by simp_all
  from postgres_laws.crashed_stays_out [OF assms(1) this(1) assms(3) this(2)]
  show "\<forall>q info'. fl_running f' q = Some info' \<longrightarrow> address info' \<noteq> address info"
    "\<nexists>w'. on_all_components_loaded pg info (fl_world f') = (Ret (), w')" by blast+
next
  assume cleans: cleans
  show "\<forall>q e w1 m w2 r1 v1 r2 v2. fl_running f' q = None
        \<and> on_all_components_loaded pg info (fl_world f') = (Throw e, w1)
        \<and> on_all_components_are_stopping pg info w1 = (Ret m, w2)
        \<and> Execute pg kMaster CreateInstances w2 = (Ret r1, v1)
        \<and> Execute pg kMaster (InsertInstance (hostname info) (port info)) v1 = (Ret r2, v2) \<longrightarrow>
        (\<exists>f''. (fleet_step pg cleans)\<^sup>*\<^sup>* f' f'' \<and> fl_running f'' q = Some info)"
  proof (intro allI impI; elim conjE)
    fix q e w1 m w2 r1 v1 r2 v2
    assume free: "fl_running f' q = None"
      and run: "on_all_components_loaded pg info (fl_world f') = (Throw e, w1)" "on_all_components_are_stopping pg info w1 = (Ret m, w2)"
        "Execute pg kMaster CreateInstances w2 = (Ret r1, v1)"
        "Execute pg kMaster (InsertInstance (hostname info) (port info)) v1 = (Ret r2, v2)"
    let ?f = "f'\<lparr>fl_world := w2\<rparr>"
    have "fleet_step pg cleans f' ?f" by (rule start_failed_stops [OF free run(1) cleans run(2)])
    moreover have "fleet_step pg cleans ?f \<lparr>fl_world = v2, fl_running = (fl_running ?f)(q \<mapsto> info)\<rparr>"
      by (rule fleet_step.start) (use free postgres_laws.stopped_after_failure(2) [OF assms(1) run(2-4)] in simp_all)
    ultimately show "\<exists>f''. (fleet_step pg cleans)\<^sup>*\<^sup>* f' f'' \<and> fl_running f'' q = Some info"
      by (intro exI [of _ "\<lparr>fl_world = v2, fl_running = (fl_running ?f)(q \<mapsto> info)\<rparr>"])
        (auto intro: converse_rtranclp_into_rtranclp)
  qed
qed

theorem crashed_instance_never_returns_witness:
  "(\<nexists>w'. on_all_components_loaded ref_pg sample_instance one_instance_db = (Ret (), w'))
   \<and> (\<exists>f. (fleet_step ref_pg True)\<^sup>*\<^sup>* \<lparr>fl_world = one_instance_db, fl_running = Map.empty\<rparr> f \<and> fl_running f 1 = Some sample_instance)"
proof
  let ?f = "\<lparr>fl_world = one_instance_db, fl_running = [0 \<mapsto> sample_instance]\<rparr>" and ?g = "\<lparr>fl_world = one_instance_db, fl_running = Map.empty\<rparr>"
  have crashed: "?f\<lparr>fl_running := (fl_running ?f)(0 := None)\<rparr> = ?g" by simp
  then show "\<nexists>w'. on_all_components_loaded ref_pg sample_instance one_instance_db = (Ret (), w')"
    using crashed_instance_never_returns [OF rp.postgres_laws_axioms sample_fleet [of False], of 0 sample_instance ?g] by simp
  have statements: "Execute ref_pg kMaster CreateInstances (empty_db\<lparr>db_instances := Some []\<rparr>) = (Ret \<lparr>rows = [], rows_affected = 0\<rparr>, empty_db\<lparr>db_instances := Some []\<rparr>)"
    "Execute ref_pg kMaster (InsertInstance (hostname sample_instance) (port sample_instance)) (empty_db\<lparr>db_instances := Some []\<rparr>)
      = (Ret \<lparr>rows = [], rows_affected = 1\<rparr>, one_instance_db)"
    by (simp_all add: sample_defs ref_pg_def ref_execute_def returnS_def)
  from crashed_instance_never_returns [OF rp.postgres_laws_axioms sample_fleet [of True], of 0 sample_instance ?g] crashed sample_twin statements
  show "\<exists>f. (fleet_step ref_pg True)\<^sup>*\<^sup>* ?g f \<and> fl_running f 1 = Some sample_instance" by fastforce
qed

end
