(* ===== verification/Lua_Api.thy ===== *)
theory Lua_Api
  imports Json
begin

text \<open>
  The C API of Lua, as far as the service calls it. Lua is not part of the repository: the
  API functions are the fields of a record, over a state \<open>'L\<close> of which nothing is known but
  what the locale \<open>lua_laws\<close> says. The locale compares each call with a stack machine that
  writes down the reference manual; where the manual leaves the behaviour undefined the
  machine is in a \<open>Crash\<close> and the locale promises nothing. Allocations succeed and tables
  have no metatables in it.
\<close>

section \<open>Values and the visible state\<close>

text \<open>\<open>'d\<close> is \<open>lua_Number\<close>; tables are named by the order of their creation.\<close>

datatype 'd lval =
    LNil
  | LBool bool
  | LNum 'd
  | LStr string
  | LTab nat
  | LOther string

datatype lua_type = LUA_TNONE | LUA_TNIL | LUA_TBOOLEAN | LUA_TNUMBER | LUA_TSTRING | LUA_TTABLE | LUA_TOTHER string

fun value_type :: "'d lval \<Rightarrow> lua_type" where
  "value_type LNil = LUA_TNIL"
| "value_type (LBool _) = LUA_TBOOLEAN"
| "value_type (LNum _) = LUA_TNUMBER"
| "value_type (LStr _) = LUA_TSTRING"
| "value_type (LTab _) = LUA_TTABLE"
| "value_type (LOther t) = LUA_TOTHER t"

fun type_name :: "lua_type \<Rightarrow> string" where
  "type_name LUA_TNONE = ''no value''"
| "type_name LUA_TNIL = ''nil''"
| "type_name LUA_TBOOLEAN = ''boolean''"
| "type_name LUA_TNUMBER = ''number''"
| "type_name LUA_TSTRING = ''string''"
| "type_name LUA_TTABLE = ''table''"
| "type_name (LUA_TOTHER t) = t"

text \<open>
  The stack of the running C function with its top first, the tables with their entries in
  the order of traversal, and the height up to which the stack may grow without
  \<open>lua_checkstack\<close>, which the service never calls.
\<close>

type_synonym 'd ltable = "('d lval \<times> 'd lval) list"

record 'd lua_view =
  stk :: "'d lval list"
  tabs :: "'d ltable list"
  slots :: nat

lemma stk_update_same: "stk v = st \<Longrightarrow> v\<lparr>stk := st\<rparr> = v"
  by (cases v) simp

section \<open>The API\<close>

record ('d, 'L) lua_api =
  lua_gettop :: "'L \<Rightarrow> nat"
  lua_settop :: "nat \<Rightarrow> ('L, unit) action"
  lua_pop :: "nat \<Rightarrow> ('L, unit) action"
  lua_type_at :: "int \<Rightarrow> 'L \<Rightarrow> lua_type"
  lua_typename :: "lua_type \<Rightarrow> string"
  lua_isstring :: "int \<Rightarrow> 'L \<Rightarrow> bool"
  lua_tostring :: "int \<Rightarrow> ('L, string option) action"
  lua_tonumber :: "int \<Rightarrow> 'L \<Rightarrow> 'd"
  lua_toboolean :: "int \<Rightarrow> 'L \<Rightarrow> bool"
  lua_pushnil :: "('L, unit) action"
  lua_pushstring :: "string \<Rightarrow> ('L, unit) action"
  lua_pushnumber :: "'d \<Rightarrow> ('L, unit) action"
  lua_pushboolean :: "bool \<Rightarrow> ('L, unit) action"
  lua_newtable :: "('L, unit) action"
  lua_next :: "int \<Rightarrow> ('L, bool) action"
  lua_gettable :: "int \<Rightarrow> ('L, lua_type) action"
  lua_settable :: "int \<Rightarrow> ('L, unit) action"
  lua_pushinteger :: "int \<Rightarrow> ('L, unit) action"
  lua_setfield :: "int \<Rightarrow> string \<Rightarrow> ('L, unit) action"

text \<open>The macros \<open>lua_isnil\<close> and \<open>lua_istable\<close>.\<close>

definition lua_isnil :: "('d, 'L) lua_api \<Rightarrow> int \<Rightarrow> 'L \<Rightarrow> bool" where
  "lua_isnil api i L \<longleftrightarrow> lua_type_at api i L = LUA_TNIL"

definition lua_istable :: "('d, 'L) lua_api \<Rightarrow> int \<Rightarrow> 'L \<Rightarrow> bool" where
  "lua_istable api i L \<longleftrightarrow> lua_type_at api i L = LUA_TTABLE"

section \<open>The stack machine of the manual\<close>

text \<open>An index counts from the bottom when it is positive and from the top when negative.\<close>

definition position :: "int \<Rightarrow> 'a list \<Rightarrow> nat option" where
  "position i st =
     (if 0 < i \<and> nat i \<le> length st then Some (length st - nat i)
      else if i < 0 \<and> nat (- i) \<le> length st then Some (nat (- i) - 1)
      else None)"

definition at :: "int \<Rightarrow> 'a list \<Rightarrow> 'a option" where
  "at i st = map_option (nth st) (position i st)"

definition m_type :: "int \<Rightarrow> 'd lua_view \<Rightarrow> lua_type" where
  "m_type i v = (case at i (stk v) of None \<Rightarrow> LUA_TNONE | Some x \<Rightarrow> value_type x)"

definition m_isstring :: "int \<Rightarrow> 'd lua_view \<Rightarrow> bool" where
  "m_isstring i v \<longleftrightarrow> m_type i v = LUA_TSTRING \<or> m_type i v = LUA_TNUMBER"

definition m_toboolean :: "int \<Rightarrow> 'd lua_view \<Rightarrow> bool" where
  "m_toboolean i v = (case at i (stk v) of None \<Rightarrow> False | Some x \<Rightarrow> x \<noteq> LNil \<and> x \<noteq> LBool False)"

definition m_push :: "'d lval \<Rightarrow> ('d lua_view, unit) action" where
  "m_push x v =
     (if length (stk v) < slots v then (Ret (), v\<lparr>stk := x # stk v\<rparr>) else (Crash StackOverflow, v))"

definition m_pop :: "nat \<Rightarrow> ('d lua_view, unit) action" where
  "m_pop n v =
     (if n \<le> length (stk v) then (Ret (), v\<lparr>stk := drop n (stk v)\<rparr>) else (Crash StackUnderflow, v))"

definition m_settop :: "nat \<Rightarrow> ('d lua_view, unit) action" where
  "m_settop n v =
     (if n \<le> length (stk v) then (Ret (), v\<lparr>stk := drop (length (stk v) - n) (stk v)\<rparr>)
      else if n \<le> slots v then (Ret (), v\<lparr>stk := replicate (n - length (stk v)) LNil @ stk v\<rparr>)
      else (Crash StackOverflow, v))"

text \<open>\<open>lua_tolstring\<close> replaces a number by its text, in the stack.\<close>

definition m_tostring :: "('d \<Rightarrow> string) \<Rightarrow> int \<Rightarrow> ('d lua_view, string option) action" where
  "m_tostring num_text i v =
     (case position i (stk v) of
        None \<Rightarrow> (Ret None, v)
      | Some p \<Rightarrow>
          (case stk v ! p of
             LStr s \<Rightarrow> (Ret (Some s), v)
           | LNum d \<Rightarrow> (Ret (Some (num_text d)), v\<lparr>stk := (stk v)[p := LStr (num_text d)]\<rparr>)
           | _ \<Rightarrow> (Ret None, v)))"

text \<open>The entry after a key: the outer \<open>None\<close> is an invalid key, the inner one the end.\<close>

fun entry_after :: "'d lval \<Rightarrow> 'd ltable \<Rightarrow> ('d lval \<times> 'd lval) option option" where
  "entry_after k [] = None"
| "entry_after k ((l, x) # es) =
     (if k = l then Some (case es of [] \<Rightarrow> None | e # _ \<Rightarrow> Some e) else entry_after k es)"

definition next_entry :: "'d lval \<Rightarrow> 'd ltable \<Rightarrow> ('d lval \<times> 'd lval) option option" where
  "next_entry k es = (if k = LNil then Some (case es of [] \<Rightarrow> None | e # _ \<Rightarrow> Some e) else entry_after k es)"

definition table_at :: "int \<Rightarrow> 'd lua_view \<Rightarrow> nat option" where
  "table_at i v =
     (case at i (stk v) of Some (LTab a) \<Rightarrow> if a < length (tabs v) then Some a else None | _ \<Rightarrow> None)"

definition m_next :: "int \<Rightarrow> ('d lua_view, bool) action" where
  "m_next i v =
     (case (table_at i v, stk v) of
        (Some a, k # st) \<Rightarrow>
          (case next_entry k (tabs v ! a) of
             None \<Rightarrow> (LuaJump ''invalid key to next'', v)
           | Some None \<Rightarrow> (Ret False, v\<lparr>stk := st\<rparr>)
           | Some (Some (l, x)) \<Rightarrow>
               if length (stk v) < slots v then (Ret True, v\<lparr>stk := x # l # st\<rparr>) else (Crash StackOverflow, v))
      | _ \<Rightarrow> (Crash StackUnderflow, v))"

definition table_get :: "'d lval \<Rightarrow> 'd ltable \<Rightarrow> 'd lval" where
  "table_get k es = (case map_of es k of None \<Rightarrow> LNil | Some x \<Rightarrow> x)"

definition m_gettable :: "int \<Rightarrow> ('d lua_view, lua_type) action" where
  "m_gettable i v =
     (case (table_at i v, stk v) of
        (Some a, k # st) \<Rightarrow> let x = table_get k (tabs v ! a) in (Ret (value_type x), v\<lparr>stk := x # st\<rparr>)
      | _ \<Rightarrow> (Crash StackUnderflow, v))"

fun replace_entry :: "'d lval \<Rightarrow> 'd lval \<Rightarrow> 'd ltable \<Rightarrow> 'd ltable" where
  "replace_entry k x [] = []"
| "replace_entry k x ((l, y) # es) = (if l = k then (k, x) # es else (l, y) # replace_entry k x es)"

definition table_set :: "'d lval \<Rightarrow> 'd lval \<Rightarrow> 'd ltable \<Rightarrow> 'd ltable" where
  "table_set k x es =
     (if x = LNil then filter (\<lambda>e. fst e \<noteq> k) es
      else if k \<in> fst ` set es then replace_entry k x es
      else es @ [(k, x)])"

definition m_settable :: "int \<Rightarrow> ('d lua_view, unit) action" where
  "m_settable i v =
     (case (table_at i v, stk v) of
        (Some a, x # k # st) \<Rightarrow>
          if k = LNil then (LuaJump ''index is nil'', v)
          else (Ret (), v\<lparr>stk := st, tabs := (tabs v)[a := table_set k x (tabs v ! a)]\<rparr>)
      | _ \<Rightarrow> (Crash StackUnderflow, v))"

definition m_setfield :: "int \<Rightarrow> string \<Rightarrow> ('d lua_view, unit) action" where
  "m_setfield i name v =
     (case (table_at i v, stk v) of
        (Some a, x # st) \<Rightarrow>
          (Ret (), v\<lparr>stk := st, tabs := (tabs v)[a := table_set (LStr name) x (tabs v ! a)]\<rparr>)
      | _ \<Rightarrow> (Crash StackUnderflow, v))"

definition m_newtable :: "('d lua_view, unit) action" where
  "m_newtable v =
     (if length (stk v) < slots v
      then (Ret (), v\<lparr>stk := LTab (length (tabs v)) # stk v, tabs := tabs v @ [[]]\<rparr>)
      else (Crash StackOverflow, v))"

text \<open>
  \<open>int_num\<close> is the number an integer is pushed as. \<open>lua_tonumber\<close> of something else than
  a number is not used.
\<close>

definition m_tonumber :: "(int \<Rightarrow> 'd) \<Rightarrow> int \<Rightarrow> 'd lua_view \<Rightarrow> 'd" where
  "m_tonumber int_num i v = (case at i (stk v) of Some (LNum d) \<Rightarrow> d | _ \<Rightarrow> int_num 0)"

definition lua_machine :: "('d \<Rightarrow> string) \<Rightarrow> (int \<Rightarrow> 'd) \<Rightarrow> ('d, 'd lua_view) lua_api" where
  "lua_machine num_text int_num =
     \<lparr>lua_gettop = (\<lambda>v. length (stk v)), lua_settop = m_settop, lua_pop = m_pop, lua_type_at = m_type,
      lua_typename = type_name, lua_isstring = m_isstring, lua_tostring = m_tostring num_text,
      lua_tonumber = m_tonumber int_num, lua_toboolean = m_toboolean, lua_pushnil = m_push LNil,
      lua_pushstring = (\<lambda>s. m_push (LStr s)), lua_pushnumber = (\<lambda>d. m_push (LNum d)),
      lua_pushboolean = (\<lambda>b. m_push (LBool b)), lua_newtable = m_newtable, lua_next = m_next,
      lua_gettable = m_gettable, lua_settable = m_settable,
      lua_pushinteger = (\<lambda>i. m_push (LNum (int_num i))), lua_setfield = m_setfield\<rparr>"

lemma lua_machine_simps [simp]:
  "lua_gettop (lua_machine nt z) v = length (stk v)" "lua_settop (lua_machine nt z) = m_settop"
  "lua_pop (lua_machine nt z) = m_pop" "lua_type_at (lua_machine nt z) = m_type"
  "lua_typename (lua_machine nt z) = type_name" "lua_isstring (lua_machine nt z) = m_isstring"
  "lua_tostring (lua_machine nt z) = m_tostring nt" "lua_tonumber (lua_machine nt z) = m_tonumber z"
  "lua_toboolean (lua_machine nt z) = m_toboolean" "lua_pushnil (lua_machine nt z) = m_push LNil"
  "lua_pushstring (lua_machine nt z) s = m_push (LStr s)" "lua_pushnumber (lua_machine nt z) d = m_push (LNum d)"
  "lua_pushboolean (lua_machine nt z) b = m_push (LBool b)" "lua_newtable (lua_machine nt z) = m_newtable"
  "lua_next (lua_machine nt z) = m_next" "lua_gettable (lua_machine nt z) = m_gettable"
  "lua_settable (lua_machine nt z) = m_settable" "lua_pushinteger (lua_machine nt z) i = m_push (LNum (z i))"
  "lua_setfield (lua_machine nt z) = m_setfield"
  by (simp_all add: lua_machine_def)

text \<open>Indices near the top, as the service uses them.\<close>

lemma at_top [simp]:
  "at (- 1) (x # st) = Some x" "at (- 2) (x # y # st) = Some y" "at (- 3) (x # y # z # st) = Some z"
  by (simp_all add: at_def position_def)

lemma position_top [simp]:
  "position (- 1) (x # st) = Some 0" "position (- 2) (x # y # st) = Some 1"
  by (simp_all add: position_def)

lemma table_at_top [simp]:
  "stk v = x # LTab a # st \<Longrightarrow> table_at (- 2) v = (if a < length (tabs v) then Some a else None)"
  "stk v = x # k # LTab a # st \<Longrightarrow> table_at (- 3) v = (if a < length (tabs v) then Some a else None)"
  by (simp_all add: table_at_def)

section \<open>What the API promises\<close>

text \<open>
  A call does what the machine does, wherever the machine is defined. Only the place of a new
  entry in the order of traversal is left open.
\<close>

definition behaves :: "('L \<Rightarrow> 'd lua_view) \<Rightarrow> 'a outcome \<times> 'L \<Rightarrow> 'a outcome \<times> 'd lua_view \<Rightarrow> bool" where
  "behaves view r m \<longleftrightarrow> (\<exists>c. fst m = Crash c) \<or> fst r = fst m \<and> view (snd r) = snd m"

locale lua_laws =
  fixes api :: "('d, 'L) lua_api" and view :: "'L \<Rightarrow> 'd lua_view"
    and num_text :: "'d \<Rightarrow> string" and int_num :: "int \<Rightarrow> 'd"
  assumes gettop: "lua_gettop api L = length (stk (view L))"
    and type_at: "lua_type_at api i L = m_type i (view L)"
    and typename: "lua_typename api t = type_name t"
    and isstring: "lua_isstring api i L = m_isstring i (view L)"
    and tonumber: "at i (stk (view L)) = Some (LNum d) \<Longrightarrow> lua_tonumber api i L = d"
    and toboolean: "lua_toboolean api i L = m_toboolean i (view L)"
    and settop: "behaves view (lua_settop api n L) (m_settop n (view L))"
    and pop: "behaves view (lua_pop api n L) (m_pop n (view L))"
    and tostring: "behaves view (lua_tostring api i L) (m_tostring num_text i (view L))"
    and pushnil: "behaves view (lua_pushnil api L) (m_push LNil (view L))"
    and pushstring: "no_nul s \<Longrightarrow> behaves view (lua_pushstring api s L) (m_push (LStr s) (view L))"
    and pushnumber: "behaves view (lua_pushnumber api d L) (m_push (LNum d) (view L))"
    and pushboolean: "behaves view (lua_pushboolean api b L) (m_push (LBool b) (view L))"
    and newtable: "behaves view (lua_newtable api L) (m_newtable (view L))"
    and next_: "behaves view (lua_next api i L) (m_next i (view L))"
    and gettable: "behaves view (lua_gettable api i L) (m_gettable i (view L))"
    and settable: "m_settable i (view L) = (Ret (), v) \<Longrightarrow> table_at i (view L) = Some a \<Longrightarrow>
      \<exists>L' t. lua_settable api i L = (Ret (), L') \<and> mset t = mset (tabs v ! a)
        \<and> view L' = v\<lparr>tabs := (tabs v)[a := t]\<rparr>"
    and pushinteger: "behaves view (lua_pushinteger api z L) (m_push (LNum (int_num z)) (view L))"
    and setfield: "m_setfield i name (view L) = (Ret (), v) \<Longrightarrow> table_at i (view L) = Some a \<Longrightarrow> no_nul name \<Longrightarrow>
      \<exists>L' t. lua_setfield api i name L = (Ret (), L') \<and> mset t = mset (tabs v ! a)
        \<and> view L' = v\<lparr>tabs := (tabs v)[a := t]\<rparr>"

text \<open>The rules by which a program over the API follows the same program over the machine.\<close>

lemma behaves_crash: "fst m = Crash c \<Longrightarrow> behaves view r m"
  by (simp add: behaves_def)

lemma behaves_returnS: "behaves view (returnS x L) (returnS x (view L))"
  and behaves_throwS: "behaves view (throwS e L) (throwS e (view L))"
  and behaves_liftS: "behaves view (liftS r L) (liftS r (view L))"
  by (simp_all add: behaves_def outcome_simps)

lemma behaves_jumpS: "behaves view (jumpS m L) (jumpS m (view L))"
  by (simp add: behaves_def outcome_simps)

lemma behaves_getS: "f L = g (view L) \<Longrightarrow> behaves view (getS f L) (getS g (view L))"
  by (simp add: behaves_def outcome_simps)

lemma behaves_bindS:
  assumes "behaves view (m L) (m' (view L))" and "\<And>x K. behaves view (f x K) (f' x (view K))"
  shows "behaves view (bindS m f L) (bindS m' f' (view L))"
proof (cases "m' (view L)")
  case (Pair r v)
  show ?thesis
  proof (cases "\<exists>c. r = Crash c")
    case True
    with Pair show ?thesis by (auto simp: behaves_def bindS_def)
  next
    case False
    obtain L' where "m L = (r, L')" "view L' = v"
      using assms(1) Pair False by (cases "m L") (auto simp: behaves_def)
    with Pair assms(2) [of _ L'] show ?thesis
      by (cases r) (auto simp: outcome_simps, simp_all add: behaves_def)
  qed
qed

lemma behaves_thenS:
  "behaves view (m L) (m' (view L)) \<Longrightarrow> (\<And>K. behaves view (k K) (k' (view K)))
    \<Longrightarrow> behaves view (thenS m k L) (thenS m' k' (view L))"
  unfolding thenS_def by (rule behaves_bindS)

lemma behaves_catch_allS:
  assumes "behaves view (m L) (m' (view L))" and "\<And>e K. behaves view (h e K) (h' e (view K))"
  shows "behaves view (catch_allS m h L) (catch_allS m' h' (view L))"
proof (cases "m' (view L)")
  case (Pair r v)
  show ?thesis
  proof (cases "\<exists>c. r = Crash c")
    case True
    with Pair show ?thesis by (auto simp: behaves_def catch_allS_def)
  next
    case False
    obtain L' where "m L = (r, L')" "view L' = v"
      using assms(1) Pair False by (cases "m L") (auto simp: behaves_def)
    with Pair assms(2) [of _ L'] show ?thesis
      by (cases r) (auto simp: outcome_simps, simp_all add: behaves_def)
  qed
qed

lemma behaves_catch_stdS:
  assumes "behaves view (m L) (m' (view L))" and "\<And>e K. behaves view (h e K) (h' e (view K))"
  shows "behaves view (catch_stdS m h L) (catch_stdS m' h' (view L))"
proof (cases "m' (view L)")
  case (Pair r v)
  show ?thesis
  proof (cases "\<exists>c. r = Crash c")
    case True
    with Pair show ?thesis by (auto simp: behaves_def catch_stdS_def)
  next
    case False
    obtain L' where L': "m L = (r, L')" "view L' = v"
      using assms(1) Pair False by (cases "m L") (auto simp: behaves_def)
    show ?thesis
    proof (cases "\<exists>e. r = Throw e \<and> is_std_exception e")
      case True
      with Pair L' assms(2) [of _ L'] show ?thesis by (auto simp: outcome_simps)
    next
      case False
      with Pair L' show ?thesis by (cases r) (simp_all add: behaves_def catch_stdS_def)
    qed
  qed
qed

lemmas behaves_rules = behaves_returnS behaves_throwS behaves_liftS behaves_bindS behaves_thenS behaves_catch_allS

lemma behavesD: "behaves view r (x, v) \<Longrightarrow> (\<And>c. x \<noteq> Crash c) \<Longrightarrow> \<exists>L'. r = (x, L') \<and> view L' = v"
  by (cases r) (auto simp: behaves_def)

lemma behaves_eqD: "behaves view r m \<Longrightarrow> m = (x, v) \<Longrightarrow> (\<And>c. x \<noteq> Crash c) \<Longrightarrow> \<exists>L'. r = (x, L') \<and> view L' = v"
  by (simp add: behavesD)

interpretation lm: lua_laws "lua_machine num_text int_num" "\<lambda>v. v" num_text int_num
  by unfold_locales
    (auto simp: behaves_def m_tonumber_def table_at_def intro!: exI [of _ "tabs _ ! _"])

text \<open>The machine with integers for numbers, on which examples are evaluated.\<close>

definition int_machine :: "(int, int lua_view) lua_api" where
  "int_machine = lua_machine decimal_int (\<lambda>i. i)"

lemma int_machine_laws: "lua_laws int_machine (\<lambda>v. v) decimal_int (\<lambda>i. i)"
  unfolding int_machine_def by (rule lm.lua_laws_axioms)

end
