(* ===== verification/Lua_Utils.thy ===== *)
theory Lua_Utils
  imports Lua_Api
begin

text \<open>
  \<open>engine/lua/utils.cpp\<close>: the serializer, which turns a value on the Lua stack into JSON
  and text, and the deserializer, which pushes the value a text stands for. Both recurse into
  tables, so both take fuel; the JSON library, the Lua API and \<open>boost::lexical_cast\<close> are
  arguments.
\<close>

section \<open>\<open>Serializer\<close>\<close>

text \<open>\<open>idx.value_or(d)\<close>: the default is converted to \<open>size_t\<close>, and the result to \<open>int\<close>.\<close>

definition lua_index :: "size_t option \<Rightarrow> int \<Rightarrow> int" where
  "lua_index idx d = sint (ucast (case idx of None \<Rightarrow> word_of_int d | Some i \<Rightarrow> i) :: 32 word)"

lemma lua_index_None [simp]: "lua_index None (- 1) = - 1" "lua_index None (- 2) = - 2"
  unfolding lua_index_def option.case by code_simp+

definition lua_string_to_value :: "('d, 'L) lua_api \<Rightarrow> size_t option \<Rightarrow> ('L, 'd json) action" where
  "lua_string_to_value api idx =
     bindS (lua_tostring api (lua_index idx (- 1))) (\<lambda>s.
     case s of None \<Rightarrow> liftS (Crash NullDereference) | Some s \<Rightarrow> returnS (JStr (c_str s)))"

definition lua_number_to_value :: "'d json_lib \<Rightarrow> ('d, 'L) lua_api \<Rightarrow> size_t option \<Rightarrow> ('L, 'd json) action" where
  "lua_number_to_value js api idx =
     bindS (getS (lua_tonumber api (lua_index idx (- 1)))) (\<lambda>d. liftS (NumberValue js d))"

definition lua_boolean_to_value :: "('d, 'L) lua_api \<Rightarrow> size_t option \<Rightarrow> ('L, 'd json) action" where
  "lua_boolean_to_value api idx =
     bindS (getS (lua_toboolean api (lua_index idx (- 1)))) (\<lambda>b. returnS (JBool b))"

definition cannot_serialize :: "string \<Rightarrow> cpp_exn" where
  "cannot_serialize t = StdException (''Can't serialize lua object with such type (type = '' @ t @ '')'')"

definition bad_table_key :: "string \<Rightarrow> cpp_exn" where
  "bad_table_key t = StdException (''The table key must have a string or number type (actual type = '' @ t @ '')'')"

text \<open>\<open>ToValue\<close>, and the loop of \<open>LuaTableToValue\<close> with the builder it fills.\<close>

fun to_value :: "nat \<Rightarrow> 'd json_lib \<Rightarrow> ('d, 'L) lua_api \<Rightarrow> size_t option \<Rightarrow> ('L, 'd json) action"
  and table_loop :: "nat \<Rightarrow> 'd json_lib \<Rightarrow> ('d, 'L) lua_api \<Rightarrow> size_t option \<Rightarrow> 'd json \<Rightarrow> ('L, 'd json) action" where
  "to_value 0 js api idx = liftS NoFuel"
| "to_value (Suc n) js api idx =
     bindS (getS (lua_type_at api (lua_index idx (- 1)))) (\<lambda>type.
     case type of
       LUA_TSTRING \<Rightarrow> lua_string_to_value api idx
     | LUA_TNUMBER \<Rightarrow> lua_number_to_value js api idx
     | LUA_TBOOLEAN \<Rightarrow> lua_boolean_to_value api idx
     | LUA_TTABLE \<Rightarrow> thenS (lua_pushnil api) (table_loop n js api idx JNull)
     | _ \<Rightarrow> throwS (cannot_serialize (lua_typename api type)))"
| "table_loop 0 js api idx builder = liftS NoFuel"
| "table_loop (Suc n) js api idx builder =
     bindS (lua_next api (lua_index idx (- 2))) (\<lambda>more.
     if \<not> more then returnS builder
     else
       bindS (getS (lua_type_at api (- 2))) (\<lambda>type.
       if type \<noteq> LUA_TSTRING \<and> type \<noteq> LUA_TNUMBER
       then thenS (lua_pop api 3) (throwS (bad_table_key (lua_typename api type)))
       else
         bindS (catch_allS (to_value n js api None) (\<lambda>e. thenS (lua_pop api 3) (throwS e))) (\<lambda>value.
         bindS
           (if type = LUA_TSTRING
            then bindS (lua_tostring api (- 2)) (\<lambda>key.
              case key of
                None \<Rightarrow> liftS (Crash NullDereference)
              | Some key \<Rightarrow> liftS (EmplaceNocheck js (c_str key) value builder))
            else liftS (PushBack js value builder)) (\<lambda>builder'.
         thenS (lua_pop api 1) (table_loop n js api idx builder')))))"

definition json_text :: "'d json_lib \<Rightarrow> 'd json \<Rightarrow> string" where
  "json_text js v = (case v of JStr s \<Rightarrow> s | _ \<Rightarrow> ToString js v)"

definition serializer_to_string :: "nat \<Rightarrow> 'd json_lib \<Rightarrow> ('d, 'L) lua_api \<Rightarrow> size_t option \<Rightarrow> ('L, string) action" where
  "serializer_to_string n js api idx =
     bindS (to_value n js api idx) (\<lambda>value. returnS (json_text js value))"

section \<open>\<open>Deserializer\<close>\<close>

datatype cast_type = TypeString | TypeNumber | TypeBoolean | TypeTable

definition push_string :: "('d, 'L) lua_api \<Rightarrow> string \<Rightarrow> ('L, unit) action" where
  "push_string api v = lua_pushstring api (c_str v)"

definition push_number :: "(string \<Rightarrow> 'd outcome) \<Rightarrow> ('d, 'L) lua_api \<Rightarrow> string \<Rightarrow> ('L, unit) action" where
  "push_number lexical_cast api v = bindS (liftS (lexical_cast v)) (lua_pushnumber api)"

definition push_boolean :: "('d, 'L) lua_api \<Rightarrow> string \<Rightarrow> ('L, unit) action" where
  "push_boolean api v = lua_pushboolean api (v = ''true'')"

definition get_type :: "'d json \<Rightarrow> cast_type outcome" where
  "get_type v =
     (case v of
        JBool _ \<Rightarrow> Ret TypeBoolean
      | JNum _ \<Rightarrow> Ret TypeNumber
      | JStr _ \<Rightarrow> Ret TypeString
      | JObj _ \<Rightarrow> Ret TypeTable
      | JArr _ \<Rightarrow> Ret TypeTable
      | JNull \<Rightarrow> Throw (StdException ''Unexpected json value type''))"

text \<open>\<open>PushValue\<close>; \<open>from\<close> is the recursive call of \<open>FromString\<close>.\<close>

definition push_value ::
  "'d json_lib \<Rightarrow> ('d, 'L) lua_api \<Rightarrow> (cast_type \<Rightarrow> string \<Rightarrow> ('L, unit) action) \<Rightarrow> 'd json \<Rightarrow> ('L, unit) action" where
  "push_value js api from v =
     bindS (liftS (get_type v)) (\<lambda>type.
     catch_allS (from type (json_text js v)) (\<lambda>e. thenS (lua_pop api 2) (throwS e)))"

text \<open>The two loops of \<open>PushTable\<close>; \<open>push\<close> is \<open>PushValue\<close>.\<close>

fun push_members :: "('d, 'L) lua_api \<Rightarrow> ('d json \<Rightarrow> ('L, unit) action) \<Rightarrow> (string \<times> 'd json) list \<Rightarrow> ('L, unit) action" where
  "push_members api push [] = returnS ()"
| "push_members api push ((key, v) # kvs) =
     thenS (lua_pushstring api (c_str key))
     (thenS (push v)
     (thenS (lua_settable api (- 3))
     (push_members api push kvs)))"

fun push_elements ::
  "'d json_lib \<Rightarrow> ('d, 'L) lua_api \<Rightarrow> ('d json \<Rightarrow> ('L, unit) action) \<Rightarrow> int \<Rightarrow> 'd json list \<Rightarrow> ('L, unit) action" where
  "push_elements js api push i [] = returnS ()"
| "push_elements js api push i (v # vs) =
     thenS (lua_pushnumber api (NumberOf js i))
     (thenS (push v)
     (thenS (lua_settable api (- 3))
     (push_elements js api push (i + 1) vs)))"

definition push_table ::
  "'d json_lib \<Rightarrow> ('d, 'L) lua_api \<Rightarrow> ('d json \<Rightarrow> ('L, unit) action) \<Rightarrow> string \<Rightarrow> ('L, unit) action" where
  "push_table js api push v =
     bindS (liftS (FromString js v)) (\<lambda>json.
     thenS (lua_newtable api)
     (case json of
        JObj kvs \<Rightarrow> push_members api push kvs
      | JArr vs \<Rightarrow> push_elements js api push 1 vs
      | _ \<Rightarrow> thenS (lua_pop api 1) (throwS (StdException ''Value is not a table''))))"

fun from_string ::
  "nat \<Rightarrow> 'd json_lib \<Rightarrow> (string \<Rightarrow> 'd outcome) \<Rightarrow> ('d, 'L) lua_api \<Rightarrow> cast_type \<Rightarrow> string \<Rightarrow> ('L, unit) action" where
  "from_string 0 js lexical_cast api type v = liftS NoFuel"
| "from_string (Suc n) js lexical_cast api type v =
     (case type of
        TypeString \<Rightarrow> push_string api v
      | TypeNumber \<Rightarrow> push_number lexical_cast api v
      | TypeBoolean \<Rightarrow> push_boolean api v
      | TypeTable \<Rightarrow> push_table js api (push_value js api (from_string n js lexical_cast api)) v)"

section \<open>The serializer over any state of Lua\<close>

text \<open>It only reads, so it does what it does over the machine.\<close>

context lua_laws
begin

lemma lua_string_to_value_behaves:
  "behaves view (lua_string_to_value api idx L) (lua_string_to_value (lua_machine num_text int_num) idx (view L))"
  unfolding lua_string_to_value_def
  by (auto intro!: behaves_rules tostring split: option.split)

lemma to_value_table_loop_behave:
  "(\<forall>idx L. behaves view (to_value n js api idx L) (to_value n js (lua_machine num_text int_num) idx (view L))) \<and>
   (\<forall>idx b L. behaves view (table_loop n js api idx b L) (table_loop n js (lua_machine num_text int_num) idx b (view L)))"
proof (induction n)
  case 0
  show ?case by (simp add: behaves_liftS)
next
  case (Suc n)
  then have IH: "behaves view (to_value n js api idx L) (to_value n js (lua_machine num_text int_num) idx (view L))"
    "behaves view (table_loop n js api idx b L) (table_loop n js (lua_machine num_text int_num) idx b (view L))" for idx b L
    by blast+
  have "behaves view (to_value (Suc n) js api idx L) (to_value (Suc n) js (lua_machine num_text int_num) idx (view L))" for idx L
  proof -
    let ?i = "lua_index idx (- 1)"
    have num: "lua_tonumber api ?i L = m_tonumber int_num ?i (view L)" if "m_type ?i (view L) = LUA_TNUMBER"
      using that tonumber by (auto simp: m_type_def m_tonumber_def split: option.splits lval.splits elim: value_type.elims)
    have table: "behaves view (thenS (lua_pushnil api) (table_loop n js api idx JNull) L)
       (thenS (m_push LNil) (table_loop n js (lua_machine num_text int_num) idx JNull) (view L))"
      by (auto intro!: behaves_rules pushnil IH)
    have number: "behaves view (lua_number_to_value js api idx L) (lua_number_to_value js (lua_machine num_text int_num) idx (view L))"
      if "m_type ?i (view L) = LUA_TNUMBER"
      using num [OF that] by (simp add: lua_number_to_value_def outcome_simps behaves_def)
    have boolean: "behaves view (lua_boolean_to_value api idx L) (lua_boolean_to_value (lua_machine num_text int_num) idx (view L))"
      by (simp add: lua_boolean_to_value_def outcome_simps toboolean behaves_def)
    show ?thesis
      using table number boolean lua_string_to_value_behaves [of idx L]
      by (cases "m_type ?i (view L)") (simp_all add: outcome_simps type_at typename behaves_throwS [unfolded outcome_simps])
  qed
  moreover have "behaves view (table_loop (Suc n) js api idx b L) (table_loop (Suc n) js (lua_machine num_text int_num) idx b (view L))" for idx b L
    by (auto intro!: behaves_rules behaves_getS next_ pop tostring IH simp: type_at typename split: option.split)
  ultimately show ?case by blast
qed

lemmas to_value_behaves = to_value_table_loop_behave [THEN conjunct1, rule_format]

lemma serializer_behaves:
  "behaves view (serializer_to_string n js api idx L) (serializer_to_string n js (lua_machine num_text int_num) idx (view L))"
  unfolding serializer_to_string_def by (intro behaves_rules to_value_behaves)

end

end
