(* ===== verification/Lua_Serializer.thy ===== *)
theory Lua_Serializer
  imports Lua_Utils
begin

text \<open>
  What the serializer writes: the JSON document a Lua value reads as, with the stack left as it
  was; and what happens to values it cannot write.
\<close>

section \<open>The document a value reads as\<close>

text \<open>
  The entries of a table are read in the order of traversal. A table with string keys is an
  object, one with numeric keys an array whatever the numbers are, and an empty one is null.
\<close>

fun reads :: "'d ltable list \<Rightarrow> 'd json \<Rightarrow> 'd lval \<Rightarrow> bool"
  and reads_members :: "'d ltable list \<Rightarrow> 'd ltable \<Rightarrow> (string \<times> 'd json) list \<Rightarrow> bool"
  and reads_elements :: "'d ltable list \<Rightarrow> 'd ltable \<Rightarrow> 'd json list \<Rightarrow> bool" where
  "reads T JNull x \<longleftrightarrow> (\<exists>a. x = LTab a \<and> a < length T \<and> T ! a = [])"
| "reads T (JBool b) x \<longleftrightarrow> x = LBool b"
| "reads T (JNum d) x \<longleftrightarrow> x = LNum d"
| "reads T (JStr s) x \<longleftrightarrow> (\<exists>t. x = LStr t \<and> s = c_str t)"
| "reads T (JArr js) x \<longleftrightarrow> js \<noteq> [] \<and> (\<exists>a. x = LTab a \<and> a < length T \<and> reads_elements T (T ! a) js)"
| "reads T (JObj kvs) x \<longleftrightarrow> kvs \<noteq> [] \<and> (\<exists>a. x = LTab a \<and> a < length T \<and> reads_members T (T ! a) kvs)"
| "reads_members T [] kvs \<longleftrightarrow> kvs = []"
| "reads_members T ((l, y) # es) kvs \<longleftrightarrow>
     (case kvs of
        [] \<Rightarrow> False
      | (k, j) # kvs' \<Rightarrow> (\<exists>t. l = LStr t \<and> k = c_str t) \<and> reads T j y \<and> reads_members T es kvs')"
| "reads_elements T [] js \<longleftrightarrow> js = []"
| "reads_elements T ((l, y) # es) js \<longleftrightarrow>
     (case js of [] \<Rightarrow> False | j # js' \<Rightarrow> (\<exists>d. l = LNum d) \<and> reads T j y \<and> reads_elements T es js')"

definition table_ok :: "'d ltable \<Rightarrow> bool" where
  "table_ok t \<longleftrightarrow> distinct (map fst t) \<and> LNil \<notin> fst ` set t"

text \<open>The fuel and the stack slots the serializer needs for a document.\<close>

fun cost :: "'d json \<Rightarrow> nat" where
  "cost (JArr js) = 2 + sum_list (map (\<lambda>j. Suc (cost j)) js)"
| "cost (JObj kvs) = 2 + sum_list (map (\<lambda>(k, j). Suc (cost j)) kvs)"
| "cost JNull = 2"
| "cost _ = 1"

fun room :: "'d json \<Rightarrow> nat" where
  "room (JArr js) = 2 + Max (insert 0 (room ` set js))"
| "room (JObj kvs) = 2 + Max (insert 0 ((\<lambda>(k, j). room j) ` set kvs))"
| "room JNull = 1"
| "room _ = 0"

lemma room_element: "j \<in> set js \<Longrightarrow> room j + 2 \<le> room (JArr js)"
  by simp

lemma room_member: "(k, j) \<in> set kvs \<Longrightarrow> room j + 2 \<le> room (JObj kvs)"
proof -
  assume "(k, j) \<in> set kvs"
  then have "room j \<le> Max (insert 0 ((\<lambda>(k, j). room j) ` set kvs))"
    by (intro Max_ge) (auto intro!: rev_image_eqI)
  then show ?thesis by simp
qed

section \<open>One turn of the loop over the machine\<close>

lemma entry_after_last:
  "k \<notin> fst ` set before \<Longrightarrow> entry_after k (before @ (k, x) # es) = Some (case es of [] \<Rightarrow> None | e # _ \<Rightarrow> Some e)"
  by (induction before) auto

text \<open>\<open>k\<close> is the key the traversal stands at when \<open>before\<close> has been visited.\<close>

definition stands_at :: "'d lval \<Rightarrow> 'd ltable \<Rightarrow> bool" where
  "stands_at k before \<longleftrightarrow> (if before = [] then k = LNil else k = fst (last before))"

lemma next_entry_visit:
  assumes "table_ok (before @ es)" and "stands_at k before"
  shows "next_entry k (before @ es) = Some (case es of [] \<Rightarrow> None | e # _ \<Rightarrow> Some e)"
proof (cases before rule: rev_cases)
  case Nil
  with assms show ?thesis by (simp add: stands_at_def next_entry_def)
next
  case (snoc b e)
  with assms have "k = fst e" "k \<noteq> LNil" "k \<notin> fst ` set b"
    by (auto simp: stands_at_def table_ok_def)
  then show ?thesis using snoc entry_after_last [of k b "snd e" es] by (simp add: next_entry_def)
qed

lemma stands_at_next: "stands_at (fst e) (before @ [e])"
  by (simp add: stands_at_def)

definition add_entry :: "'d json_lib \<Rightarrow> 'd lval \<Rightarrow> 'd json \<Rightarrow> 'd json \<Rightarrow> 'd json outcome" where
  "add_entry js l j b = (case l of LStr s \<Rightarrow> EmplaceNocheck js (c_str s) j b | _ \<Rightarrow> PushBack js j b)"

lemma table_loop_end:
  assumes "stk v = k # LTab a # st" and "a < length (tabs v)" and "next_entry k (tabs v ! a) = Some None"
  shows "table_loop (Suc n) js (lua_machine nt z) None b v = (Ret b, v\<lparr>stk := LTab a # st\<rparr>)"
  using assms by (simp add: outcome_simps bindS_def m_next_def)

lemma table_loop_turn:
  assumes stk: "stk v = k # LTab a # st" and a: "a < length (tabs v)"
    and entry: "next_entry k (tabs v ! a) = Some (Some (l, y))"
    and room: "length st + 3 \<le> slots v"
    and key: "(\<exists>s. l = LStr s) \<or> (\<exists>d. l = LNum d)"
    and val: "to_value n js (lua_machine nt z) None (v\<lparr>stk := y # l # LTab a # st\<rparr>) = (Ret j, v\<lparr>stk := y # l # LTab a # st\<rparr>)"
    and add: "add_entry js l j b = Ret b'"
  shows "table_loop (Suc n) js (lua_machine nt z) None b v
    = table_loop n js (lua_machine nt z) None b' (v\<lparr>stk := l # LTab a # st\<rparr>)"
proof -
  have "m_next (- 2) v = (Ret True, v\<lparr>stk := y # l # LTab a # st\<rparr>)"
    using stk a entry room by (simp add: m_next_def)
  with key val add show ?thesis
    by (auto simp: outcome_simps bindS_def thenS_def m_type_def m_tostring_def m_pop_def add_entry_def catch_allS_def)
qed

declare table_loop.simps [simp del]

section \<open>The serializer writes what a value reads as\<close>

definition serializes ::
  "nat \<Rightarrow> 'd json_lib \<Rightarrow> ('d, 'd lua_view) lua_api \<Rightarrow> 'd ltable list \<Rightarrow> 'd json \<Rightarrow> 'd lval \<Rightarrow> bool" where
  "serializes n js api T j x \<longleftrightarrow>
     (\<forall>v st. tabs v = T \<longrightarrow> stk v = x # st \<longrightarrow> length (stk v) + room j \<le> slots v
       \<longrightarrow> to_value n js api None v = (Ret j, v))"

context json_laws
begin

lemma members_loop:
  assumes "table_ok (T ! a)" and "a < length T" and "T ! a = before @ es" and "stands_at k before"
    and "reads_members T es kvs"
    and "tabs v = T" and "stk v = k # LTab a # st"
    and "\<And>l j y m. (l, j) \<in> set kvs \<Longrightarrow> reads T j y \<Longrightarrow> cost j \<le> m \<Longrightarrow> m < N \<Longrightarrow> serializes m js (lua_machine nt z) T j y"
    and "\<And>l j. (l, j) \<in> set kvs \<Longrightarrow> length st + 3 + room j \<le> slots v"
    and "sum_list (map (\<lambda>(k, j). Suc (cost j)) kvs) < n" and "n \<le> N"
    and "b = (if acc = [] then JNull else JObj acc)"
  shows "table_loop n js (lua_machine nt z) None b v
    = (Ret (if acc @ kvs = [] then JNull else JObj (acc @ kvs)), v\<lparr>stk := LTab a # st\<rparr>)"
  using assms
proof (induction es arbitrary: before k kvs v n b acc)
  case Nil
  then obtain m where "n = Suc m" by (cases n) auto
  with Nil next_entry_visit [of before "[]" k] show ?case
    by (simp add: table_loop_end)
next
  case (Cons e es)
  obtain l y where e: "e = (l, y)" by (cases e)
  with Cons.prems(5) obtain key j kvs' t where kvs: "kvs = (key, j) # kvs'" and l: "l = LStr t" "key = c_str t"
    and y: "reads T j y" and rest: "reads_members T es kvs'"
    by (auto split: list.splits)
  obtain m where n: "n = Suc m" using Cons.prems(10) by (cases n) auto
  have val: "to_value m js (lua_machine nt z) None (v\<lparr>stk := y # l # LTab a # st\<rparr>) = (Ret j, v\<lparr>stk := y # l # LTab a # st\<rparr>)"
  proof -
    have "serializes m js (lua_machine nt z) T j y"
      using Cons.prems(8) [of key j y m] Cons.prems(10,11) kvs n y by simp
    moreover have "length (y # l # LTab a # st) + room j \<le> slots v"
      using Cons.prems(9) [of key j] kvs by simp
    ultimately show ?thesis using Cons.prems(6) by (simp add: serializes_def)
  qed
  have turn: "table_loop n js (lua_machine nt z) None b v
    = table_loop m js (lua_machine nt z) None (JObj (acc @ [(key, j)])) (v\<lparr>stk := l # LTab a # st\<rparr>)"
    unfolding n
  proof (rule table_loop_turn [OF Cons.prems(7)])
    show "next_entry k (tabs v ! a) = Some (Some (l, y))"
      using next_entry_visit [of before "e # es" k] Cons.prems(1,3,4,6) e by simp
    show "add_entry js l j b = Ret (JObj (acc @ [(key, j)]))"
      using Cons.prems(12) l by (simp add: add_entry_def EmplaceNocheck_null EmplaceNocheck_obj)
  qed (use Cons.prems(2,6) Cons.prems(9) [of key j] kvs l val in auto)
  have "table_loop m js (lua_machine nt z) None (JObj (acc @ [(key, j)])) (v\<lparr>stk := l # LTab a # st\<rparr>)
    = (Ret (if (acc @ [(key, j)]) @ kvs' = [] then JNull else JObj ((acc @ [(key, j)]) @ kvs')),
       v\<lparr>stk := l # LTab a # st\<rparr>\<lparr>stk := LTab a # st\<rparr>)"
  proof (rule Cons.IH [of "before @ [e]" l])
    show "serializes m' js (lua_machine nt z) T u y'"
      if "(l', u) \<in> set kvs'" "reads T u y'" "cost u \<le> m'" "m' < N" for l' u y' m'
      by (rule Cons.prems(8) [of l']) (use that kvs in auto)
    show "length st + 3 + room u \<le> slots (v\<lparr>stk := l # LTab a # st\<rparr>)" if "(l', u) \<in> set kvs'" for l' u
      using Cons.prems(9) [of l' u] that kvs by simp
  qed (use Cons.prems stands_at_next [of e before] kvs rest n e in auto)
  then show ?case unfolding turn using kvs by simp
qed

lemma elements_loop:
  assumes "table_ok (T ! a)" and "a < length T" and "T ! a = before @ es" and "stands_at k before"
    and "reads_elements T es vs"
    and "tabs v = T" and "stk v = k # LTab a # st"
    and "\<And>j y m. j \<in> set vs \<Longrightarrow> reads T j y \<Longrightarrow> cost j \<le> m \<Longrightarrow> m < N \<Longrightarrow> serializes m js (lua_machine nt z) T j y"
    and "\<And>j. j \<in> set vs \<Longrightarrow> length st + 3 + room j \<le> slots v"
    and "sum_list (map (\<lambda>j. Suc (cost j)) vs) < n" and "n \<le> N"
    and "b = (if acc = [] then JNull else JArr acc)"
  shows "table_loop n js (lua_machine nt z) None b v
    = (Ret (if acc @ vs = [] then JNull else JArr (acc @ vs)), v\<lparr>stk := LTab a # st\<rparr>)"
  using assms
proof (induction es arbitrary: before k vs v n b acc)
  case Nil
  then obtain m where "n = Suc m" by (cases n) auto
  with Nil next_entry_visit [of before "[]" k] show ?case
    by (simp add: table_loop_end)
next
  case (Cons e es)
  obtain l y where e: "e = (l, y)" by (cases e)
  with Cons.prems(5) obtain j vs' d where vs: "vs = j # vs'" and l: "l = LNum d"
    and y: "reads T j y" and rest: "reads_elements T es vs'"
    by (auto split: list.splits)
  obtain m where n: "n = Suc m" using Cons.prems(10) by (cases n) auto
  have val: "to_value m js (lua_machine nt z) None (v\<lparr>stk := y # l # LTab a # st\<rparr>) = (Ret j, v\<lparr>stk := y # l # LTab a # st\<rparr>)"
  proof -
    have "serializes m js (lua_machine nt z) T j y"
      using Cons.prems(8) [of j y m] Cons.prems(10,11) vs n y by simp
    moreover have "length (y # l # LTab a # st) + room j \<le> slots v"
      using Cons.prems(9) [of j] vs by simp
    ultimately show ?thesis using Cons.prems(6) by (simp add: serializes_def)
  qed
  have turn: "table_loop n js (lua_machine nt z) None b v
    = table_loop m js (lua_machine nt z) None (JArr (acc @ [j])) (v\<lparr>stk := l # LTab a # st\<rparr>)"
    unfolding n
  proof (rule table_loop_turn [OF Cons.prems(7)])
    show "next_entry k (tabs v ! a) = Some (Some (l, y))"
      using next_entry_visit [of before "e # es" k] Cons.prems(1,3,4,6) e by simp
    show "add_entry js l j b = Ret (JArr (acc @ [j]))"
      using Cons.prems(12) l by (simp add: add_entry_def PushBack_null PushBack_arr)
  qed (use Cons.prems(2,6) Cons.prems(9) [of j] vs l val in auto)
  show ?case
    unfolding turn
    using Cons.IH [of "before @ [e]" l vs' "v\<lparr>stk := l # LTab a # st\<rparr>" m "JArr (acc @ [j])" "acc @ [j]"]
      Cons.prems stands_at_next [of e before] vs rest n e
    by simp
qed

lemma push_nil_machine:
  "length (stk v) < slots v \<Longrightarrow> thenS (m_push LNil) f v = f (v\<lparr>stk := LNil # stk v\<rparr>)"
  by (simp add: outcome_simps m_push_def)

lemma stands_at_start: "stands_at LNil []"
  by (simp add: stands_at_def)

text \<open>A table of elements and one of members, when the serializer can write the parts.\<close>

lemma array_serializes:
  assumes "table_ok (T ! a)" and "a < length T" and "reads_elements T (T ! a) vs" and "vs \<noteq> []"
    and "sum_list (map (\<lambda>j. Suc (cost j)) vs) < m"
    and "\<And>k y m'. k \<in> set vs \<Longrightarrow> reads T k y \<Longrightarrow> cost k \<le> m' \<Longrightarrow> m' < m \<Longrightarrow> serializes m' js (lua_machine nt z) T k y"
  shows "serializes (Suc m) js (lua_machine nt z) T (JArr vs) (LTab a)"
  unfolding serializes_def
proof (intro allI impI)
  fix v :: "'d lua_view" and st assume v: "tabs v = T" "stk v = LTab a # st" "length (stk v) + room (JArr vs) \<le> slots v"
  have "table_loop m js (lua_machine nt z) None JNull (v\<lparr>stk := LNil # LTab a # st\<rparr>)
    = (Ret (if [] @ vs = [] then JNull else JArr ([] @ vs)), v\<lparr>stk := LNil # LTab a # st\<rparr>\<lparr>stk := LTab a # st\<rparr>)"
  proof (rule elements_loop [of T a "[]" "T ! a" LNil vs _ st m])
    show "length st + 3 + room k \<le> slots (v\<lparr>stk := LNil # LTab a # st\<rparr>)" if "k \<in> set vs" for k
      using v room_element [OF that] by simp
  qed (use assms stands_at_start v in auto)
  with v assms(4) show "to_value (Suc m) js (lua_machine nt z) None v = (Ret (JArr vs), v)"
    by (simp add: outcome_simps push_nil_machine m_type_def)
qed

lemma object_serializes:
  assumes "table_ok (T ! a)" and "a < length T" and "reads_members T (T ! a) kvs" and "kvs \<noteq> []"
    and "sum_list (map (\<lambda>(k, j). Suc (cost j)) kvs) < m"
    and "\<And>l k y m'. (l, k) \<in> set kvs \<Longrightarrow> reads T k y \<Longrightarrow> cost k \<le> m' \<Longrightarrow> m' < m \<Longrightarrow> serializes m' js (lua_machine nt z) T k y"
  shows "serializes (Suc m) js (lua_machine nt z) T (JObj kvs) (LTab a)"
  unfolding serializes_def
proof (intro allI impI)
  fix v :: "'d lua_view" and st assume v: "tabs v = T" "stk v = LTab a # st" "length (stk v) + room (JObj kvs) \<le> slots v"
  have "table_loop m js (lua_machine nt z) None JNull (v\<lparr>stk := LNil # LTab a # st\<rparr>)
    = (Ret (if [] @ kvs = [] then JNull else JObj ([] @ kvs)), v\<lparr>stk := LNil # LTab a # st\<rparr>\<lparr>stk := LTab a # st\<rparr>)"
  proof (rule members_loop [of T a "[]" "T ! a" LNil kvs _ st m])
    show "length st + 3 + room k \<le> slots (v\<lparr>stk := LNil # LTab a # st\<rparr>)" if "(l, k) \<in> set kvs" for l k
      using v room_member [OF that] by simp
  qed (use assms stands_at_start v in auto)
  with v assms(4) show "to_value (Suc m) js (lua_machine nt z) None v = (Ret (JObj kvs), v)"
    by (simp add: outcome_simps push_nil_machine m_type_def)
qed

lemma empty_serializes:
  assumes "a < length T" and "T ! a = []"
  shows "serializes (Suc (Suc m)) js (lua_machine nt z) T JNull (LTab a)"
  unfolding serializes_def
proof (intro allI impI)
  fix v :: "'d lua_view" and st assume v: "tabs v = T" "stk v = LTab a # st" "length (stk v) + room JNull \<le> slots v"
  show "to_value (Suc (Suc m)) js (lua_machine nt z) None v = (Ret JNull, v)"
    using v assms table_loop_end [of "v\<lparr>stk := LNil # LTab a # st\<rparr>" LNil a st m js nt z JNull]
    by (simp add: outcome_simps push_nil_machine m_type_def next_entry_def stk_update_same)
qed

lemma reads_serializes:
  assumes "\<forall>t\<in>set T. table_ok t"
  shows "json_wf num_ok j \<Longrightarrow> reads T j x \<Longrightarrow> cost j \<le> n \<Longrightarrow> serializes n js (lua_machine nt z) T j x"
proof (induction n arbitrary: j x rule: less_induct)
  case (less n)
  obtain m where n: "n = Suc m" using less.prems(3) by (cases n; cases j) auto
  have ok: "table_ok (T ! a)" if "a < length T" for a using assms that by simp
  show ?case
  proof (cases j)
    case JNull
    with less.prems obtain a where x: "x = LTab a" "a < length T" "T ! a = []" by auto
    then obtain m' where "m = Suc m'" using less.prems(3) JNull n by (cases m) auto
    with empty_serializes [OF x(2,3)] x(1) JNull n show ?thesis by simp
  next
    case (JArr vs)
    with less.prems obtain a where x: "x = LTab a" "a < length T" "reads_elements T (T ! a) vs" "vs \<noteq> []" by auto
    have "serializes (Suc m) js (lua_machine nt z) T (JArr vs) (LTab a)"
    proof (rule array_serializes [OF ok [OF x(2)] x(2-4)])
      show "serializes m' js (lua_machine nt z) T k y" if "k \<in> set vs" "reads T k y" "cost k \<le> m'" "m' < m" for k y m'
        using that less.IH [of m' k y] less.prems(1) JArr n by (auto simp: list_all_iff)
    qed (use less.prems(3) JArr n in auto)
    with x(1) JArr n show ?thesis by simp
  next
    case (JObj kvs)
    with less.prems obtain a where x: "x = LTab a" "a < length T" "reads_members T (T ! a) kvs" "kvs \<noteq> []" by auto
    have "serializes (Suc m) js (lua_machine nt z) T (JObj kvs) (LTab a)"
    proof (rule object_serializes [OF ok [OF x(2)] x(2-4)])
      show "serializes m' js (lua_machine nt z) T k y" if "(l, k) \<in> set kvs" "reads T k y" "cost k \<le> m'" "m' < m" for l k y m'
        using that less.IH [of m' k y] less.prems(1) JObj n by (fastforce simp: list_all_iff)
    qed (use less.prems(3) JObj n in auto)
    with x(1) JObj n show ?thesis by simp
  qed (use less.prems n in \<open>auto simp: serializes_def outcome_simps bindS_def m_type_def m_tonumber_def m_toboolean_def m_tostring_def
      lua_string_to_value_def lua_number_to_value_def lua_boolean_to_value_def NumberValue_ok\<close>)
qed

end

section \<open>Values the serializer cannot write\<close>

text \<open>A value of an unsupported type under \<open>d\<close> tables.\<close>

fun buried :: "'d ltable list \<Rightarrow> nat \<Rightarrow> string \<Rightarrow> 'd lval \<Rightarrow> bool" where
  "buried T 0 t x \<longleftrightarrow> x = LOther t"
| "buried T (Suc d) t x \<longleftrightarrow> (\<exists>a s y. x = LTab a \<and> a < length T \<and> T ! a = [(LStr s, y)] \<and> buried T d t y)"

lemma to_value_table:
  assumes "stk v = LTab a # st" and "a < length (tabs v)" and "length (stk v) < slots v"
  shows "to_value (Suc n) js (lua_machine nt z) None v
    = table_loop n js (lua_machine nt z) None JNull (v\<lparr>stk := LNil # LTab a # st\<rparr>)"
  using assms by (simp add: outcome_simps m_type_def m_push_def)

lemma table_loop_throws:
  assumes "stk v = LNil # LTab a # st" and "a < length (tabs v)" and "tabs v ! a = (LStr s, y) # es"
    and "length (stk v) < slots v"
    and "to_value n js (lua_machine nt z) None (v\<lparr>stk := y # LStr s # LTab a # st\<rparr>) = (Throw e, w)"
  shows "table_loop (Suc n) js (lua_machine nt z) None b v =
    (if 3 \<le> length (stk w) then (Throw e, w\<lparr>stk := drop 3 (stk w)\<rparr>) else (Crash StackUnderflow, w))"
  using assms
  by (simp add: table_loop.simps outcome_simps bindS_def thenS_def m_next_def next_entry_def m_type_def catch_allS_def m_pop_def)

lemma table_loop_crashes:
  assumes "stk v = LNil # LTab a # st" and "a < length (tabs v)" and "tabs v ! a = (LStr s, y) # es"
    and "length (stk v) < slots v"
    and "to_value n js (lua_machine nt z) None (v\<lparr>stk := y # LStr s # LTab a # st\<rparr>) = (Crash c, w)"
  shows "table_loop (Suc n) js (lua_machine nt z) None b v = (Crash c, w)"
  using assms
  by (simp add: table_loop.simps outcome_simps bindS_def m_next_def next_entry_def m_type_def catch_allS_def)

lemma buried_throws:
  "buried (tabs v) d t x \<Longrightarrow> stk v = x # st \<Longrightarrow> length (stk v) + 2 * d \<le> slots v \<Longrightarrow> 2 * d < n \<Longrightarrow>
    (if d \<le> length (stk v)
     then to_value n js (lua_machine nt z) None v = (Throw (cannot_serialize t), v\<lparr>stk := drop d (stk v)\<rparr>)
     else fst (to_value n js (lua_machine nt z) None v) = Crash StackUnderflow)"
proof (induction d arbitrary: v x st n)
  case 0
  then show ?case by (cases n) (simp_all add: outcome_simps m_type_def stk_update_same)
next
  case (Suc d)
  obtain a s y where x: "x = LTab a" "a < length (tabs v)" "tabs v ! a = [(LStr s, y)]" "buried (tabs v) d t y"
    using Suc.prems(1) by auto
  obtain m where n: "n = Suc (Suc m)" using Suc.prems(4) by (cases n; cases "n - 1") auto
  define u where "u = v\<lparr>stk := y # LStr s # LTab a # st\<rparr>"
  define w where "w = v\<lparr>stk := LNil # LTab a # st\<rparr>"
  have down: "to_value n js (lua_machine nt z) None v = table_loop (Suc m) js (lua_machine nt z) None JNull w"
    unfolding n w_def by (rule to_value_table) (use x Suc.prems in auto)
  have w: "stk w = LNil # LTab a # st" "a < length (tabs w)" "tabs w ! a = [(LStr s, y)]" "length (stk w) < slots w"
    "w\<lparr>stk := y # LStr s # LTab a # st\<rparr> = u"
    using x Suc.prems by (simp_all add: w_def u_def)
  have u: "stk u = y # LStr s # LTab a # st" "tabs u = tabs v" "slots u = slots v" by (simp_all add: u_def)
  have lens: "length (stk u) = length st + 3" "length (stk v) = length st + 1" using u Suc.prems(2) by simp_all
  have IH: "if d \<le> length st + 3
     then to_value m js (lua_machine nt z) None u = (Throw (cannot_serialize t), u\<lparr>stk := drop d (stk u)\<rparr>)
     else fst (to_value m js (lua_machine nt z) None u) = Crash StackUnderflow"
    unfolding lens(1) [symmetric]
    by (rule Suc.IH [OF _ u(1)]) (use x u lens Suc.prems n in auto)
  show ?case
  proof (cases "d \<le> length st + 3")
    case True
    with IH have throws: "to_value m js (lua_machine nt z) None (w\<lparr>stk := y # LStr s # LTab a # st\<rparr>)
       = (Throw (cannot_serialize t), u\<lparr>stk := drop d (stk u)\<rparr>)" using w(5) by simp
    have "drop (d + 3) (stk u) = drop (Suc d) (stk v)" using Suc.prems x by (simp add: u_def numeral_3_eq_3)
    then show ?thesis
      unfolding down table_loop_throws [OF w(1-4) throws] using Suc.prems x
      by (auto simp: u_def add.commute)
  next
    case False
    obtain w' where "to_value m js (lua_machine nt z) None (w\<lparr>stk := y # LStr s # LTab a # st\<rparr>) = (Crash StackUnderflow, w')"
      using IH False w(5) by (cases "to_value m js (lua_machine nt z) None u") auto
    from table_loop_crashes [OF w(1-4) this] show ?thesis
      unfolding down using False Suc.prems by auto
  qed
qed

lemma cycle_overflows:
  "stk v = LTab a # st \<Longrightarrow> a < length (tabs v) \<Longrightarrow> tabs v ! a = [(LStr s, LTab a)] \<Longrightarrow>
    length (stk v) \<le> slots v \<Longrightarrow> slots v - length (stk v) + 2 < n \<Longrightarrow>
    fst (to_value n js (lua_machine nt z) None v) = Crash StackOverflow"
proof (induction "slots v - length (stk v)" arbitrary: v st n rule: less_induct)
  case less
  obtain m where n: "n = Suc (Suc m)" using less.prems(5) by (cases n; cases "n - 1") auto
  define w where "w = v\<lparr>stk := LNil # LTab a # st\<rparr>"
  define u where "u = v\<lparr>stk := LTab a # LStr s # LTab a # st\<rparr>"
  show ?case
  proof (cases "length (stk v) < slots v")
    case False
    then show ?thesis using less.prems unfolding n by (simp add: outcome_simps m_type_def m_push_def)
  next
    case True
    then have down: "to_value n js (lua_machine nt z) None v = table_loop (Suc m) js (lua_machine nt z) None JNull w"
      unfolding n w_def by (intro to_value_table) (use less.prems in auto)
    show ?thesis
    proof (cases "length (stk w) < slots w")
      case False
      then show ?thesis
        unfolding down using less.prems
        by (simp add: w_def table_loop.simps outcome_simps bindS_def m_next_def next_entry_def)
    next
      case room: True
      have "fst (to_value m js (lua_machine nt z) None u) = Crash StackOverflow"
        by (rule less.hyps [of u "LStr s # LTab a # st"]) (use less.prems room n in \<open>auto simp: u_def w_def\<close>)
      then obtain w' where "to_value m js (lua_machine nt z) None (w\<lparr>stk := LTab a # LStr s # LTab a # st\<rparr>) = (Crash StackOverflow, w')"
        by (cases "to_value m js (lua_machine nt z) None u") (auto simp: u_def w_def)
      from table_loop_crashes [OF _ _ _ room this] show ?thesis
        unfolding down using less.prems by (simp add: w_def)
    qed
  qed
qed

end
