(* ===== verification/Lua_Deserializer.thy ===== *)
theory Lua_Deserializer
  imports Lua_Serializer
begin

text \<open>
  What the deserializer builds: a Lua value that holds the document, in new tables, on top of a
  stack and above tables that are left as they were.
\<close>

section \<open>The value that holds a document\<close>

text \<open>
  The tables a value consists of are numbered from \<open>lo\<close> on; \<open>num\<close> is the conversion
  of an array index.
\<close>

fun holds :: "(int \<Rightarrow> 'd) \<Rightarrow> nat \<Rightarrow> 'd ltable list \<Rightarrow> 'd json \<Rightarrow> 'd lval \<Rightarrow> bool"
  and holds_members :: "(int \<Rightarrow> 'd) \<Rightarrow> nat \<Rightarrow> 'd ltable list \<Rightarrow> 'd ltable \<Rightarrow> (string \<times> 'd json) list \<Rightarrow> bool"
  and holds_elements :: "(int \<Rightarrow> 'd) \<Rightarrow> nat \<Rightarrow> 'd ltable list \<Rightarrow> 'd ltable \<Rightarrow> int \<Rightarrow> 'd json list \<Rightarrow> bool" where
  "holds num lo T JNull x \<longleftrightarrow> False"
| "holds num lo T (JBool b) x \<longleftrightarrow> x = LBool b"
| "holds num lo T (JNum d) x \<longleftrightarrow> x = LNum d"
| "holds num lo T (JStr s) x \<longleftrightarrow> x = LStr (c_str s)"
| "holds num lo T (JArr js) x \<longleftrightarrow> (\<exists>a. x = LTab a \<and> lo \<le> a \<and> a < length T
     \<and> fst ` set (T ! a) = (\<lambda>i. LNum (num i)) ` {1..int (length js)} \<and> holds_elements num lo T (T ! a) 1 js)"
| "holds num lo T (JObj kvs) x \<longleftrightarrow> (\<exists>a. x = LTab a \<and> lo \<le> a \<and> a < length T
     \<and> fst ` set (T ! a) = LStr ` fst ` set kvs \<and> holds_members num lo T (T ! a) kvs)"
| "holds_members num lo T t [] \<longleftrightarrow> True"
| "holds_members num lo T t ((k, j) # kvs) \<longleftrightarrow>
     (\<exists>y. map_of t (LStr k) = Some y \<and> holds num lo T j y) \<and> holds_members num lo T t kvs"
| "holds_elements num lo T t i [] \<longleftrightarrow> True"
| "holds_elements num lo T t i (j # js) \<longleftrightarrow>
     (\<exists>y. map_of t (LNum (num i)) = Some y \<and> holds num lo T j y) \<and> holds_elements num lo T t (i + 1) js"

text \<open>A later state has the same tables from \<open>lo\<close> on, and perhaps more.\<close>

definition keeps_from :: "nat \<Rightarrow> 'd ltable list \<Rightarrow> 'd ltable list \<Rightarrow> bool" where
  "keeps_from lo T U \<longleftrightarrow> length T \<le> length U \<and> (\<forall>a. lo \<le> a \<longrightarrow> a < length T \<longrightarrow> U ! a = T ! a)"

lemma holds_keeps:
  "holds num lo T j x \<Longrightarrow> keeps_from lo T U \<Longrightarrow> holds num lo U j x"
  "holds_members num lo T t kvs \<Longrightarrow> keeps_from lo T U \<Longrightarrow> holds_members num lo U t kvs"
  "holds_elements num lo T t i js \<Longrightarrow> keeps_from lo T U \<Longrightarrow> holds_elements num lo U t i js"
proof (induction num lo T j x and num lo T t kvs and num lo T t i js rule: holds_holds_members_holds_elements.induct)
qed (auto simp: keeps_from_def)

lemma holds_lower:
  "holds num lo T j x \<Longrightarrow> lo' \<le> lo \<Longrightarrow> holds num lo' T j x"
  "holds_members num lo T t kvs \<Longrightarrow> lo' \<le> lo \<Longrightarrow> holds_members num lo' T t kvs"
  "holds_elements num lo T t i js \<Longrightarrow> lo' \<le> lo \<Longrightarrow> holds_elements num lo' T t i js"
proof (induction num lo T j x and num lo T t kvs and num lo T t i js rule: holds_holds_members_holds_elements.induct)
qed auto

lemma holds_members_map_of:
  "holds_members num lo T t kvs \<Longrightarrow> (\<And>k. k \<in> fst ` set kvs \<Longrightarrow> map_of u (LStr k) = map_of t (LStr k))
    \<Longrightarrow> holds_members num lo T u kvs"
  by (induction kvs) auto

lemma holds_elements_map_of:
  "holds_elements num lo T t i js \<Longrightarrow> (\<And>n. i \<le> n \<Longrightarrow> n < i + int (length js) \<Longrightarrow> map_of u (LNum (num n)) = map_of t (LNum (num n)))
    \<Longrightarrow> holds_elements num lo T u i js"
  by (induction js arbitrary: i) auto

lemma holds_members_append:
  "holds_members num lo T t (kvs @ kvs') \<longleftrightarrow> holds_members num lo T t kvs \<and> holds_members num lo T t kvs'"
  by (induction kvs) auto

lemma holds_elements_append:
  "holds_elements num lo T t i (js @ js') \<longleftrightarrow>
     holds_elements num lo T t i js \<and> holds_elements num lo T t (i + int (length js)) js'"
  by (induction js arbitrary: i) (auto simp: add.assoc)

lemma holds_not_nil: "holds num lo T j x \<Longrightarrow> x \<noteq> LNil"
  by (cases j) auto

text \<open>
  Documents Lua can hold: no null, keys without a NUL, and arrays whose indices a number
  tells apart. A table needs two slots above its own for a key and a value.
\<close>

fun holdable :: "'d json \<Rightarrow> bool" where
  "holdable JNull \<longleftrightarrow> False"
| "holdable (JArr js) \<longleftrightarrow> length js \<le> 2 ^ 53 \<and> list_all holdable js"
| "holdable (JObj kvs) \<longleftrightarrow> list_all (\<lambda>(k, j). no_nul k \<and> holdable j) kvs"
| "holdable _ \<longleftrightarrow> True"

fun depth :: "'d json \<Rightarrow> nat" where
  "depth (JArr js) = Suc (Max (insert 0 (depth ` set js)))"
| "depth (JObj kvs) = Suc (Max (insert 0 ((\<lambda>(k, j). depth j) ` set kvs)))"
| "depth _ = 0"

lemma depth_element: "j \<in> set js \<Longrightarrow> depth j < depth (JArr js)"
  by (simp add: less_Suc_eq_le)

lemma depth_member: "(k, j) \<in> set kvs \<Longrightarrow> depth j < depth (JObj kvs)"
proof -
  assume "(k, j) \<in> set kvs"
  then have "depth j \<le> Max (insert 0 ((\<lambda>(k, j). depth j) ` set kvs))"
    by (intro Max_ge) (auto intro!: rev_image_eqI)
  then show ?thesis by simp
qed

section \<open>One assignment\<close>

lemma map_fst_replace: "map fst (replace_entry k x t) = map fst t"
  by (induction k x t rule: replace_entry.induct) auto

lemma keys_replace: "fst ` set (replace_entry k x t) = fst ` set t"
  using map_fst_replace by (metis list.set_map)

lemma map_of_replace:
  "map_of (replace_entry k x t) l = (if l = k \<and> map_of t k \<noteq> None then Some x else map_of t l)"
  by (induction k x t rule: replace_entry.induct) auto

lemma keys_table_set: "x \<noteq> LNil \<Longrightarrow> fst ` set (table_set k x t) = insert k (fst ` set t)"
  by (auto simp: table_set_def keys_replace)

lemma distinct_table_set: "x \<noteq> LNil \<Longrightarrow> distinct (map fst t) \<Longrightarrow> distinct (map fst (table_set k x t))"
  by (auto simp: table_set_def map_fst_replace)

lemma map_of_table_set: "x \<noteq> LNil \<Longrightarrow> map_of (table_set k x t) = (map_of t)(k \<mapsto> x)"
proof
  fix l assume x: "x \<noteq> LNil"
  show "map_of (table_set k x t) l = ((map_of t)(k \<mapsto> x)) l"
  proof (cases "k \<in> fst ` set t")
    case True
    then have "map_of t k \<noteq> None" by (simp add: map_of_eq_None_iff)
    with True x show ?thesis by (simp add: table_set_def map_of_replace)
  next
    case False
    then have "map_of t k = None" by (simp add: map_of_eq_None_iff)
    with False x show ?thesis
      by (auto simp: table_set_def map_add_def split: option.split)
  qed
qed

section \<open>The deserializer builds the value\<close>

locale deserializer_env = lua_laws api view num_text int_num + json_laws js num_ok
  for api :: "('d, 'L) lua_api" and view num_text int_num and js :: "'d json_lib" and num_ok +
  fixes lexical_cast :: "string \<Rightarrow> 'd outcome"
  assumes lexical_number: "num_ok d \<Longrightarrow> lexical_cast (ToString js (JNum d)) = Ret d"
    and lexical_answers: "answers (lexical_cast s)"
    and exact_indices: "inj_on (NumberOf js) {1..2 ^ 53}"
begin

definition builds :: "('L, unit) action \<Rightarrow> 'd json \<Rightarrow> bool" where
  "builds act j \<longleftrightarrow> (\<forall>L. length (stk (view L)) + 2 * depth j < slots (view L) \<longrightarrow>
     (\<exists>L' x U. act L = (Ret (), L')
       \<and> view L' = (view L)\<lparr>stk := x # stk (view L), tabs := tabs (view L) @ U\<rparr>
       \<and> holds (NumberOf js) (length (tabs (view L))) (tabs (view L) @ U) j x))"

lemma pushed:
  assumes "behaves view (act L) (m_push x (view L))" and "length (stk (view L)) < slots (view L)"
  shows "\<exists>L'. act L = (Ret (), L') \<and> view L' = (view L)\<lparr>stk := x # stk (view L)\<rparr>"
  using behavesD [of view "act L" "Ret ()" "(view L)\<lparr>stk := x # stk (view L)\<rparr>"] assms by (simp add: m_push_def)

lemma builds_push:
  assumes "\<And>L. behaves view (act L) (m_push x (view L))" and "\<And>lo T. holds (NumberOf js) lo T j x"
  shows "builds act j"
  unfolding builds_def
proof (intro allI impI)
  fix L assume "length (stk (view L)) + 2 * depth j < slots (view L)"
  then have "length (stk (view L)) < slots (view L)" by simp
  from pushed [of act, OF assms(1) this]
  obtain L' where "act L = (Ret (), L')" "view L' = (view L)\<lparr>stk := x # stk (view L)\<rparr>" by blast
  then show "\<exists>L' x U. act L = (Ret (), L') \<and> view L' = (view L)\<lparr>stk := x # stk (view L), tabs := tabs (view L) @ U\<rparr>
       \<and> holds (NumberOf js) (length (tabs (view L))) (tabs (view L) @ U) j x"
    using assms(2) by (intro exI [of _ L'] exI [of _ x] exI [of _ "[]"]) (cases "view L", simp)
qed

lemma assign:
  assumes stk: "stk (view L) = LTab (length T) # st" and tabs: "tabs (view L) = T @ t # U"
    and key: "\<And>L. behaves view (pk L) (m_push k (view L))" "k \<noteq> LNil"
    and act: "builds act j" and room: "length st + 2 + 2 * depth j < slots (view L)"
    and t: "distinct (map fst t)"
  obtains L' t' V x where
    "thenS pk (thenS act (thenS (lua_settable api (- 3)) rest)) L = rest L'"
    "view L' = (view L)\<lparr>tabs := T @ t' # V\<rparr>" "distinct (map fst t')" "map_of t' = (map_of t)(k \<mapsto> x)"
    "fst ` set t' = insert k (fst ` set t)" "holds (NumberOf js) (Suc (length T)) (T @ t' # V) j x"
    "\<exists>W. V = U @ W"
proof -
  obtain L1 where L1: "pk L = (Ret (), L1)" "view L1 = (view L)\<lparr>stk := k # stk (view L)\<rparr>"
    using pushed [of pk, OF key(1), of L] room stk by fastforce
  have "length (stk (view L1)) + 2 * depth j < slots (view L1)" using L1 stk room by simp
  with act obtain L2 x W where L2: "act L1 = (Ret (), L2)"
    "view L2 = (view L)\<lparr>stk := x # k # LTab (length T) # st, tabs := (T @ t # U) @ W\<rparr>"
    "holds (NumberOf js) (length (T @ t # U)) ((T @ t # U) @ W) j x"
    using L1 stk tabs unfolding builds_def by fastforce
  have x: "x \<noteq> LNil" using holds_not_nil [OF L2(3)] .
  have table: "table_at (- 3) (view L2) = Some (length T)" using L2(2) by simp
  have set: "m_settable (- 3) (view L2) = (Ret (), (view L)\<lparr>stk := LTab (length T) # st, tabs := T @ table_set k x t # U @ W\<rparr>)"
    using L2(2) table key(2) by (simp add: m_settable_def)
  obtain L3 t' where L3: "lua_settable api (- 3) L2 = (Ret (), L3)" "mset t' = mset (table_set k x t)"
    "view L3 = (view L)\<lparr>tabs := T @ t' # U @ W\<rparr>"
    using settable [OF set table] stk by (auto simp: stk_update_same)
  have dist: "distinct (map fst (table_set k x t))" using t x by (rule distinct_table_set [rotated])
  show thesis
  proof (rule that [of L3 t' "U @ W" x])
    show "thenS pk (thenS act (thenS (lua_settable api (- 3)) rest)) L = rest L3"
      by (simp add: outcome_simps L1(1) L2(1) L3(1))
    show "distinct (map fst t')" using dist L3(2) by (metis mset_eq_imp_distinct_iff mset_map)
    show "map_of t' = (map_of t)(k \<mapsto> x)" using map_of_mset_eq [OF L3(2) dist] map_of_table_set [OF x] by metis
    show "fst ` set t' = insert k (fst ` set t)" using L3(2) keys_table_set [OF x] by (metis mset_eq_setD)
    have "keeps_from (Suc (length T)) ((T @ t # U) @ W) (T @ t' # U @ W)"
      by (auto simp: keeps_from_def nth_append nth_Cons split: nat.split)
    then show "holds (NumberOf js) (Suc (length T)) (T @ t' # U @ W) j x"
      using holds_keeps(1) [OF holds_lower(1) [OF L2(3), of "Suc (length T)"]] by simp
  qed (use L3(3) in auto)
qed

lemma keeps_from_child: "V = U @ W \<Longrightarrow> keeps_from (Suc (length T)) (T @ t # U) (T @ t' # V)"
  by (auto simp: keeps_from_def nth_append nth_Cons split: nat.split)

lemma push_members_builds:
  assumes "stk (view L) = LTab (length T) # st" and "tabs (view L) = T @ t # U" and "distinct (map fst t)"
    and "fst ` set t = LStr ` fst ` set before" and "holds_members (NumberOf js) (Suc (length T)) (T @ t # U) t before"
    and "distinct (map fst (before @ kvs))"
    and "\<And>k j. (k, j) \<in> set kvs \<Longrightarrow> no_nul k \<and> builds (push j) j \<and> length st + 2 + 2 * depth j < slots (view L)"
  shows "\<exists>L' t' V. push_members api push kvs L = (Ret (), L') \<and> view L' = (view L)\<lparr>tabs := T @ t' # V\<rparr>
    \<and> fst ` set t' = LStr ` fst ` set (before @ kvs)
    \<and> holds_members (NumberOf js) (Suc (length T)) (T @ t' # V) t' (before @ kvs)"
  using assms
proof (induction kvs arbitrary: L t U before)
  case Nil
  then show ?case by (intro exI [of _ L] exI [of _ t] exI [of _ U]) (cases "view L", simp add: outcome_simps)
next
  case (Cons kj kvs)
  obtain k j where kj: "kj = (k, j)" by (cases kj)
  have k: "no_nul k" "builds (push j) j" "length st + 2 + 2 * depth j < slots (view L)"
    using Cons.prems(7) [of k j] kj by auto
  obtain L' t' V x where step:
    "thenS (lua_pushstring api (c_str k)) (thenS (push j) (thenS (lua_settable api (- 3)) (push_members api push kvs))) L
       = push_members api push kvs L'"
    "view L' = (view L)\<lparr>tabs := T @ t' # V\<rparr>" "distinct (map fst t')" "map_of t' = (map_of t)(LStr k \<mapsto> x)"
    "fst ` set t' = insert (LStr k) (fst ` set t)" "holds (NumberOf js) (Suc (length T)) (T @ t' # V) j x"
    "\<exists>W. V = U @ W"
    by (rule assign [OF Cons.prems(1,2) _ _ k(2,3) Cons.prems(3),
          where pk = "lua_pushstring api (c_str k)" and k = "LStr k" and rest = "push_members api push kvs"])
      (use pushstring [of k] k(1) in auto)
  have new: "k \<notin> fst ` set before" using Cons.prems(6) kj by auto
  have "holds_members (NumberOf js) (Suc (length T)) (T @ t' # V) t before"
    using holds_keeps(2) [OF Cons.prems(5)] keeps_from_child step(7) by blast
  then have before: "holds_members (NumberOf js) (Suc (length T)) (T @ t' # V) t' before"
    by (rule holds_members_map_of) (use step(4) new in auto)
  have "\<exists>L'' t'' V'. push_members api push kvs L' = (Ret (), L'') \<and> view L'' = (view L')\<lparr>tabs := T @ t'' # V'\<rparr>
    \<and> fst ` set t'' = LStr ` fst ` set ((before @ [kj]) @ kvs)
    \<and> holds_members (NumberOf js) (Suc (length T)) (T @ t'' # V') t'' ((before @ [kj]) @ kvs)"
  proof (rule Cons.IH)
    show "holds_members (NumberOf js) (Suc (length T)) (T @ t' # V) t' (before @ [kj])"
      using before step(4,6) kj by (simp add: holds_members_append)
    show "no_nul k' \<and> builds (push j') j' \<and> length st + 2 + 2 * depth j' < slots (view L')" if "(k', j') \<in> set kvs" for k' j'
      using Cons.prems(7) [of k' j'] that step(2) by simp
  qed (use Cons.prems step kj in auto)
  then obtain L'' t'' V' where rest: "push_members api push kvs L' = (Ret (), L'')" "view L'' = (view L')\<lparr>tabs := T @ t'' # V'\<rparr>"
    "fst ` set t'' = LStr ` fst ` set ((before @ [kj]) @ kvs)"
    "holds_members (NumberOf js) (Suc (length T)) (T @ t'' # V') t'' ((before @ [kj]) @ kvs)" by blast
  show ?case
    by (intro exI [of _ L''] exI [of _ t''] exI [of _ V'] conjI) (use step(1,2) rest kj in simp_all)
qed

lemma push_elements_builds:
  assumes "stk (view L) = LTab (length T) # st" and "tabs (view L) = T @ t # U" and "distinct (map fst t)"
    and "fst ` set t = (\<lambda>i. LNum (NumberOf js i)) ` {1..int (length before)}"
    and "holds_elements (NumberOf js) (Suc (length T)) (T @ t # U) t 1 before"
    and "length (before @ vs) \<le> 2 ^ 53" and "i = 1 + int (length before)"
    and "\<And>j. j \<in> set vs \<Longrightarrow> builds (push j) j \<and> length st + 2 + 2 * depth j < slots (view L)"
  shows "\<exists>L' t' V. push_elements js api push i vs L = (Ret (), L') \<and> view L' = (view L)\<lparr>tabs := T @ t' # V\<rparr>
    \<and> fst ` set t' = (\<lambda>i. LNum (NumberOf js i)) ` {1..int (length (before @ vs))}
    \<and> holds_elements (NumberOf js) (Suc (length T)) (T @ t' # V) t' 1 (before @ vs)"
  using assms
proof (induction vs arbitrary: L t U before i)
  case Nil
  then show ?case by (intro exI [of _ L] exI [of _ t] exI [of _ U]) (cases "view L", simp add: outcome_simps)
next
  case (Cons j vs)
  have j: "builds (push j) j" "length st + 2 + 2 * depth j < slots (view L)"
    using Cons.prems(8) [of j] by auto
  obtain L' t' V x where step:
    "thenS (lua_pushnumber api (NumberOf js i)) (thenS (push j) (thenS (lua_settable api (- 3)) (push_elements js api push (i + 1) vs))) L
       = push_elements js api push (i + 1) vs L'"
    "view L' = (view L)\<lparr>tabs := T @ t' # V\<rparr>" "distinct (map fst t')" "map_of t' = (map_of t)(LNum (NumberOf js i) \<mapsto> x)"
    "fst ` set t' = insert (LNum (NumberOf js i)) (fst ` set t)" "holds (NumberOf js) (Suc (length T)) (T @ t' # V) j x"
    "\<exists>W. V = U @ W"
    by (rule assign [OF Cons.prems(1,2) _ _ j Cons.prems(3),
          where pk = "lua_pushnumber api (NumberOf js i)" and k = "LNum (NumberOf js i)"
            and rest = "push_elements js api push (i + 1) vs"])
      (use pushnumber in auto)
  have new: "NumberOf js m \<noteq> NumberOf js i" if "1 \<le> m" "m < 1 + int (length before)" for m
  proof
    assume "NumberOf js m = NumberOf js i"
    moreover have "m \<in> {1..2 ^ 53}" "i \<in> {1..2 ^ 53}" using that Cons.prems(6,7) by auto
    ultimately show False using exact_indices that Cons.prems(7) unfolding inj_on_def by fastforce
  qed
  have "holds_elements (NumberOf js) (Suc (length T)) (T @ t' # V) t 1 before"
    using holds_keeps(3) [OF Cons.prems(5)] keeps_from_child step(7) by blast
  then have before: "holds_elements (NumberOf js) (Suc (length T)) (T @ t' # V) t' 1 before"
    by (rule holds_elements_map_of) (use step(4) new in auto)
  have "\<exists>L'' t'' V'. push_elements js api push (i + 1) vs L' = (Ret (), L'') \<and> view L'' = (view L')\<lparr>tabs := T @ t'' # V'\<rparr>
    \<and> fst ` set t'' = (\<lambda>i. LNum (NumberOf js i)) ` {1..int (length ((before @ [j]) @ vs))}
    \<and> holds_elements (NumberOf js) (Suc (length T)) (T @ t'' # V') t'' 1 ((before @ [j]) @ vs)"
  proof (rule Cons.IH)
    show "holds_elements (NumberOf js) (Suc (length T)) (T @ t' # V) t' 1 (before @ [j])"
      using before step(4,6) Cons.prems(7) by (simp add: holds_elements_append)
    have "{1..int (length (before @ [j]))} = insert i {1..int (length before)}" using Cons.prems(7) by auto
    then show "fst ` set t' = (\<lambda>i. LNum (NumberOf js i)) ` {1..int (length (before @ [j]))}"
      using step(5) Cons.prems(4) by simp
    show "builds (push j') j' \<and> length st + 2 + 2 * depth j' < slots (view L')" if "j' \<in> set vs" for j'
      using Cons.prems(8) [of j'] that step(2) by simp
  qed (use Cons.prems step in auto)
  then obtain L'' t'' V' where rest: "push_elements js api push (i + 1) vs L' = (Ret (), L'')" "view L'' = (view L')\<lparr>tabs := T @ t'' # V'\<rparr>"
    "fst ` set t'' = (\<lambda>i. LNum (NumberOf js i)) ` {1..int (length ((before @ [j]) @ vs))}"
    "holds_elements (NumberOf js) (Suc (length T)) (T @ t'' # V') t'' 1 ((before @ [j]) @ vs)" by blast
  show ?case
    by (intro exI [of _ L''] exI [of _ t''] exI [of _ V'] conjI) (use step(1,2) rest in simp_all)
qed

lemma push_value_builds:
  assumes "get_type j = Ret type" and "builds (from type (json_text js j)) j"
  shows "builds (push_value js api from j) j"
proof -
  have "push_value js api from j L = (Ret (), L')" if "from type (json_text js j) L = (Ret (), L')" for L L'
    using that assms(1) by (simp add: push_value_def outcome_simps)
  with assms(2) show ?thesis unfolding builds_def by fast
qed

lemma get_type_holdable: "holdable j \<Longrightarrow> \<exists>type. get_type j = Ret type"
  by (cases j) (simp_all add: get_type_def)

lemma newtable_builds:
  assumes "length (stk (view L)) < slots (view L)"
  obtains L' where "lua_newtable api L = (Ret (), L')"
    "view L' = (view L)\<lparr>stk := LTab (length (tabs (view L))) # stk (view L), tabs := tabs (view L) @ [[]]\<rparr>"
  using behavesD [OF newtable [of L, unfolded m_newtable_def if_P [OF assms]]] by auto

text \<open>\<open>PushTable\<close> of an object and of an array, when it can push the parts.\<close>

lemma push_object_builds:
  assumes "holdable (JObj kvs)" and "json_wf num_ok (JObj kvs)" and "\<And>k u. (k, u) \<in> set kvs \<Longrightarrow> builds (push u) u"
  shows "builds (push_table js api push (ToString js (JObj kvs))) (JObj kvs)"
  unfolding builds_def
proof (intro allI impI)
  fix L assume room: "length (stk (view L)) + 2 * depth (JObj kvs) < slots (view L)"
  obtain L1 where L1: "lua_newtable api L = (Ret (), L1)"
    "view L1 = (view L)\<lparr>stk := LTab (length (tabs (view L))) # stk (view L), tabs := tabs (view L) @ [[]]\<rparr>"
    using newtable_builds [of L] room by auto
  have "\<exists>L' t' V. push_members api push kvs L1 = (Ret (), L') \<and> view L' = (view L1)\<lparr>tabs := tabs (view L) @ t' # V\<rparr>
    \<and> fst ` set t' = LStr ` fst ` set ([] @ kvs)
    \<and> holds_members (NumberOf js) (Suc (length (tabs (view L)))) (tabs (view L) @ t' # V) t' ([] @ kvs)"
  proof (rule push_members_builds)
    show "no_nul k \<and> builds (push u) u \<and> length (stk (view L)) + 2 + 2 * depth u < slots (view L1)" if "(k, u) \<in> set kvs" for k u
      using that assms(1) assms(3) [OF that] depth_member [OF that] room L1(2) by (force simp: list_all_iff)
  qed (use L1 assms in auto)
  then obtain L' t' V where L': "push_members api push kvs L1 = (Ret (), L')"
    "view L' = (view L1)\<lparr>tabs := tabs (view L) @ t' # V\<rparr>" "fst ` set t' = LStr ` fst ` set kvs"
    "holds_members (NumberOf js) (Suc (length (tabs (view L)))) (tabs (view L) @ t' # V) t' kvs" by auto
  have "push_table js api push (ToString js (JObj kvs)) L = (Ret (), L')"
    using FromString_ToString [OF assms(2)] L1(1) L'(1) by (simp add: push_table_def outcome_simps)
  with holds_lower(2) [OF L'(4)] L'(2,3) L1(2)
  show "\<exists>L' x U. push_table js api push (ToString js (JObj kvs)) L = (Ret (), L')
     \<and> view L' = (view L)\<lparr>stk := x # stk (view L), tabs := tabs (view L) @ U\<rparr>
     \<and> holds (NumberOf js) (length (tabs (view L))) (tabs (view L) @ U) (JObj kvs) x"
    by (intro exI [of _ L'] exI [of _ "LTab (length (tabs (view L)))"] exI [of _ "t' # V"]) simp
qed

lemma push_array_builds:
  assumes "holdable (JArr vs)" and "json_wf num_ok (JArr vs)" and "\<And>u. u \<in> set vs \<Longrightarrow> builds (push u) u"
  shows "builds (push_table js api push (ToString js (JArr vs))) (JArr vs)"
  unfolding builds_def
proof (intro allI impI)
  fix L assume room: "length (stk (view L)) + 2 * depth (JArr vs) < slots (view L)"
  obtain L1 where L1: "lua_newtable api L = (Ret (), L1)"
    "view L1 = (view L)\<lparr>stk := LTab (length (tabs (view L))) # stk (view L), tabs := tabs (view L) @ [[]]\<rparr>"
    using newtable_builds [of L] room by auto
  have "\<exists>L' t' V. push_elements js api push 1 vs L1 = (Ret (), L') \<and> view L' = (view L1)\<lparr>tabs := tabs (view L) @ t' # V\<rparr>
    \<and> fst ` set t' = (\<lambda>i. LNum (NumberOf js i)) ` {1..int (length ([] @ vs))}
    \<and> holds_elements (NumberOf js) (Suc (length (tabs (view L)))) (tabs (view L) @ t' # V) t' 1 ([] @ vs)"
  proof (rule push_elements_builds)
    show "builds (push u) u \<and> length (stk (view L)) + 2 + 2 * depth u < slots (view L1)" if "u \<in> set vs" for u
      using that assms(3) [OF that] depth_element [OF that] room L1(2) by force
  qed (use L1 assms in auto)
  then obtain L' t' V where L': "push_elements js api push 1 vs L1 = (Ret (), L')"
    "view L' = (view L1)\<lparr>tabs := tabs (view L) @ t' # V\<rparr>"
    "fst ` set t' = (\<lambda>i. LNum (NumberOf js i)) ` {1..int (length vs)}"
    "holds_elements (NumberOf js) (Suc (length (tabs (view L)))) (tabs (view L) @ t' # V) t' 1 vs" by auto
  have "push_table js api push (ToString js (JArr vs)) L = (Ret (), L')"
    using FromString_ToString [OF assms(2)] L1(1) L'(1) by (simp add: push_table_def outcome_simps)
  with holds_lower(3) [OF L'(4)] L'(2,3) L1(2)
  show "\<exists>L' x U. push_table js api push (ToString js (JArr vs)) L = (Ret (), L')
     \<and> view L' = (view L)\<lparr>stk := x # stk (view L), tabs := tabs (view L) @ U\<rparr>
     \<and> holds (NumberOf js) (length (tabs (view L))) (tabs (view L) @ U) (JArr vs) x"
    by (intro exI [of _ L'] exI [of _ "LTab (length (tabs (view L)))"] exI [of _ "t' # V"]) simp
qed

lemma from_string_builds:
  "holdable j \<Longrightarrow> json_wf num_ok j \<Longrightarrow> depth j < n \<Longrightarrow> get_type j = Ret type
    \<Longrightarrow> builds (from_string n js lexical_cast api type (json_text js j)) j"
proof (induction n arbitrary: j type)
  case (Suc n)
  let ?push = "push_value js api (from_string n js lexical_cast api)"
  have child: "builds (?push u) u" if "holdable u" "json_wf num_ok u" "depth u < n" for u
    using get_type_holdable [OF that(1)] Suc.IH [OF that] by (auto intro: push_value_builds)
  show ?case
  proof (cases j)
    case (JStr s)
    with Suc.prems pushstring [of "c_str s"] show ?thesis
      by (intro builds_push [of _ "LStr (c_str s)"]) (auto simp: get_type_def json_text_def push_string_def)
  next
    case (JNum d)
    with Suc.prems pushnumber show ?thesis
      by (intro builds_push [of _ "LNum d"])
        (auto simp: get_type_def json_text_def push_number_def outcome_simps lexical_number)
  next
    case (JBool b)
    with Suc.prems pushboolean [of b] show ?thesis
      by (intro builds_push [of _ "LBool b"])
        (auto simp: get_type_def json_text_def push_boolean_def ToString_JBool split: if_splits)
  next
    case (JObj kvs)
    have "builds (?push u) u" if "(k, u) \<in> set kvs" for k u
      using child [of u] depth_member [OF that] that Suc.prems JObj by (force simp: list_all_iff)
    with push_object_builds [of kvs ?push] Suc.prems JObj show ?thesis
      by (simp add: get_type_def json_text_def builds_def)
  next
    case (JArr vs)
    have "builds (?push u) u" if "u \<in> set vs" for u
      using child [of u] depth_element [OF that] that Suc.prems JArr by (force simp: list_all_iff)
    with push_array_builds [of vs ?push] Suc.prems JArr show ?thesis
      by (simp add: get_type_def json_text_def builds_def)
  qed (use Suc.prems in simp)
qed simp

lemma serializes_here:
  assumes "json_wf num_ok j" and "reads (tabs (view L)) j x" and "stk (view L) = x # st"
    and "\<forall>t\<in>set (tabs (view L)). table_ok t" and "length (stk (view L)) + room j \<le> slots (view L)" and "cost j \<le> n"
  shows "\<exists>L'. serializer_to_string n js api None L = (Ret (json_text js j), L') \<and> view L' = view L"
proof -
  have "serializes n js (lua_machine num_text int_num) (tabs (view L)) j x"
    by (rule reads_serializes [OF assms(4,1,2,6)])
  then have "to_value n js (lua_machine num_text int_num) None (view L) = (Ret j, view L)"
    using assms(3,5) by (simp add: serializes_def)
  then have "behaves view (serializer_to_string n js api None L) (Ret (json_text js j), view L)"
    using serializer_behaves [of n js None L] by (simp add: serializer_to_string_def outcome_simps)
  then show ?thesis by (simp add: behavesD)
qed

lemma builds_here:
  assumes "builds act j" and "length (stk (view L)) + 2 * depth j < slots (view L)"
  shows "\<exists>L' x U. act L = (Ret (), L') \<and> view L' = (view L)\<lparr>stk := x # stk (view L), tabs := tabs (view L) @ U\<rparr>
    \<and> holds (NumberOf js) (length (tabs (view L))) (tabs (view L) @ U) j x"
  using assms unfolding builds_def by blast

lemma not_a_table:
  assumes "json_wf num_ok j" and "\<nexists>kvs. j = JObj kvs" and "\<nexists>vs. j = JArr vs" and "length (stk (view L)) < slots (view L)"
  shows "\<exists>L'. from_string (Suc n) js lexical_cast api TypeTable (ToString js j) L
      = (Throw (StdException ''Value is not a table''), L') \<and> stk (view L') = stk (view L)"
proof -
  obtain L1 where L1: "lua_newtable api L = (Ret (), L1)"
    "view L1 = (view L)\<lparr>stk := LTab (length (tabs (view L))) # stk (view L), tabs := tabs (view L) @ [[]]\<rparr>"
    using newtable_builds [OF assms(4)] by auto
  have "m_pop 1 (view L1) = (Ret (), (view L1)\<lparr>stk := stk (view L)\<rparr>)" using L1(2) by (simp add: m_pop_def)
  from behavesD [OF pop [of 1 L1, unfolded this]]
  obtain L2 where L2: "lua_pop api 1 L1 = (Ret (), L2)" "stk (view L2) = stk (view L)" by auto
  show ?thesis
    using L1(1) L2 FromString_ToString [OF assms(1)] assms(2,3)
    by (intro exI [of _ L2]) (cases j; simp add: push_table_def outcome_simps)
qed

end

section \<open>The type of what is pushed\<close>

fun lua_type_of :: "cast_type \<Rightarrow> lua_type" where
  "lua_type_of TypeString = LUA_TSTRING"
| "lua_type_of TypeNumber = LUA_TNUMBER"
| "lua_type_of TypeBoolean = LUA_TBOOLEAN"
| "lua_type_of TypeTable = LUA_TTABLE"

text \<open>
  A null member ends \<open>PushValue\<close> before its \<open>try\<close> block, so an exception may leave the key and
  the table of one level behind, but never more than these two values.
\<close>

definition pushes_or_throws :: "'d lua_view \<Rightarrow> lua_type set \<Rightarrow> 'd lval list \<Rightarrow> unit outcome \<Rightarrow> 'd lua_view \<Rightarrow> bool" where
  "pushes_or_throws v types st r v' \<longleftrightarrow> slots v' = slots v \<and> length (tabs v) \<le> length (tabs v')
     \<and> (r = Ret () \<and> (\<exists>x. stk v' = x # stk v \<and> value_type x \<in> types)
       \<or> throws_std r \<and> (\<exists>ys. stk v' = ys @ st \<and> length ys \<le> 2))"

context deserializer_env
begin

text \<open>\<open>typed\<close> is a call of \<open>FromString\<close>, \<open>fills\<close> one of \<open>PushValue\<close> above a table and a key.\<close>

definition typed :: "('L, unit) action \<Rightarrow> lua_type \<Rightarrow> nat \<Rightarrow> bool" where
  "typed act type d \<longleftrightarrow> (\<forall>L. length (stk (view L)) + 2 * d < slots (view L) \<longrightarrow>
     (\<exists>r L'. act L = (r, L') \<and> pushes_or_throws (view L) {type} (stk (view L)) r (view L')))"

definition fills :: "('L, unit) action \<Rightarrow> nat \<Rightarrow> bool" where
  "fills act d \<longleftrightarrow> (\<forall>L k t st. stk (view L) = k # t # st \<longrightarrow> length (stk (view L)) + 2 * d < slots (view L) \<longrightarrow>
     (\<exists>r L'. act L = (r, L') \<and> pushes_or_throws (view L) UNIV st r (view L')))"

lemma popped:
  assumes "n \<le> length (stk (view L))"
  obtains L' where "lua_pop api n L = (Ret (), L')" "view L' = (view L)\<lparr>stk := drop n (stk (view L))\<rparr>"
  using behavesD [OF pop [of n L, unfolded m_pop_def if_P [OF assms]]] by auto

lemma typed_push:
  assumes "\<And>L. behaves view (act L) (m_push x (view L))" and "value_type x = type"
  shows "typed act type d"
  unfolding typed_def
proof (intro allI impI)
  fix L assume "length (stk (view L)) + 2 * d < slots (view L)"
  then have "length (stk (view L)) < slots (view L)" by simp
  from pushed [of act, OF assms(1) this] assms(2)
  show "\<exists>r L'. act L = (r, L') \<and> pushes_or_throws (view L) {type} (stk (view L)) r (view L')"
    by (auto simp: pushes_or_throws_def)
qed

lemma fills_push_value:
  assumes "\<And>type. get_type j = Ret type \<Longrightarrow> typed (from type (json_text js j)) (lua_type_of type) d"
  shows "fills (push_value js api from j) d"
  unfolding fills_def
proof (intro allI impI)
  fix L k t st assume L: "stk (view L) = k # t # st" "length (stk (view L)) + 2 * d < slots (view L)"
  show "\<exists>r L'. push_value js api from j L = (r, L') \<and> pushes_or_throws (view L) UNIV st r (view L')"
  proof (cases "get_type j")
    case (Ret type)
    obtain r L1 where r: "from type (json_text js j) L = (r, L1)"
      "pushes_or_throws (view L) {lua_type_of type} (stk (view L)) r (view L1)"
      using assms [OF Ret] L(2) unfolding typed_def by blast
    show ?thesis
    proof (cases "r = Ret ()")
      case True
      with Ret r show ?thesis by (auto simp: push_value_def outcome_simps pushes_or_throws_def throws_std_def)
    next
      case False
      then obtain m ys where e: "r = Throw (StdException m)" "stk (view L1) = ys @ k # t # st" "length ys \<le> 2"
        using r(2) L(1) by (auto simp: pushes_or_throws_def throws_std_def)
      obtain L2 where L2: "lua_pop api 2 L1 = (Ret (), L2)" "view L2 = (view L1)\<lparr>stk := drop 2 (stk (view L1))\<rparr>"
        using popped [of 2 L1] e(2) by auto
      have "\<exists>zs. drop 2 (ys @ k # t # st) = zs @ st \<and> length zs \<le> 2"
        using e(3) by (intro exI [of _ "drop 2 (ys @ [k, t])"]) (cases ys; cases "tl ys"; simp)
      moreover have "push_value js api from j L = (Throw (StdException m), L2)"
        using Ret r(1) e(1) L2(1) by (simp add: push_value_def outcome_simps)
      ultimately show ?thesis
        using r(2) L2(2) e(2) by (auto simp: pushes_or_throws_def throws_std_def)
    qed
  next
    case (Throw e)
    then have "push_value js api from j L = (Throw (StdException ''Unexpected json value type''), L)"
      by (auto simp: push_value_def outcome_simps get_type_def split: json.splits)
    then show ?thesis
      using L(1) by (auto simp: pushes_or_throws_def throws_std_def intro!: exI [of _ "[k, t]"])
  qed (auto simp: get_type_def split: json.splits)
qed

lemma fill_step:
  assumes stk: "stk (view L) = LTab a # st" and a: "a < length (tabs (view L))"
    and key: "\<And>L. behaves view (pk L) (m_push k (view L))" "k \<noteq> LNil"
    and act: "fills act d" and room: "length st + 2 + 2 * d < slots (view L)"
  obtains (threw) r L' where "thenS pk (thenS act (thenS (lua_settable api (- 3)) rest)) L = (r, L')"
      "throws_std r" "pushes_or_throws (view L) {} st r (view L')"
    | (stored) L' where "thenS pk (thenS act (thenS (lua_settable api (- 3)) rest)) L = rest L'"
      "stk (view L') = stk (view L)" "slots (view L') = slots (view L)" "length (tabs (view L)) \<le> length (tabs (view L'))"
proof -
  obtain L1 where L1: "pk L = (Ret (), L1)" "view L1 = (view L)\<lparr>stk := k # LTab a # st\<rparr>"
    using pushed [of pk, OF key(1), of L] room stk by fastforce
  obtain r L2 where L2: "act L1 = (r, L2)" "pushes_or_throws (view L1) UNIV st r (view L2)"
    using act [unfolded fills_def, rule_format, of L1 k "LTab a" st] L1(2) room by auto
  show thesis
  proof (cases "r = Ret ()")
    case False
    with L1 L2 show thesis
      by (intro threw [of r L2]) (auto simp: outcome_simps pushes_or_throws_def throws_std_def)
  next
    case True
    then obtain x where x: "stk (view L2) = x # k # LTab a # st" "slots (view L2) = slots (view L)"
      "length (tabs (view L)) \<le> length (tabs (view L2))"
      using L1(2) L2(2) by (auto simp: pushes_or_throws_def throws_std_def)
    then have table: "table_at (- 3) (view L2) = Some a" using a by simp
    have set: "m_settable (- 3) (view L2)
      = (Ret (), (view L2)\<lparr>stk := LTab a # st, tabs := (tabs (view L2))[a := table_set k x (tabs (view L2) ! a)]\<rparr>)"
      using x(1) table key(2) by (simp add: m_settable_def)
    obtain L3 t where L3: "lua_settable api (- 3) L2 = (Ret (), L3)"
      "view L3 = (view L2)\<lparr>stk := LTab a # st, tabs := (tabs (view L2))[a := t]\<rparr>"
      using settable [OF set table] by auto
    show thesis
      by (rule stored [of L3]) (use L1 L2(1) L3 x stk True in \<open>simp_all add: outcome_simps\<close>)
  qed
qed

text \<open>What the loops of \<open>PushTable\<close> leave: the table where it was, or an exception.\<close>

definition filled :: "'d lua_view \<Rightarrow> nat \<Rightarrow> 'd lval list \<Rightarrow> unit outcome \<Rightarrow> 'd lua_view \<Rightarrow> bool" where
  "filled v a st r v' \<longleftrightarrow> slots v' = slots v \<and> length (tabs v) \<le> length (tabs v')
     \<and> (r = Ret () \<and> stk v' = LTab a # st \<or> throws_std r \<and> (\<exists>ys. stk v' = ys @ st \<and> length ys \<le> 2))"

lemma push_members_fill:
  assumes "stk (view L) = LTab a # st" and "a < length (tabs (view L))"
    and "\<And>k j. (k, j) \<in> set kvs \<Longrightarrow> \<exists>d. fills (push j) d \<and> length st + 2 + 2 * d < slots (view L)"
  shows "\<exists>r L'. push_members api push kvs L = (r, L') \<and> filled (view L) a st r (view L')"
  using assms
proof (induction kvs arbitrary: L)
  case Nil
  then show ?case by (simp add: outcome_simps filled_def)
next
  case (Cons kj kvs)
  obtain k j where kj: "kj = (k, j)" by (cases kj)
  obtain d where d: "fills (push j) d" "length st + 2 + 2 * d < slots (view L)"
    using Cons.prems(3) [of k j] kj by auto
  show ?case
    unfolding kj push_members.simps
  proof (rule fill_step [OF Cons.prems(1,2) _ _ d,
      where pk = "lua_pushstring api (c_str k)" and k = "LStr (c_str k)" and rest = "push_members api push kvs"])
    show "behaves view (lua_pushstring api (c_str k) L) (m_push (LStr (c_str k)) (view L))" for L
      by (rule pushstring) simp
  next
    fix L' assume "thenS (lua_pushstring api (c_str k)) (thenS (push j) (thenS (lua_settable api (- 3)) (push_members api push kvs))) L
        = push_members api push kvs L'"
      and same: "stk (view L') = stk (view L)" "slots (view L') = slots (view L)" "length (tabs (view L)) \<le> length (tabs (view L'))"
    then show "\<exists>r L'. thenS (lua_pushstring api (c_str k)) (thenS (push j) (thenS (lua_settable api (- 3)) (push_members api push kvs))) L
        = (r, L') \<and> filled (view L) a st r (view L')"
      using Cons.IH [of L'] Cons.prems by (fastforce simp: filled_def)
  qed (auto simp: filled_def pushes_or_throws_def throws_std_def)
qed

lemma push_elements_fill:
  assumes "stk (view L) = LTab a # st" and "a < length (tabs (view L))"
    and "\<And>j. j \<in> set vs \<Longrightarrow> \<exists>d. fills (push j) d \<and> length st + 2 + 2 * d < slots (view L)"
  shows "\<exists>r L'. push_elements js api push i vs L = (r, L') \<and> filled (view L) a st r (view L')"
  using assms
proof (induction vs arbitrary: L i)
  case Nil
  then show ?case by (simp add: outcome_simps filled_def)
next
  case (Cons j vs)
  obtain d where d: "fills (push j) d" "length st + 2 + 2 * d < slots (view L)"
    using Cons.prems(3) [of j] by auto
  show ?case
    unfolding push_elements.simps
  proof (rule fill_step [OF Cons.prems(1,2) _ _ d,
      where pk = "lua_pushnumber api (NumberOf js i)" and k = "LNum (NumberOf js i)" and rest = "push_elements js api push (i + 1) vs"])
    show "behaves view (lua_pushnumber api (NumberOf js i) L) (m_push (LNum (NumberOf js i)) (view L))" for L
      by (rule pushnumber)
  next
    fix L' assume "thenS (lua_pushnumber api (NumberOf js i)) (thenS (push j) (thenS (lua_settable api (- 3)) (push_elements js api push (i + 1) vs))) L
        = push_elements js api push (i + 1) vs L'"
      and same: "stk (view L') = stk (view L)" "slots (view L') = slots (view L)" "length (tabs (view L)) \<le> length (tabs (view L'))"
    then show "\<exists>r L'. thenS (lua_pushnumber api (NumberOf js i)) (thenS (push j) (thenS (lua_settable api (- 3)) (push_elements js api push (i + 1) vs))) L
        = (r, L') \<and> filled (view L) a st r (view L')"
      using Cons.IH [of L' "i + 1"] Cons.prems by (fastforce simp: filled_def)
  qed (auto simp: filled_def pushes_or_throws_def throws_std_def)
qed

lemma typed_table:
  assumes parse: "FromString js v = Ret j"
    and child: "\<And>u d. depth u < d \<Longrightarrow> d \<le> depth j \<Longrightarrow> u \<in> (case j of JObj kvs \<Rightarrow> snd ` set kvs | JArr vs \<Rightarrow> set vs | _ \<Rightarrow> {})
      \<Longrightarrow> fills (push u) (depth u)"
  shows "typed (push_table js api push v) LUA_TTABLE (depth j)"
  unfolding typed_def
proof (intro allI impI)
  fix L assume room: "length (stk (view L)) + 2 * depth j < slots (view L)"
  obtain L1 where L1: "lua_newtable api L = (Ret (), L1)"
    "view L1 = (view L)\<lparr>stk := LTab (length (tabs (view L))) # stk (view L), tabs := tabs (view L) @ [[]]\<rparr>"
    using newtable_builds [of L] room by auto
  have lift: "pushes_or_throws (view L) {LUA_TTABLE} (stk (view L)) r (view L')"
    if "filled (view L1) (length (tabs (view L))) (stk (view L)) r (view L')" for r L'
    using that L1(2) by (auto simp: filled_def pushes_or_throws_def)
  consider (obj) kvs where "j = JObj kvs" | (arr) vs where "j = JArr vs"
    | (other) "\<nexists>kvs. j = JObj kvs" "\<nexists>vs. j = JArr vs" by blast
  then show "\<exists>r L'. push_table js api push v L = (r, L') \<and> pushes_or_throws (view L) {LUA_TTABLE} (stk (view L)) r (view L')"
  proof cases
    case obj
    have "\<exists>d. fills (push u) d \<and> length (stk (view L)) + 2 + 2 * d < slots (view L1)" if "(k, u) \<in> set kvs" for k u
      using child [of u "depth j"] depth_member [OF that] that room L1(2)
      by (intro exI [of _ "depth u"]) (force simp: obj)
    then have "\<exists>r L'. push_members api push kvs L1 = (r, L') \<and> filled (view L1) (length (tabs (view L))) (stk (view L)) r (view L')"
      using L1(2) by (intro push_members_fill) auto
    then show ?thesis using lift parse L1(1) obj by (auto simp: push_table_def outcome_simps)
  next
    case arr
    have "\<exists>d. fills (push u) d \<and> length (stk (view L)) + 2 + 2 * d < slots (view L1)" if "u \<in> set vs" for u
      using child [of u "depth j"] depth_element [OF that] that room L1(2)
      by (intro exI [of _ "depth u"]) (force simp: arr)
    then have "\<exists>r L'. push_elements js api push 1 vs L1 = (r, L') \<and> filled (view L1) (length (tabs (view L))) (stk (view L)) r (view L')"
      using L1(2) by (intro push_elements_fill) auto
    then show ?thesis using lift parse L1(1) arr by (auto simp: push_table_def outcome_simps)
  next
    case other
    obtain L2 where L2: "lua_pop api 1 L1 = (Ret (), L2)" "view L2 = (view L1)\<lparr>stk := drop 1 (stk (view L1))\<rparr>"
      using popped [of 1 L1] L1(2) by auto
    from other have "push_table js api push v L = (Throw (StdException ''Value is not a table''), L2)"
      using parse L1(1) L2(1) by (cases j) (simp_all add: push_table_def outcome_simps)
    then show ?thesis using L1(2) L2(2) by (auto simp: pushes_or_throws_def throws_std_def intro!: exI [of _ "[]"])
  qed
qed

lemma typed_mono: "typed act type d \<Longrightarrow> d \<le> d' \<Longrightarrow> typed act type d'"
  unfolding typed_def by (meson add_le_mono le_refl le_trans mult_le_mono2 not_le)

lemma typed_throw:
  assumes "throws_std r" and "\<And>L. act L = (r, L)"
  shows "typed act type d"
  using assms by (auto simp: typed_def pushes_or_throws_def intro!: exI [of _ "[]"])

lemma push_number_typed: "typed (push_number lexical_cast api v) LUA_TNUMBER d"
proof (cases "lexical_cast v")
  case (Ret x)
  with pushnumber [of x] show ?thesis
    by (auto simp: push_number_def outcome_simps intro!: typed_push [of _ "LNum x"])
next
  case (Throw e)
  with lexical_answers [of v] show ?thesis
    by (auto simp: push_number_def outcome_simps answers_def throws_std_def intro!: typed_throw [of "Throw e"])
qed (use lexical_answers [of v] in \<open>auto simp: answers_def throws_std_def\<close>)

lemma push_no_document_typed:
  assumes "\<nexists>j. FromString js v = Ret j"
  shows "typed (push_table js api push v) LUA_TTABLE d"
proof -
  obtain e where "FromString js v = Throw (StdException e)"
    using FromString_answers [of v] assms by (auto simp: answers_def throws_std_def)
  then show ?thesis
    by (auto simp: push_table_def outcome_simps throws_std_def intro!: typed_throw [of "Throw (StdException e)"])
qed

lemma from_string_typed:
  "0 < n \<Longrightarrow> (\<And>j. type = TypeTable \<Longrightarrow> FromString js v = Ret j \<Longrightarrow> json_wf num_ok j \<and> depth j < n \<and> depth j \<le> d)
    \<Longrightarrow> typed (from_string n js lexical_cast api type v) (lua_type_of type) d"
proof (induction n arbitrary: type v d)
  case (Suc n)
  let ?from = "from_string n js lexical_cast api"
  show ?case
  proof (cases type)
    case TypeString
    then show ?thesis
      using pushstring [of "c_str v"] by (auto simp: push_string_def intro!: typed_push [of _ "LStr (c_str v)"])
  next
    case TypeNumber
    then show ?thesis by (simp add: push_number_typed)
  next
    case TypeBoolean
    then show ?thesis
      using pushboolean by (auto simp: push_boolean_def intro!: typed_push [of _ "LBool (v = ''true'')"])
  next
    case TypeTable
    show ?thesis
    proof (cases "FromString js v")
      case (Ret j)
      have j: "json_wf num_ok j" "depth j \<le> n" "depth j \<le> d" using Suc.prems(2) [OF TypeTable Ret] by auto
      have "typed (push_table js api (push_value js api ?from) v) LUA_TTABLE (depth j)"
      proof (rule typed_table [OF Ret])
        fix u e assume u: "depth u < e" "e \<le> depth j" "u \<in> (case j of JObj kvs \<Rightarrow> snd ` set kvs | JArr vs \<Rightarrow> set vs | _ \<Rightarrow> {})"
        then have wf: "json_wf num_ok u" using j(1) by (cases j) (auto simp: list_all_iff)
        show "fills (push_value js api ?from u) (depth u)"
        proof (rule fills_push_value)
          fix ty assume ty: "get_type u = Ret ty"
          show "typed (?from ty (json_text js u)) (lua_type_of ty) (depth u)"
          proof (rule Suc.IH)
            show "json_wf num_ok j' \<and> depth j' < n \<and> depth j' \<le> depth u"
              if "ty = TypeTable" "FromString js (json_text js u) = Ret j'" for j'
              using that ty wf u j(2) FromString_ToString [OF wf]
              by (cases u) (auto simp: get_type_def json_text_def)
          qed (use u j in linarith)
        qed
      qed
      then show ?thesis using TypeTable j(3) by (auto intro: typed_mono)
    qed (use push_no_document_typed TypeTable in simp_all)
  qed
qed simp

end

section \<open>The reference instance\<close>

definition ref_lexical :: "string \<Rightarrow> int outcome" where
  "ref_lexical s =
     (case ref_parse s of Ret (JNum d) \<Rightarrow> Ret d | _ \<Rightarrow> Throw (StdException ''bad lexical cast''))"

interpretation rd: deserializer_env int_machine "\<lambda>v. v" decimal_int "\<lambda>i. i" ref_json "\<lambda>_. True" ref_lexical
proof (intro deserializer_env.intro int_machine_laws rj.json_laws_axioms deserializer_env_axioms.intro)
  show "ref_lexical (ToString ref_json (JNum d)) = Ret d" for d
    by (simp add: ref_lexical_def ref_json_def ref_parse_text)
  show "answers (ref_lexical s)" for s
    by (auto simp: ref_lexical_def split: outcome.split json.split)
  show "inj_on (NumberOf ref_json) {1..2 ^ 53}" by (simp add: ref_json_def inj_on_def)
qed

section \<open>Properties\<close>

text \<open>
  C26. The serializer writes the document that the value on top of the stack reads as, and
  leaves the stack and every table as they were, in any state of Lua with room for it.
\<close>

theorem serializer_writes_the_value:
  assumes "deserializer_env api view num_text int_num js num_ok lexical_cast"
    and "json_wf num_ok j" and "reads (tabs (view L)) j x" and "stk (view L) = x # st"
    and "\<forall>t\<in>set (tabs (view L)). table_ok t" and "length (stk (view L)) + room j \<le> slots (view L)" and "cost j \<le> fuel"
  shows "\<exists>L'. serializer_to_string fuel js api None L = (Ret (json_text js j), L') \<and> view L' = view L"
  by (rule deserializer_env.serializes_here [OF assms])

definition sample_lua :: "int lua_view" where
  "sample_lua =
     \<lparr>stk = [LTab 0], tabs = [[(LStr ''age'', LNum 7), (LStr ''tags'', LTab 1)], [(LNum 1, LBool True)]], slots = 21\<rparr>"

definition sample_document :: "int json" where
  "sample_document = JObj [(''age'', JNum 7), (''tags'', JArr [JBool True])]"

lemma sample_reads:
  "json_wf (\<lambda>_. True) sample_document" "reads (tabs sample_lua) sample_document (LTab 0)"
  "\<forall>t\<in>set (tabs sample_lua). table_ok t" "holdable sample_document" "depth sample_document = 2"
  "room sample_document = 4" "cost sample_document = 9" "stk sample_lua = [LTab 0]" "slots sample_lua = 21"
  by (simp_all add: sample_document_def sample_lua_def table_ok_def no_nul_def)

theorem serializer_writes_the_value_witness:
  "\<exists>v. serializer_to_string 9 ref_json int_machine None sample_lua = (Ret (ToString ref_json sample_document), v) \<and> v = sample_lua"
  using serializer_writes_the_value [OF rd.deserializer_env_axioms sample_reads(1,2,8,3), of 9]
  by (simp add: sample_reads json_text_def) (simp add: sample_document_def)

text \<open>
  C21. A value survives the way through a text: what the serializer writes in one state of
  Lua, the deserializer rebuilds in another as a value that holds the same document, on top
  of the stack, in new tables, with every other table untouched.
\<close>

theorem lua_value_round_trip:
  assumes env: "deserializer_env api view num_text int_num js num_ok lexical_cast"
    and doc: "json_wf num_ok j" "holdable j" "get_type j = Ret type"
    and src: "reads (tabs (view L)) j x" "stk (view L) = x # st" "\<forall>t\<in>set (tabs (view L)). table_ok t"
      "length (stk (view L)) + room j \<le> slots (view L)" "cost j \<le> fuel"
    and dst: "length (stk (view K)) + 2 * depth j < slots (view K)" "depth j < fuel'"
  shows "\<exists>text. fst (serializer_to_string fuel js api None L) = Ret text
    \<and> (\<exists>K' y U. from_string fuel' js lexical_cast api type text K = (Ret (), K')
        \<and> view K' = (view K)\<lparr>stk := y # stk (view K), tabs := tabs (view K) @ U\<rparr>
        \<and> holds (NumberOf js) (length (tabs (view K))) (tabs (view K) @ U) j y)"
  using deserializer_env.serializes_here [OF env doc(1) src]
    deserializer_env.builds_here [OF env deserializer_env.from_string_builds [OF env doc(2,1) dst(2) doc(3)] dst(1)]
  by force

theorem lua_value_round_trip_witness:
  "\<exists>K y U. from_string 3 ref_json ref_lexical int_machine TypeTable (ToString ref_json sample_document)
       \<lparr>stk = [], tabs = [], slots = 20\<rparr> = (Ret (), K)
    \<and> stk K = [y] \<and> tabs K = U \<and> holds (\<lambda>i. i) 0 U sample_document y"
proof -
  let ?K = "\<lparr>stk = [], tabs = [], slots = 20\<rparr> :: int lua_view"
  have "get_type sample_document = Ret TypeTable" by (simp add: sample_document_def get_type_def)
  note trip = lua_value_round_trip [OF rd.deserializer_env_axioms sample_reads(1,4) this sample_reads(2,8,3), of 9 ?K 3]
  have "fst (serializer_to_string 9 ref_json int_machine None sample_lua) = Ret (ToString ref_json sample_document)"
    using rd.serializes_here [OF sample_reads(1,2,8,3), of 9]
    by (simp add: sample_reads json_text_def) (auto simp: sample_document_def)
  with trip show ?thesis by (auto simp: sample_reads) (auto simp: ref_json_def)
qed

text \<open>
  An empty table does not survive: it is written as null, which the deserializer then
  refuses to read as a table.
\<close>

lemma empty_table_is_lost:
  assumes env: "deserializer_env api view num_text int_num js num_ok lexical_cast"
    and "stk (view L) = LTab a # st" and "a < length (tabs (view L))" and "tabs (view L) ! a = []"
    and "\<forall>t\<in>set (tabs (view L)). table_ok t" and "length (stk (view L)) < slots (view L)"
    and "length (stk (view K)) < slots (view K)" and "2 \<le> fuel"
  shows "\<exists>text. fst (serializer_to_string fuel js api None L) = Ret text
    \<and> (\<exists>K'. from_string (Suc n) js lexical_cast api TypeTable text K = (Throw (StdException ''Value is not a table''), K'))"
proof -
  have "\<exists>L'. serializer_to_string fuel js api None L = (Ret (json_text js JNull), L') \<and> view L' = view L"
    by (rule deserializer_env.serializes_here [OF env]) (use assms in auto)
  moreover have "\<exists>K'. from_string (Suc n) js lexical_cast api TypeTable (ToString js JNull) K
      = (Throw (StdException ''Value is not a table''), K') \<and> stk (view K') = stk (view K)"
    by (rule deserializer_env.not_a_table [OF env]) (use assms in auto)
  ultimately show ?thesis by (auto simp: json_text_def)
qed

lemma empty_table_is_lost_sample:
  "\<exists>text K. fst (serializer_to_string 2 ref_json int_machine None \<lparr>stk = [LTab 0], tabs = [[]], slots = 20\<rparr>) = Ret text
    \<and> from_string 1 ref_json ref_lexical int_machine TypeTable text \<lparr>stk = [], tabs = [], slots = 20\<rparr>
        = (Throw (StdException ''Value is not a table''), K)"
  using empty_table_is_lost [OF rd.deserializer_env_axioms, of "\<lparr>stk = [LTab 0], tabs = [[]], slots = 20\<rparr>" 0 "[]"
      "\<lparr>stk = [], tabs = [], slots = 20\<rparr>" 2 0]
  by (auto simp: table_ok_def)

end
