(* ===== verification/Lua_Kv.thy ===== *)
theory Lua_Kv
  imports Lua_Deserializer Project_Storage Script
begin

text \<open>
  The key-value storage as a script sees it, \<open>modules/kv/storage.cpp\<close>: the methods
  \<open>store\<close> and \<open>get\<close>, and the result object with its four casts. A method runs over the
  state of Lua and that of the world; its result is the number of values it returns on the
  stack. \<open>luaL_error\<close> is a \<open>LuaJump\<close>. Log messages are left out.
\<close>

section \<open>\<open>ResultCastMethod\<close> and \<open>StorageResult\<close>\<close>

record cast_method =
  cm_value :: string
  cm_is_error :: bool
  cm_type :: cast_type

definition result_cast_method ::
  "nat \<Rightarrow> 'd json_lib \<Rightarrow> (string \<Rightarrow> 'd outcome) \<Rightarrow> ('d, 'L) lua_api \<Rightarrow> cast_method \<Rightarrow> ('L, nat) action" where
  "result_cast_method fuel js lexical_cast api cm =
     bindS (getS (lua_gettop api)) (\<lambda>n.
     if n \<noteq> 2
     then jumpS (''Invalid arguments count (expected 0, provided '' @ decimal_int (int n - 2) @ '')'')
     else
       thenS (lua_settop api 0)
       (if cm_is_error cm
        then thenS (lua_pushnil api) (thenS (lua_pushstring api (c_str (cm_value cm))) (returnS 2))
        else
          thenS
            (catch_stdS
              (thenS (from_string fuel js lexical_cast api (cm_type cm) (cm_value cm)) (lua_pushnil api))
              (\<lambda>e. thenS (lua_pushnil api) (lua_pushstring api (c_str (what e)))))
          (returnS 2)))"

record storage_result =
  sr_value :: string
  sr_is_error :: bool

text \<open>\<open>getValue\<close>: a method object, or \<open>None\<close> for nil.\<close>

definition storage_result_get_value :: "storage_result \<Rightarrow> string \<Rightarrow> cast_method option" where
  "storage_result_get_value r key =
     (let method = (\<lambda>type. Some \<lparr>cm_value = sr_value r, cm_is_error = sr_is_error r, cm_type = type\<rparr>)
      in if key = ''as_string'' then method TypeString
         else if key = ''as_number'' then method TypeNumber
         else if key = ''as_boolean'' then method TypeBoolean
         else if key = ''as_table'' then method TypeTable
         else None)"

section \<open>\<open>StoreMethod\<close> and \<open>GetMethod\<close>\<close>

definition store_method ::
  "nat \<Rightarrow> 'd json_lib \<Rightarrow> ('d, 'L) lua_api \<Rightarrow> 'w storage_base \<Rightarrow> project_id \<Rightarrow> ('L \<times> 'w, nat) action" where
  "store_method fuel js api kv project =
     bindS (firstS (getS (lua_gettop api))) (\<lambda>n.
     if n \<noteq> 4
     then jumpS (''Invalid arguments count (expected 2 (key, value), provided '' @ decimal_int (int n - 2) @ '')'')
     else
       bindS (firstS (getS (lua_isstring api 3))) (\<lambda>is_string.
       if \<not> is_string then jumpS (''Expected a string type of '' @ quoted ''key'')
       else
         bindS (firstS (lua_tostring api 3)) (\<lambda>key.
         case key of
           None \<Rightarrow> liftS (Crash NullDereference)
         | Some key \<Rightarrow>
             bindS (firstS (serializer_to_string fuel js api None)) (\<lambda>value.
             thenS (firstS (lua_settop api 0))
             (bindS
               (catch_allS (thenS (secondS (Store kv project (c_str key) value)) (returnS None))
                 (\<lambda>e. returnS (Some (if is_std_exception e then what e else ''Unknow store error''))))
               (\<lambda>failure.
                 case failure of
                   Some m \<Rightarrow> thenS (firstS (lua_pushstring api (c_str m))) (returnS 1)
                 | None \<Rightarrow> thenS (firstS (lua_pushnil api)) (returnS 1)))))))"

text \<open>
  The object that \<open>GetMethod\<close> keeps in \<open>result_\<close> is returned beside the count;
  \<open>push_object\<close> is LuaCpp's \<open>PushValue\<close> of it.
\<close>

definition get_method ::
  "('d, 'L) lua_api \<Rightarrow> (storage_result \<Rightarrow> ('L, unit) action) \<Rightarrow> 'w storage_base \<Rightarrow> project_id
    \<Rightarrow> ('L \<times> 'w, nat \<times> storage_result) action" where
  "get_method api push_object kv project =
     bindS (firstS (getS (lua_gettop api))) (\<lambda>n.
     if n \<noteq> 3
     then jumpS (''Invalid arguments count (expected 1 (key), provided '' @ decimal_int (int n - 2) @ '')'')
     else
       bindS (firstS (getS (lua_isstring api 3))) (\<lambda>is_string.
       if \<not> is_string then jumpS (''Expected a string type of '' @ quoted ''key'')
       else
         bindS (firstS (lua_tostring api (- 1))) (\<lambda>key.
         case key of
           None \<Rightarrow> liftS (Crash NullDereference)
         | Some key \<Rightarrow>
             thenS (firstS (lua_settop api 0))
             (bindS
               (catch_allS
                 (bindS (secondS (Get kv project (c_str key))) (\<lambda>value. returnS \<lparr>sr_value = value, sr_is_error = False\<rparr>))
                 (\<lambda>e. returnS \<lparr>sr_value = (if is_std_exception e then c_str (what e) else ''Unknow get error''), sr_is_error = True\<rparr>))
               (\<lambda>result.
                 thenS (firstS (push_object result)) (returnS (1, result)))))))"

text \<open>\<open>kv::Storage\<close>: the method a key names, bound to the project of the script.\<close>

datatype kv_method = StoreMethod project_id | GetMethod project_id

definition kv_get_value :: "project_id \<Rightarrow> string \<Rightarrow> kv_method option" where
  "kv_get_value project key =
     (if key = ''store'' then Some (StoreMethod project)
      else if key = ''get'' then Some (GetMethod project)
      else None)"

section \<open>What the methods do\<close>

context deserializer_env
begin

lemma emptied: "\<exists>L'. lua_settop api 0 L = (Ret (), L') \<and> view L' = (view L)\<lparr>stk := []\<rparr>"
  by (rule behaves_eqD [OF settop]) (simp_all add: m_settop_def)

lemma nil_pushed:
  "length (stk (view K)) < slots (view K) \<Longrightarrow> \<exists>K'. lua_pushnil api K = (Ret (), K') \<and> view K' = (view K)\<lparr>stk := LNil # stk (view K)\<rparr>"
  by (intro behaves_eqD [OF pushnil]) (simp_all add: m_push_def)

lemma report_pushed:
  assumes "Suc (length (stk (view K))) < slots (view K)"
  shows "\<exists>K'. thenS (lua_pushnil api) (lua_pushstring api (c_str m)) K = (Ret (), K')
    \<and> view K' = (view K)\<lparr>stk := LStr (c_str m) # LNil # stk (view K)\<rparr>"
proof -
  obtain K1 where K1: "lua_pushnil api K = (Ret (), K1)" "view K1 = (view K)\<lparr>stk := LNil # stk (view K)\<rparr>"
    using nil_pushed [of K] assms by auto
  have "\<exists>K'. lua_pushstring api (c_str m) K1 = (Ret (), K') \<and> view K' = (view K1)\<lparr>stk := LStr (c_str m) # stk (view K1)\<rparr>"
    using assms K1(2) by (intro behaves_eqD [OF pushstring]) (simp_all add: m_push_def)
  with K1 show ?thesis by (auto simp: outcome_simps)
qed

lemma cast_method_typed:
  assumes "length (stk (view L)) = 2" and "4 \<le> slots (view L)" and "0 < fuel"
    and doc: "\<And>j. cm_type cm = TypeTable \<Longrightarrow> FromString js (cm_value cm) = Ret j
      \<Longrightarrow> json_wf num_ok j \<and> depth j < fuel \<and> 2 * depth j < slots (view L)"
  shows "\<exists>L' x y ys. result_cast_method fuel js lexical_cast api cm L = (Ret 2, L') \<and> stk (view L') = y # x # ys
    \<and> (\<not> cm_is_error cm \<and> y = LNil \<and> value_type x = lua_type_of (cm_type cm) \<and> ys = []
      \<or> x = LNil \<and> (\<exists>m. y = LStr m))"
proof -
  obtain L1 where L1: "lua_settop api 0 L = (Ret (), L1)" "view L1 = (view L)\<lparr>stk := []\<rparr>"
    using emptied [of L] by auto
  note eval = result_cast_method_def outcome_simps gettop assms(1) L1(1)
  show ?thesis
  proof (cases "cm_is_error cm")
    case True
    obtain L2 where "thenS (lua_pushnil api) (lua_pushstring api (c_str (cm_value cm))) L1 = (Ret (), L2)"
      "view L2 = (view L1)\<lparr>stk := LStr (c_str (cm_value cm)) # LNil # stk (view L1)\<rparr>"
      using report_pushed [of L1 "cm_value cm"] L1(2) assms(2) by auto
    then show ?thesis
      using nil_pushed [of L1] L1(2) assms(2) True
      by (auto simp: eval thenS_def bindS_def split: prod.splits outcome.splits)
  next
    case False
    let ?D = "(slots (view L) - 1) div 2"
    have "typed (from_string fuel js lexical_cast api (cm_type cm) (cm_value cm)) (lua_type_of (cm_type cm)) ?D"
      by (rule from_string_typed [OF assms(3)]) (use doc in force)
    moreover have "2 * ?D < slots (view L)" using assms(2) by presburger
    ultimately obtain r L2 where L2: "from_string fuel js lexical_cast api (cm_type cm) (cm_value cm) L1 = (r, L2)"
      "pushes_or_throws (view L1) {lua_type_of (cm_type cm)} [] r (view L2)"
      unfolding typed_def using L1(2) by (auto dest!: spec [of _ L1])
    consider (pushed) x where "r = Ret ()" "stk (view L2) = [x]" "value_type x = lua_type_of (cm_type cm)"
      | (thrown) m ys where "r = Throw (StdException m)" "stk (view L2) = ys" "length ys \<le> 2"
      using L2(2) L1(2) by (auto simp: pushes_or_throws_def throws_std_def)
    then show ?thesis
    proof cases
      case pushed
      obtain L3 where "lua_pushnil api L2 = (Ret (), L3)" "view L3 = (view L2)\<lparr>stk := LNil # stk (view L2)\<rparr>"
        using nil_pushed [of L2] pushed(2) L2(2) L1(2) assms(2) by (auto simp: pushes_or_throws_def)
      with pushed L2(1) False show ?thesis by (simp add: eval)
    next
      case thrown
      obtain L3 where "thenS (lua_pushnil api) (lua_pushstring api (c_str m)) L2 = (Ret (), L3)"
        "view L3 = (view L2)\<lparr>stk := LStr (c_str m) # LNil # stk (view L2)\<rparr>"
        using report_pushed [of L2 m] thrown(2,3) L2(2) L1(2) assms(2) by (auto simp: pushes_or_throws_def)
      with thrown L2(1) False show ?thesis by (simp add: eval)
    qed
  qed
qed

end

locale kv_module = deserializer_env api view num_text int_num js num_ok lexical_cast + kv: kv_storage_contract kv value_of
  for api :: "('d, 'L) lua_api" and view num_text int_num and js :: "'d json_lib" and num_ok and lexical_cast
    and kv :: "'w storage_base" and value_of +
  fixes push_object :: "storage_result \<Rightarrow> ('L, unit) action"
  assumes push_object: "behaves view (push_object r L) (m_push (LOther ''userdata'') (view L))"
begin

lemma one_pushed:
  assumes "stk (view L) = []" and "0 < slots (view L)"
  shows "\<exists>L'. lua_pushnil api L = (Ret (), L') \<and> view L' = (view L)\<lparr>stk := [LNil]\<rparr>"
    and "\<exists>L'. lua_pushstring api (c_str m) L = (Ret (), L') \<and> view L' = (view L)\<lparr>stk := [LStr (c_str m)]\<rparr>"
    and "\<exists>L'. push_object r L = (Ret (), L') \<and> view L' = (view L)\<lparr>stk := [LOther ''userdata'']\<rparr>"
  using assms
  by (auto intro!: behaves_eqD [OF pushnil] behaves_eqD [OF pushstring] behaves_eqD [OF push_object] simp: m_push_def)

lemma store_method_stores:
  assumes stk: "stk (view L) = [x, LStr key, s, m]" and src: "reads (tabs (view L)) j x" "json_wf num_ok j"
    "\<forall>t\<in>set (tabs (view L)). table_ok t" "4 + room j \<le> slots (view L)" "cost j \<le> fuel"
  obtains (stored) L' w' where "store_method fuel js api kv p (L, w) = (Ret 1, (L', w'))" "stk (view L') = [LNil]"
      "value_of w' = (value_of w)((p, c_str key) \<mapsto> json_text js j)" "Store kv p (c_str key) (json_text js j) w = (Ret (), w')"
    | (failed) L' w' e where "store_method fuel js api kv p (L, w) = (Ret 1, (L', w'))"
      "Store kv p (c_str key) (json_text js j) w = (Throw e, w')" "stk (view L') = [LStr (c_str (what e))]"
proof -
  have "at 3 (stk (view L)) = Some (LStr key)" "position 3 (stk (view L)) = Some 1"
    by (simp_all add: stk at_def position_def)
  then have args: "lua_gettop api L = 4" "lua_isstring api 3 L"
    and "m_tostring num_text 3 (view L) = (Ret (Some key), view L)"
    by (simp_all add: gettop stk isstring m_isstring_def m_type_def m_tostring_def)
  then obtain L1 where L1: "lua_tostring api 3 L = (Ret (Some key), L1)" "view L1 = view L"
    using behavesD [of view _ "Ret (Some key)"] tostring [of 3 L] by fastforce
  obtain L2 where L2: "serializer_to_string fuel js api None L1 = (Ret (json_text js j), L2)" "view L2 = view L"
    using serializes_here [OF src(2), of L1 x "[LStr key, s, m]" fuel] L1(2) stk src by auto
  obtain L3 where L3: "lua_settop api 0 L2 = (Ret (), L3)" "view L3 = (view L)\<lparr>stk := []\<rparr>"
    using emptied [of L2] L2(2) by auto
  have room: "stk (view L3) = []" "0 < slots (view L3)" using L3(2) src(4) by simp_all
  note eval = store_method_def outcome_simps args L1(1) L2(1) L3(1)
  show thesis
  proof (rule answersS_cases [OF kv.Store_answers [of p "c_str key" "json_text js j" w]])
    fix u w' assume st: "Store kv p (c_str key) (json_text js j) w = (Ret u, w')"
    obtain L4 where L4: "lua_pushnil api L3 = (Ret (), L4)" "view L4 = (view L3)\<lparr>stk := [LNil]\<rparr>"
      using one_pushed(1) [OF room] by blast
    from st L4 kv.Store_returned [of p "c_str key" "json_text js j" w w'] show thesis
      by (intro stored [of L4 w']) (simp_all add: eval)
  next
    fix e w' assume st: "Store kv p (c_str key) (json_text js j) w = (Throw e, w')" "is_std_exception e"
    obtain L4 where L4: "lua_pushstring api (c_str (what e)) L3 = (Ret (), L4)" "view L4 = (view L3)\<lparr>stk := [LStr (c_str (what e))]\<rparr>"
      using one_pushed(2) [OF room] by blast
    from st L4 show thesis by (intro failed [of L4 w' e]) (simp_all add: eval)
  qed
qed

lemma get_method_gets:
  assumes stk: "stk (view L) = [LStr key, s, m]" and room: "0 < slots (view L)"
  obtains L' w' r where "get_method api push_object kv p (L, w) = (Ret (1, r), (L', w'))"
    "stk (view L') = [LOther ''userdata'']" "value_of w' = value_of w"
    "if sr_is_error r then \<exists>e. Get kv p (c_str key) w = (Throw e, w') \<and> sr_value r = c_str (what e)
     else value_of w (p, c_str key) = Some (sr_value r) \<and> Get kv p (c_str key) w = (Ret (sr_value r), w')"
proof -
  have "at 3 (stk (view L)) = Some (LStr key)" by (simp add: stk at_def position_def)
  then have args: "lua_gettop api L = 3" "lua_isstring api 3 L"
    and "m_tostring num_text (- 1) (view L) = (Ret (Some key), view L)"
    by (simp_all add: gettop stk isstring m_isstring_def m_type_def m_tostring_def)
  then obtain L1 where L1: "lua_tostring api (- 1) L = (Ret (Some key), L1)" "view L1 = view L"
    using behavesD [of view _ "Ret (Some key)"] tostring [of "- 1" L] by fastforce
  obtain L2 where L2: "lua_settop api 0 L1 = (Ret (), L2)" "view L2 = (view L)\<lparr>stk := []\<rparr>"
    using emptied [of L1] L1(2) by auto
  have ready: "stk (view L2) = []" "0 < slots (view L2)" using L2(2) room by simp_all
  note eval = get_method_def outcome_simps args L1(1) L2(1)
  show thesis
  proof (rule answersS_cases [OF kv.Get_answers [of p "c_str key" w]])
    fix u w' assume g: "Get kv p (c_str key) w = (Ret u, w')"
    let ?r = "\<lparr>sr_value = u, sr_is_error = False\<rparr>"
    obtain L3 where L3: "push_object ?r L2 = (Ret (), L3)" "view L3 = (view L2)\<lparr>stk := [LOther ''userdata'']\<rparr>"
      using one_pushed(3) [OF ready] by blast
    from g L3 kv.Get_returned [OF g] kv.Get_frame [OF g] show thesis
      by (intro that [of ?r L3 w']) (simp_all add: eval)
  next
    fix e w' assume g: "Get kv p (c_str key) w = (Throw e, w')" "is_std_exception e"
    let ?r = "\<lparr>sr_value = c_str (what e), sr_is_error = True\<rparr>"
    obtain L3 where L3: "push_object ?r L2 = (Ret (), L3)" "view L3 = (view L2)\<lparr>stk := [LOther ''userdata'']\<rparr>"
      using one_pushed(3) [OF ready] by blast
    from g L3 kv.Get_frame [OF g(1)] show thesis
      by (intro that [of ?r L3 w']) (simp_all add: eval)
  qed
qed

lemma cast_method_rebuilds:
  assumes "length (stk (view L)) = 2" and doc: "json_wf num_ok j" "holdable j" "get_type j = Ret (cm_type cm)"
    and "\<not> cm_is_error cm" and "cm_value cm = json_text js j"
    and room: "Suc (2 * depth j) < slots (view L)" "depth j < fuel"
  obtains L' y U where "result_cast_method fuel js lexical_cast api cm L = (Ret 2, L')"
    "stk (view L') = [LNil, y]" "tabs (view L') = tabs (view L) @ U"
    "holds (NumberOf js) (length (tabs (view L))) (tabs (view L) @ U) j y"
proof -
  obtain L1 where L1: "lua_settop api 0 L = (Ret (), L1)" "view L1 = (view L)\<lparr>stk := []\<rparr>"
    using emptied [of L] by auto
  obtain L2 y U where L2: "from_string fuel js lexical_cast api (cm_type cm) (json_text js j) L1 = (Ret (), L2)"
    "view L2 = (view L1)\<lparr>stk := y # stk (view L1), tabs := tabs (view L1) @ U\<rparr>"
    "holds (NumberOf js) (length (tabs (view L1))) (tabs (view L1) @ U) j y"
    using builds_here [OF from_string_builds [OF doc(2,1) room(2) doc(3)], of L1] L1(2) room(1) by auto
  have "length (stk (view L2)) < slots (view L2)" using L1(2) L2(2) room(1) by simp
  then have "\<exists>L3. lua_pushnil api L2 = (Ret (), L3) \<and> view L3 = (view L2)\<lparr>stk := LNil # stk (view L2)\<rparr>"
    by (intro behaves_eqD [OF pushnil]) (simp_all add: m_push_def)
  then obtain L3 where L3: "lua_pushnil api L2 = (Ret (), L3)" "view L3 = (view L2)\<lparr>stk := LNil # stk (view L2)\<rparr>"
    by blast
  show thesis
    by (rule that [of L3 y U])
      (use assms(1,5,6) L1 L2 L3 in \<open>simp_all add: result_cast_method_def outcome_simps gettop\<close>)
qed

lemma stored_value_comes_back:
  assumes stk: "stk (view L) = [x, LStr key, s, m]" and src: "reads (tabs (view L)) j x" "json_wf num_ok j"
    "\<forall>t\<in>set (tabs (view L)). table_ok t" "4 + room j \<le> slots (view L)" "cost j \<le> fuel"
    and store: "store_method fuel js api kv p (L, w) = (Ret 1, (L', w'))" "stk (view L') = [LNil]"
    and get: "stk (view K) = [LStr key, s', m']" "0 < slots (view K)"
      "get_method api push_object kv p (K, w') = (Ret (1, r), (K', w''))" "\<not> sr_is_error r"
    and cast: "storage_result_get_value r name = Some cm" "get_type j = Ret (cm_type cm)" "holdable j"
      "length (stk (view M)) = 2" "Suc (2 * depth j) < slots (view M)" "depth j < fuel'"
  shows "\<exists>M' y U. result_cast_method fuel' js lexical_cast api cm M = (Ret 2, M') \<and> stk (view M') = [LNil, y]
    \<and> tabs (view M') = tabs (view M) @ U \<and> holds (NumberOf js) (length (tabs (view M))) (tabs (view M) @ U) j y"
proof -
  have "value_of w' = (value_of w)((p, c_str key) \<mapsto> json_text js j)"
    using store by (rule_tac store_method_stores [OF stk src, of p w]) auto
  moreover have "value_of w' (p, c_str key) = Some (sr_value r)"
    using get(3,4) by (rule_tac get_method_gets [OF get(1,2), of p w']) auto
  ultimately have "sr_value r = json_text js j" by simp
  then have "\<not> cm_is_error cm" "cm_value cm = json_text js j"
    using cast(1) get(4) by (auto simp: storage_result_get_value_def Let_def split: if_splits)
  from cast_method_rebuilds [OF cast(4) src(2) cast(3,2) this cast(5,6)] show ?thesis by metis
qed

end

text \<open>The module over the storage of the service, on the reference instances.\<close>

interpretation rkv: kv_module int_machine "\<lambda>v. v" decimal_int "\<lambda>i. i" ref_json "\<lambda>_. True" ref_lexical
    "storage_vt ref_pg" db_values "\<lambda>_. m_push (LOther ''userdata'')"
  by (intro kv_module.intro rd.deserializer_env_axioms rp.kv.kv_storage_contract_axioms kv_module_axioms.intro)
    (simp add: behaves_def)

section \<open>Properties\<close>

definition kv_sample :: "int lua_view" where
  "kv_sample = sample_lua\<lparr>stk := [LTab 0, LStr ''k'', LNil, LNil], slots := 24\<rparr>"

definition kv_sample_db :: db_tables where
  "kv_sample_db = \<lparr>db_scripts = Map.empty, db_values = Map.empty, db_instances = None\<rparr>"

lemma kv_sample_props:
  "stk kv_sample = [LTab 0, LStr ''k'', LNil, LNil]" "reads (tabs kv_sample) sample_document (LTab 0)"
  "\<forall>t\<in>set (tabs kv_sample). table_ok t" "slots kv_sample = 24" "length (tabs kv_sample) = 2"
  using sample_reads(2,3) by (simp_all add: kv_sample_def) (simp add: sample_lua_def)

lemma kv_sample_stored:
  obtains L' w' where
    "store_method 9 ref_json int_machine (storage_vt ref_pg) 1 (kv_sample, kv_sample_db) = (Ret 1, (L', w'))"
    "stk L' = [LNil]" "db_values w' (1, ''k'') = Some (json_text ref_json sample_document)"
proof -
  have room: "4 + room sample_document \<le> slots kv_sample" "cost sample_document \<le> 9"
    by (simp_all add: kv_sample_props sample_reads)
  have stores: "fst (Store (storage_vt ref_pg) 1 ''k'' u kv_sample_db) = Ret ()" for u
    by (simp add: storage_vt_def storage_store_def ref_pg_def ref_execute_def bindS_def returnS_def)
  show thesis
    by (rule rkv.store_method_stores [OF kv_sample_props(1,2) sample_reads(1) kv_sample_props(3) room, of 1 kv_sample_db])
      (use that stores [of "json_text ref_json sample_document"] in \<open>auto simp: c_str_def\<close>)
qed

lemma kv_sample_got:
  assumes "db_values w (1, ''k'') = Some u"
  obtains K' w'' r where "get_method int_machine (\<lambda>_. m_push (LOther ''userdata'')) (storage_vt ref_pg) 1
      (\<lparr>stk = [LStr ''k'', LNil, LNil], tabs = [], slots = 23\<rparr>, w) = (Ret (1, r), (K', w''))"
    "r = \<lparr>sr_value = u, sr_is_error = False\<rparr>"
  using assms
  by (simp add: get_method_def int_machine_def outcome_simps bindS_def thenS_def firstS_def secondS_def m_isstring_def m_type_def
      at_def position_def m_tostring_def m_settop_def storage_vt_def storage_get_def ref_pg_def ref_execute_def
      catch_allS_def m_push_def c_str_def)


text \<open>
  C14. What a script stores it gets back: after a \<open>store\<close> without an error, a \<open>get\<close> of the
  key without an error and the cast for the type of the value return a value that holds the
  same document, and nil for the error.
\<close>

theorem kv_value_comes_back:
  assumes env: "kv_module api view num_text int_num js num_ok lexical_cast kv value_of push_object"
    and stk: "stk (view L) = [x, LStr key, s, m]" and src: "reads (tabs (view L)) j x" "json_wf num_ok j"
      "\<forall>t\<in>set (tabs (view L)). table_ok t" "4 + room j \<le> slots (view L)" "cost j \<le> fuel"
    and store: "store_method fuel js api kv p (L, w) = (Ret 1, (L', w'))" "stk (view L') = [LNil]"
    and get: "stk (view K) = [LStr key, s', m']" "0 < slots (view K)"
      "get_method api push_object kv p (K, w') = (Ret (1, r), (K', w''))" "\<not> sr_is_error r"
    and cast: "storage_result_get_value r name = Some cm" "get_type j = Ret (cm_type cm)" "holdable j"
      "length (stk (view M)) = 2" "Suc (2 * depth j) < slots (view M)" "depth j < fuel'"
  shows "\<exists>M' y U. result_cast_method fuel' js lexical_cast api cm M = (Ret 2, M') \<and> stk (view M') = [LNil, y]
    \<and> tabs (view M') = tabs (view M) @ U \<and> holds (NumberOf js) (length (tabs (view M))) (tabs (view M) @ U) j y"
  by (rule kv_module.stored_value_comes_back [OF assms])

theorem kv_value_comes_back_witness:
  "\<exists>L' w' K' w'' r M' y.
     store_method 9 ref_json int_machine (storage_vt ref_pg) 1 (kv_sample, kv_sample_db) = (Ret 1, (L', w'))
   \<and> get_method int_machine (\<lambda>_. m_push (LOther ''userdata'')) (storage_vt ref_pg) 1
       (\<lparr>stk = [LStr ''k'', LNil, LNil], tabs = [], slots = 23\<rparr>, w') = (Ret (1, r), (K', w''))
   \<and> result_cast_method 3 ref_json ref_lexical int_machine (the (storage_result_get_value r ''as_table''))
       \<lparr>stk = [LNil, LNil], tabs = [], slots = 22\<rparr> = (Ret 2, M')
   \<and> stk M' = [LNil, y] \<and> holds (\<lambda>i. i) 0 (tabs M') sample_document y"
proof -
  obtain L' w' where st: "store_method 9 ref_json int_machine (storage_vt ref_pg) 1 (kv_sample, kv_sample_db) = (Ret 1, (L', w'))"
    "stk L' = [LNil]" "db_values w' (1, ''k'') = Some (json_text ref_json sample_document)"
    by (rule kv_sample_stored)
  obtain K' w'' r where got: "get_method int_machine (\<lambda>_. m_push (LOther ''userdata'')) (storage_vt ref_pg) 1
      (\<lparr>stk = [LStr ''k'', LNil, LNil], tabs = [], slots = 23\<rparr>, w') = (Ret (1, r), (K', w''))"
    and r: "r = \<lparr>sr_value = json_text ref_json sample_document, sr_is_error = False\<rparr>"
    by (rule kv_sample_got [OF st(3)])
  let ?cm = "\<lparr>cm_value = json_text ref_json sample_document, cm_is_error = False, cm_type = TypeTable\<rparr>"
  have cm: "storage_result_get_value r ''as_table'' = Some ?cm" by (simp add: storage_result_get_value_def r)
  have "\<exists>M' y U. result_cast_method 3 ref_json ref_lexical int_machine ?cm \<lparr>stk = [LNil, LNil], tabs = [], slots = 22\<rparr> = (Ret 2, M')
    \<and> stk M' = [LNil, y] \<and> tabs M' = [] @ U \<and> holds (NumberOf ref_json) 0 ([] @ U) sample_document y"
    using kv_value_comes_back [OF rkv.kv_module_axioms kv_sample_props(1,2) sample_reads(1) kv_sample_props(3) _ _ st(1,2)
        _ _ got _ cm, where M = "\<lparr>stk = [LNil, LNil], tabs = [], slots = 22\<rparr>" and fuel' = 3]
    by (simp add: kv_sample_props sample_reads r) (simp add: sample_document_def get_type_def)
  with st(1) got cm show ?thesis by (auto simp: ref_json_def)
qed

text \<open>
  C28. The casts of a result are typed. Whatever text the result holds, a cast returns two values:
  a value of the type it is named after and nil, or nil and a message. It needs four slots of
  stack, and for a table two slots for each level of the document.
\<close>

theorem cast_returns_its_type:
  assumes "deserializer_env api view num_text int_num js num_ok lexical_cast"
    and "length (stk (view L)) = 2" and "4 \<le> slots (view L)" and "0 < fuel"
    and "\<And>j. cm_type cm = TypeTable \<Longrightarrow> FromString js (cm_value cm) = Ret j
      \<Longrightarrow> json_wf num_ok j \<and> depth j < fuel \<and> 2 * depth j < slots (view L)"
  shows "\<exists>L' x y ys. result_cast_method fuel js lexical_cast api cm L = (Ret 2, L') \<and> stk (view L') = y # x # ys
    \<and> (\<not> cm_is_error cm \<and> y = LNil \<and> value_type x = lua_type_of (cm_type cm) \<and> ys = []
      \<or> x = LNil \<and> (\<exists>m. y = LStr m))"
  using assms by (rule deserializer_env.cast_method_typed)

theorem cast_returns_its_type_witness:
  "\<exists>L' x y ys. result_cast_method 3 ref_json ref_lexical int_machine
      \<lparr>cm_value = ToString ref_json (JArr [JNull]), cm_is_error = False, cm_type = TypeTable\<rparr>
      \<lparr>stk = [LNil, LNil], tabs = [], slots = 22\<rparr> = (Ret 2, L')
    \<and> stk L' = y # x # ys \<and> (value_type x = LUA_TTABLE \<or> (\<exists>m. y = LStr m))"
proof -
  let ?L = "\<lparr>stk = [LNil, LNil], tabs = [], slots = 22\<rparr> :: int lua_view"
  have "\<exists>L' x y ys. result_cast_method 3 ref_json ref_lexical int_machine
        \<lparr>cm_value = ToString ref_json (JArr [JNull]), cm_is_error = False, cm_type = TypeTable\<rparr> ?L = (Ret 2, L')
      \<and> stk L' = y # x # ys \<and> (\<not> False \<and> y = LNil \<and> value_type x = lua_type_of TypeTable \<and> ys = []
        \<or> x = LNil \<and> (\<exists>m. y = LStr m))"
    using cast_returns_its_type [OF rd.deserializer_env_axioms, of ?L 3
        "\<lparr>cm_value = ToString ref_json (JArr [JNull]), cm_is_error = False, cm_type = TypeTable\<rparr>"]
      rj.FromString_ToString [of "JArr [JNull]"] by simp
  then show ?thesis by auto
qed

text \<open>
  \<open>store\<close> reports what the storage does: nil when the value is stored, and then exactly
  that key of that project has changed; the message of the exception when it is not.
\<close>

lemma store_method_result:
  assumes "kv_module api view num_text int_num js num_ok lexical_cast kv value_of push_object"
    and "stk (view L) = [x, LStr key, s, m]" and "reads (tabs (view L)) j x" and "json_wf num_ok j"
    and "\<forall>t\<in>set (tabs (view L)). table_ok t" and "4 + room j \<le> slots (view L)" and "cost j \<le> fuel"
  shows "\<exists>L' w'. store_method fuel js api kv p (L, w) = (Ret 1, (L', w')) \<and>
    (stk (view L') = [LNil] \<and> value_of w' = (value_of w)((p, c_str key) \<mapsto> json_text js j)
     \<or> (\<exists>e. Store kv p (c_str key) (json_text js j) w = (Throw e, w') \<and> stk (view L') = [LStr (c_str (what e))]))"
  by (rule kv_module.store_method_stores [OF assms, of p w]) blast+

lemma store_method_result_sample:
  "\<exists>L' w'. store_method 9 ref_json int_machine (storage_vt ref_pg) 1 (kv_sample, kv_sample_db) = (Ret 1, (L', w'))
    \<and> (stk L' = [LNil] \<or> (\<exists>m. stk L' = [LStr m]))"
  using store_method_result [OF rkv.kv_module_axioms kv_sample_props(1,2) sample_reads(1) kv_sample_props(3), of 9 1 kv_sample_db]
  by (simp add: kv_sample_props sample_reads) blast

text \<open>
  C30. A value that cannot be serialized leaves \<open>store\<close> as a C++ exception when it lies
  under at most four tables, where the documented result is an error value; under five tables
  or more the clean-up after the error pops below the bottom of the stack.
\<close>

theorem store_of_unserializable_value:
  assumes "stk v = [x, LStr key, s, m]" and "buried (tabs v) d t x" and "4 + 2 * d \<le> slots v" and "2 * d < fuel"
  shows "fst (store_method fuel js (lua_machine num_text int_num) kv p (v, w))
    = (if d \<le> 4 then Throw (cannot_serialize t) else Crash StackUnderflow)"
proof -
  have "at 3 (stk v) = Some (LStr key)" "position 3 (stk v) = Some 1"
    using assms(1) by (simp_all add: at_def position_def)
  then have args: "m_isstring 3 v" "m_tostring num_text 3 v = (Ret (Some key), v)" "length (stk v) = 4"
    using assms(1) by (simp_all add: m_isstring_def m_type_def m_tostring_def)
  have ser: "if d \<le> 4 then to_value fuel js (lua_machine num_text int_num) None v = (Throw (cannot_serialize t), v\<lparr>stk := drop d (stk v)\<rparr>)
     else fst (to_value fuel js (lua_machine num_text int_num) None v) = Crash StackUnderflow"
    using buried_throws [OF assms(2,1) _ assms(4)] assms(1,3) by simp
  show ?thesis
  proof (cases "d \<le> 4")
    case True
    with ser args show ?thesis by (simp add: store_method_def outcome_simps serializer_to_string_def)
  next
    case False
    then obtain v' where "to_value fuel js (lua_machine num_text int_num) None v = (Crash StackUnderflow, v')"
      using ser by (cases "to_value fuel js (lua_machine num_text int_num) None v") auto
    with False args show ?thesis by (simp add: store_method_def outcome_simps serializer_to_string_def)
  qed
qed

definition five_deep :: "int lua_view" where
  "five_deep =
     \<lparr>stk = [LTab 0, LStr ''k'', LNil, LNil],
      tabs = [[(LStr ''a'', LTab 1)], [(LStr ''a'', LTab 2)], [(LStr ''a'', LTab 3)], [(LStr ''a'', LTab 4)],
        [(LStr ''a'', LOther ''function'')]],
      slots = 24\<rparr>"

lemma five_deep_buried: "buried (tabs five_deep) 5 ''function'' (LTab 0)"
  by (simp add: five_deep_def eval_nat_numeral)

theorem store_of_unserializable_value_witness:
  "fst (store_method 11 ref_json int_machine (storage_vt ref_pg) 1 (five_deep, kv_sample_db)) = Crash StackUnderflow"
  using store_of_unserializable_value [OF _ five_deep_buried, of "''k''" LNil LNil 11 ref_json decimal_int "\<lambda>i. i" "storage_vt ref_pg" 1 kv_sample_db]
  by (simp add: five_deep_def int_machine_def)

text \<open>
  C31. A table that contains itself sends \<open>store\<close> past the slots of the stack that a C
  function may use without asking, however many there are.
\<close>

theorem store_of_cyclic_table:
  assumes "stk v = [LTab a, LStr key, s, m]" and "a < length (tabs v)" and "tabs v ! a = [(LStr k, LTab a)]"
    and "4 \<le> slots v" and "slots v < fuel + 2"
  shows "fst (store_method fuel js (lua_machine num_text int_num) kv p (v, w)) = Crash StackOverflow"
proof -
  have "at 3 (stk v) = Some (LStr key)" "position 3 (stk v) = Some 1"
    using assms(1) by (simp_all add: at_def position_def)
  then have args: "m_isstring 3 v" "m_tostring num_text 3 v = (Ret (Some key), v)" "length (stk v) = 4"
    using assms(1) by (simp_all add: m_isstring_def m_type_def m_tostring_def)
  have "fst (to_value fuel js (lua_machine num_text int_num) None v) = Crash StackOverflow"
    by (rule cycle_overflows [OF assms(1-3)]) (use assms in auto)
  then obtain v' where "to_value fuel js (lua_machine num_text int_num) None v = (Crash StackOverflow, v')"
    by (cases "to_value fuel js (lua_machine num_text int_num) None v") auto
  with args show ?thesis by (simp add: store_method_def outcome_simps serializer_to_string_def)
qed

theorem store_of_cyclic_table_witness:
  "fst (store_method 30 ref_json int_machine (storage_vt ref_pg) 1
     (\<lparr>stk = [LTab 0, LStr ''k'', LNil, LNil], tabs = [[(LStr ''self'', LTab 0)]], slots = 24\<rparr>, kv_sample_db)) = Crash StackOverflow"
  using store_of_cyclic_table [of "\<lparr>stk = [LTab 0, LStr ''k'', LNil, LNil], tabs = [[(LStr ''self'', LTab 0)]], slots = 24\<rparr>" 0
      "''k''" LNil LNil "''self''" 30 ref_json decimal_int "\<lambda>i. i" "storage_vt ref_pg" 1 kv_sample_db]
  by (simp add: int_machine_def)

end
