(* ===== verification/Lua_Http_Client.thy ===== *)
theory Lua_Http_Client
  imports Lua_Deserializer Http_Client
begin

text \<open>
  The HTTP client as a script sees it, \<open>modules/http/client.cpp\<close>: the method
  \<open>send(method, url, params)\<close> reads its arguments off the stack of Lua, sends the request
  and pushes a table for the response. The C++ functions return an optional count, which they
  set only after \<open>luaL_error\<close>; that never returns, so the model leaves the count out. Log
  messages are left out too.
\<close>

section \<open>Reading the parameters\<close>

text \<open>
  The loop that \<open>PopulateQueryParams\<close> and \<open>PopulateHeaders\<close> share, over the table at index
  6. \<open>add\<close> is the \<open>emplace\<close> of the container.
\<close>

fun string_pairs_loop ::
  "nat \<Rightarrow> ('d, 'L) lua_api \<Rightarrow> string \<Rightarrow> (string \<Rightarrow> string \<Rightarrow> 'm \<Rightarrow> 'm) \<Rightarrow> 'm \<Rightarrow> ('L, 'm) action" where
  "string_pairs_loop 0 api complaint add m = liftS NoFuel"
| "string_pairs_loop (Suc n) api complaint add m =
     bindS (lua_next api 6) (\<lambda>more.
     if \<not> more then returnS m
     else
       bindS (getS (\<lambda>L. \<not> lua_isstring api (- 2) L \<or> \<not> lua_isstring api (- 1) L)) (\<lambda>bad.
       if bad then jumpS complaint
       else
         bindS (lua_tostring api (- 2)) (\<lambda>key.
         bindS (lua_tostring api (- 1)) (\<lambda>val.
         case (key, val) of
           (Some k, Some v) \<Rightarrow> thenS (lua_pop api 1) (string_pairs_loop n api complaint add (add (c_str k) (c_str v) m))
         | _ \<Rightarrow> liftS (Crash NullDereference)))))"

definition populate_query_params ::
  "nat \<Rightarrow> ('d, 'L) lua_api \<Rightarrow> (string, string) rehash \<Rightarrow> lua_type \<Rightarrow> ('L, (string, string) umap) action" where
  "populate_query_params fuel api reh type =
     (if type \<noteq> LUA_TTABLE then jumpS ''Expected a table type of query''
      else thenS (lua_pushnil api)
        (string_pairs_loop fuel api ''Expected a string type of key and value for query parameter'' (um_emplace reh) []))"

definition populate_headers ::
  "nat \<Rightarrow> ('d, 'L) lua_api \<Rightarrow> 'h header_lib \<Rightarrow> lua_type \<Rightarrow> ('L, 'h) action" where
  "populate_headers fuel api hl type =
     (if type \<noteq> LUA_TTABLE then jumpS ''Expected a table type of headers''
      else thenS (lua_pushnil api)
        (string_pairs_loop fuel api ''Expected a string type of key and value for headers'' (HmEmplace hl) (HmEmpty hl)))"

definition populate_body :: "nat \<Rightarrow> 'd json_lib \<Rightarrow> ('d, 'L) lua_api \<Rightarrow> lua_type \<Rightarrow> ('L, string) action" where
  "populate_body fuel js api type =
     (if type \<noteq> LUA_TSTRING \<and> type \<noteq> LUA_TNUMBER \<and> type \<noteq> LUA_TTABLE \<and> type \<noteq> LUA_TBOOLEAN
      then jumpS (''One of these types is expected for the body (string, number, table, boolean), actual = ''
        @ lua_typename api type)
      else catch_stdS (serializer_to_string fuel js api None) (\<lambda>e. jumpS (c_str (what e))))"

text \<open>A member of the table of parameters: \<open>read\<close> is not called when it is nil.\<close>

definition read_param :: "('d, 'L) lua_api \<Rightarrow> string \<Rightarrow> 'm \<Rightarrow> (lua_type \<Rightarrow> ('L, 'm) action) \<Rightarrow> ('L, 'm) action" where
  "read_param api name none read =
     thenS (lua_pushstring api name)
     (bindS (lua_gettable api 5) (\<lambda>type.
     if type \<noteq> LUA_TNIL then read type else returnS none))"

definition populate_additional_params ::
  "nat \<Rightarrow> 'd json_lib \<Rightarrow> ('d, 'L) lua_api \<Rightarrow> 'h header_lib \<Rightarrow> (string, string) rehash \<Rightarrow> 'h request
    \<Rightarrow> ('L, 'h request) action" where
  "populate_additional_params fuel js api hl reh request =
     bindS (read_param api ''query'' [] (populate_query_params fuel api reh)) (\<lambda>query.
     thenS (lua_settop api 5)
     (bindS (read_param api ''headers'' (HmEmpty hl) (populate_headers fuel api hl)) (\<lambda>headers.
     thenS (lua_settop api 5)
     (bindS (read_param api ''body'' [] (populate_body fuel js api)) (\<lambda>body.
     returnS (request\<lparr>req_query := Some query, msg_headers := Some headers, msg_body := body\<rparr>)))))) "

text \<open>The part of \<open>ClientMethod::Execute\<close> before the request is sent.\<close>

definition read_request ::
  "nat \<Rightarrow> 'd json_lib \<Rightarrow> ('d, 'L) lua_api \<Rightarrow> 'h header_lib \<Rightarrow> http_lib \<Rightarrow> (string, string) rehash \<Rightarrow> ('L, 'h request) action" where
  "read_request fuel js api hl ht reh =
     bindS (getS (lua_gettop api)) (\<lambda>n.
     if n \<noteq> 4 \<and> n \<noteq> 5
     then jumpS (''Invalid arguments count (expected 2 or 3 (method, url, [params]), provided '' @ decimal_int (int n - 2) @ '')'')
     else bindS (getS (lua_isstring api 3)) (\<lambda>ok.
     if \<not> ok then jumpS (''Expected a string type of '' @ quoted ''method'')
     else bindS (getS (lua_isstring api 4)) (\<lambda>ok.
     if \<not> ok then jumpS (''Expected a string type of '' @ quoted ''url'')
     else bindS (getS (\<lambda>L. n = 5 \<and> \<not> lua_isnil api 5 L)) (\<lambda>has_params.
     bindS (getS (lua_istable api 5)) (\<lambda>ok.
     if has_params \<and> \<not> ok then jumpS ''Expected a table type of additional params''
     else
       bindS (lua_tostring api 3) (\<lambda>method.
       bindS (lua_tostring api 4) (\<lambda>url.
       case (method, url) of
         (Some method, Some url) \<Rightarrow>
           bindS (liftS (HttpMethodFromString ht (c_str method))) (\<lambda>m.
           let request = (request_default hl)\<lparr>req_method := m, req_url := c_str url\<rparr>
           in if has_params then populate_additional_params fuel js api hl reh request else returnS request)
       | _ \<Rightarrow> liftS (Crash NullDereference))))))))"

section \<open>Pushing the response\<close>

fun push_headers :: "('d, 'L) lua_api \<Rightarrow> (string \<times> string) list \<Rightarrow> ('L, unit) action" where
  "push_headers api [] = returnS ()"
| "push_headers api ((name, v) # rest) =
     thenS (lua_pushstring api (c_str v))
     (thenS (lua_setfield api (- 2) (c_str name))
     (push_headers api rest))"

definition build_lua_response :: "('d, 'L) lua_api \<Rightarrow> 'h header_lib \<Rightarrow> 'h response \<Rightarrow> ('L, unit) action" where
  "build_lua_response api hl response =
     thenS (lua_newtable api)
     (thenS (lua_pushinteger api (sint (resp_status response)))
     (thenS (lua_setfield api (- 2) ''status'')
     (thenS
       (case msg_headers response of
          None \<Rightarrow> returnS ()
        | Some hs \<Rightarrow>
            thenS (lua_newtable api)
            (thenS (push_headers api (HmItems hl hs))
            (lua_setfield api (- 2) ''headers'')))
     (thenS (lua_pushstring api (c_str (msg_body response)))
     (lua_setfield api (- 2) ''body'')))))"

section \<open>\<open>ClientMethod::Execute\<close>\<close>

definition client_method ::
  "nat \<Rightarrow> 'd json_lib \<Rightarrow> ('d, 'L) lua_api \<Rightarrow> 'h header_lib \<Rightarrow> http_lib \<Rightarrow> (string, string) rehash
    \<Rightarrow> ('h, 'w) client_base \<Rightarrow> ('L \<times> 'w, nat) action" where
  "client_method fuel js api hl ht reh client =
     bindS (firstS (read_request fuel js api hl ht reh)) (\<lambda>request.
     thenS (firstS (lua_settop api 0))
     (bindS
       (catch_stdS
         (bindS (secondS (Send client request)) (\<lambda>response. returnS (Inr response)))
         (\<lambda>e. returnS (Inl e)))
       (\<lambda>answer.
         case answer of
           Inl e \<Rightarrow> thenS (firstS (lua_pushnil api)) (thenS (firstS (lua_pushstring api (c_str (what e)))) (returnS 2))
         | Inr response \<Rightarrow>
             thenS (firstS (build_lua_response api hl response)) (thenS (firstS (lua_pushnil api)) (returnS 2)))))"

text \<open>\<open>Client::getValue\<close>: the one method there is, or nil.\<close>

definition client_get_value :: "'m \<Rightarrow> string \<Rightarrow> 'm option" where
  "client_get_value send key = (if key = ''send'' then Some send else None)"

section \<open>The request that is read, over the machine\<close>

context lua_laws
begin

lemma string_pairs_loop_behaves:
  "behaves view (string_pairs_loop n api complaint add m L)
     (string_pairs_loop n (lua_machine num_text int_num) complaint add m (view L))"
proof (induction n arbitrary: m L)
  case 0
  show ?case by (simp add: behaves_liftS)
next
  case (Suc n)
  then show ?case
    by (auto intro!: behaves_rules behaves_getS next_ tostring pop behaves_jumpS simp: isstring split: option.split)
qed

lemma read_param_behaves:
  assumes "no_nul name" and "\<And>type K. behaves view (read type K) (read' type (view K))"
  shows "behaves view (read_param api name none read L) (read_param (lua_machine num_text int_num) name none read' (view L))"
  unfolding read_param_def using assms by (auto intro!: behaves_rules pushstring gettable)

lemma populate_behaves:
  "behaves view (populate_query_params n api reh type L) (populate_query_params n (lua_machine num_text int_num) reh type (view L))"
  "behaves view (populate_headers n api hl type L) (populate_headers n (lua_machine num_text int_num) hl type (view L))"
  "behaves view (populate_body n js api type L) (populate_body n js (lua_machine num_text int_num) type (view L))"
  unfolding populate_query_params_def populate_headers_def populate_body_def
  by (auto intro!: behaves_rules behaves_catch_stdS behaves_jumpS pushnil string_pairs_loop_behaves serializer_behaves simp: typename)

lemma names_no_nul: "no_nul ''query''" "no_nul ''headers''" "no_nul ''body''" "no_nul ''status''"
  by (simp_all add: no_nul_def)

lemma populate_additional_params_behaves:
  "behaves view (populate_additional_params n js api hl reh r L)
     (populate_additional_params n js (lua_machine num_text int_num) hl reh r (view L))"
  unfolding populate_additional_params_def
  by (auto intro!: behaves_rules read_param_behaves populate_behaves settop names_no_nul)

lemma read_request_behaves:
  "behaves view (read_request n js api hl ht reh L) (read_request n js (lua_machine num_text int_num) hl ht reh (view L))"
  unfolding read_request_def
  by (auto intro!: behaves_rules behaves_getS behaves_jumpS tostring populate_additional_params_behaves
      simp: gettop isstring lua_isnil_def lua_istable_def type_at Let_def split: option.split)

end

text \<open>A table of strings without NULs, and the pairs it lists.\<close>

definition string_table :: "'d ltable \<Rightarrow> (string \<times> string) list \<Rightarrow> bool" where
  "string_table t ps \<longleftrightarrow>
     t = map (\<lambda>(k, v). (LStr k, LStr v)) ps \<and> distinct (map fst ps) \<and> (\<forall>(k, v)\<in>set ps. no_nul k \<and> no_nul v)"

lemma string_table_ok: "string_table t ps \<Longrightarrow> table_ok t"
proof -
  assume t: "string_table t ps"
  then have "map fst t = map LStr (map fst ps)" by (auto simp: string_table_def)
  moreover have "inj_on LStr A" for A by (simp add: inj_on_def)
  ultimately show ?thesis using t unfolding table_ok_def set_map [symmetric]
    by (simp only: distinct_map string_table_def) auto
qed

lemma table_at_6: "stk v = k # LTab a # rest \<Longrightarrow> length rest = 5 \<Longrightarrow> a < length (tabs v) \<Longrightarrow> table_at 6 v = Some a"
  by (simp add: table_at_def at_def position_def)

lemma loop_reads_strings:
  assumes "stk v = k # LTab a # rest" and "length rest = 5" and "a < length (tabs v)"
    and "tabs v ! a = before @ map (\<lambda>(k, v). (LStr k, LStr v)) ps" and "table_ok (tabs v ! a)" and "stands_at k before"
    and "\<forall>(k, v)\<in>set ps. no_nul k \<and> no_nul v" and "8 \<le> slots v" and "length ps < n"
  shows "string_pairs_loop n (lua_machine nt z) complaint add m v
    = (Ret (fold (\<lambda>(k, v). add k v) ps m), v\<lparr>stk := LTab a # rest\<rparr>)"
  using assms
proof (induction ps arbitrary: n before k m v)
  case Nil
  then obtain n' where n: "n = Suc n'" by (cases n) auto
  have "m_next 6 v = (Ret False, v\<lparr>stk := LTab a # rest\<rparr>)"
    using Nil next_entry_visit [of before "[]" k] table_at_6 [OF Nil(1-3)] by (simp add: m_next_def)
  then show ?case unfolding n by (simp add: outcome_simps bindS_def)
next
  case (Cons p ps)
  obtain key val where p: "p = (key, val)" by (cases p)
  obtain n' where n: "n = Suc n'" using Cons.prems(9) by (cases n) auto
  let ?v = "v\<lparr>stk := LStr val # LStr key # LTab a # rest\<rparr>"
  have "m_next 6 v = (Ret True, ?v)"
    using Cons.prems next_entry_visit [of before "(LStr key, LStr val) # map (\<lambda>(k, v). (LStr k, LStr v)) ps" k]
      table_at_6 [OF Cons.prems(1-3)] p by (simp add: m_next_def)
  moreover have "m_isstring (- 2) ?v" "m_isstring (- 1) ?v" "m_tostring nt (- 2) ?v = (Ret (Some key), ?v)"
    "m_tostring nt (- 1) ?v = (Ret (Some val), ?v)" "m_pop 1 ?v = (Ret (), v\<lparr>stk := LStr key # LTab a # rest\<rparr>)"
    by (simp_all add: m_isstring_def m_type_def m_tostring_def m_pop_def)
  moreover have "no_nul key" "no_nul val" using Cons.prems(7) p by auto
  ultimately have turn: "string_pairs_loop n (lua_machine nt z) complaint add m v
      = string_pairs_loop n' (lua_machine nt z) complaint add (add key val m) (v\<lparr>stk := LStr key # LTab a # rest\<rparr>)"
    unfolding n by (simp add: outcome_simps bindS_def thenS_def)
  have "string_pairs_loop n' (lua_machine nt z) complaint add (add key val m) (v\<lparr>stk := LStr key # LTab a # rest\<rparr>)
      = (Ret (fold (\<lambda>(k, v). add k v) ps (add key val m)), v\<lparr>stk := LStr key # LTab a # rest\<rparr>\<lparr>stk := LTab a # rest\<rparr>)"
    by (rule Cons.IH [of _ _ "before @ [(LStr key, LStr val)]"])
      (use Cons.prems n p in \<open>auto simp: stands_at_def\<close>)
  with turn p show ?case by simp
qed

definition param :: "'d lua_view \<Rightarrow> nat \<Rightarrow> string \<Rightarrow> 'd lval" where
  "param v a name = table_get (LStr name) (tabs v ! a)"

lemma param_stk: "param (v\<lparr>stk := st\<rparr>) a = param v a"
  by (simp add: param_def fun_eq_iff)

lemma read_param_nil:
  assumes "stk v = LTab a # rest" and "length rest = 4" and "a < length (tabs v)" and "6 \<le> slots v" and "param v a name = LNil"
  shows "read_param (lua_machine nt z) name none read v = (Ret none, v\<lparr>stk := LNil # stk v\<rparr>)"
  using assms by (simp add: read_param_def outcome_simps bindS_def thenS_def m_push_def m_gettable_def table_at_def
      at_def position_def param_def)

lemma read_param_some:
  assumes "stk v = LTab a # rest" and "length rest = 4" and "a < length (tabs v)" and "6 \<le> slots v"
    and "param v a name = x" and "x \<noteq> LNil"
  shows "read_param (lua_machine nt z) name none read v = read (value_type x) (v\<lparr>stk := x # stk v\<rparr>)"
  using assms by (cases x) (simp_all add: read_param_def outcome_simps bindS_def thenS_def m_push_def m_gettable_def table_at_def
      at_def position_def param_def)

lemma read_strings_param:
  assumes "stk v = LTab a # rest" and "length rest = 4" and "a < length (tabs v)" and "8 \<le> slots v"
    and "param v a name = LTab q" and "q < length (tabs v)" and "string_table (tabs v ! q) ps" and "length ps < n"
  shows "read_param (lua_machine nt z) name none
      (\<lambda>type. if type \<noteq> LUA_TTABLE then jumpS c1 else thenS (lua_pushnil (lua_machine nt z)) (string_pairs_loop n (lua_machine nt z) c2 add m)) v
    = (Ret (fold (\<lambda>(k, v). add k v) ps m), v\<lparr>stk := LTab q # stk v\<rparr>)"
proof -
  have push: "m_push LNil (v\<lparr>stk := LTab q # stk v\<rparr>) = (Ret (), v\<lparr>stk := LNil # LTab q # stk v\<rparr>)"
    using assms by (simp add: m_push_def)
  have "string_pairs_loop n (lua_machine nt z) c2 add m (v\<lparr>stk := LNil # LTab q # stk v\<rparr>)
    = (Ret (fold (\<lambda>(k, v). add k v) ps m), v\<lparr>stk := LNil # LTab q # stk v\<rparr>\<lparr>stk := LTab q # stk v\<rparr>)"
    by (rule loop_reads_strings [where before = "[]"])
      (use assms string_table_ok [OF assms(7)] in \<open>auto simp: string_table_def stands_at_def\<close>)
  with push show ?thesis
    using read_param_some [OF assms(1-3) _ assms(5), of nt z none] assms(4) by (simp add: outcome_simps)
qed

text \<open>
  A call with a table of parameters: each of them may be missing. The query and the headers are
  tables of strings, the body is any value that can be written as a document.
\<close>

definition gives_strings :: "'d lua_view \<Rightarrow> 'd lval \<Rightarrow> (string \<times> string) list \<Rightarrow> bool" where
  "gives_strings v x ps \<longleftrightarrow>
     x = LNil \<and> ps = [] \<or> (\<exists>q. x = LTab q \<and> q < length (tabs v) \<and> string_table (tabs v ! q) ps)"

definition gives_body :: "nat \<Rightarrow> 'd json_lib \<Rightarrow> ('d \<Rightarrow> bool) \<Rightarrow> 'd lua_view \<Rightarrow> 'd lval \<Rightarrow> string \<Rightarrow> bool" where
  "gives_body n js num_ok v x body \<longleftrightarrow>
     x = LNil \<and> body = []
   \<or> (\<exists>j. reads (tabs v) j x \<and> json_wf num_ok j \<and> body = json_text js j \<and> (\<forall>t\<in>set (tabs v). table_ok t)
        \<and> 6 + room j \<le> slots v \<and> cost j \<le> n)"

definition calls_send ::
  "nat \<Rightarrow> 'd json_lib \<Rightarrow> ('d \<Rightarrow> bool) \<Rightarrow> 'd lua_view \<Rightarrow> string \<Rightarrow> string \<Rightarrow> (string \<times> string) list \<Rightarrow> (string \<times> string) list
    \<Rightarrow> string \<Rightarrow> bool" where
  "calls_send n js num_ok v method url qs hs body \<longleftrightarrow>
     (\<exists>a s c. stk v = [LTab a, LStr url, LStr method, s, c] \<and> a < length (tabs v)
       \<and> gives_strings v (param v a ''query'') qs \<and> gives_strings v (param v a ''headers'') hs
       \<and> gives_body n js num_ok v (param v a ''body'') body
       \<and> length qs < n \<and> length hs < n \<and> 8 \<le> slots v)"

lemma given_strings_are_read:
  assumes "stk v = LTab a # rest" and "length rest = 4" and "a < length (tabs v)" and "8 \<le> slots v"
    and "gives_strings v (param v a name) ps" and "length ps < n"
  shows "\<exists>x. read_param (lua_machine nt z) name m
      (\<lambda>type. if type \<noteq> LUA_TTABLE then jumpS c1 else thenS (lua_pushnil (lua_machine nt z)) (string_pairs_loop n (lua_machine nt z) c2 add m)) v
    = (Ret (fold (\<lambda>(k, v). add k v) ps m), v\<lparr>stk := x # stk v\<rparr>)"
  using assms(5) unfolding gives_strings_def
proof (elim disjE conjE exE)
  assume "param v a name = LNil" "ps = []"
  with assms(4) show ?thesis by (intro exI [of _ LNil]) (simp add: read_param_nil [OF assms(1-3)])
next
  fix q assume "param v a name = LTab q" "q < length (tabs v)" "string_table (tabs v ! q) ps"
  then show ?thesis by (intro exI) (rule read_strings_param [OF assms(1-4) _ _ _ assms(6)])
qed

lemma serializer_string:
  "stk v = LStr s # st \<Longrightarrow> serializer_to_string (Suc n) js (lua_machine nt z) None v = (Ret (c_str s), v)"
  by (simp add: serializer_to_string_def outcome_simps bindS_def m_type_def lua_string_to_value_def m_tostring_def json_text_def)

lemma text_is_read: "reads T j x \<Longrightarrow> x \<noteq> LNil \<and> value_type x \<in> {LUA_TSTRING, LUA_TNUMBER, LUA_TTABLE, LUA_TBOOLEAN}"
  by (cases j) auto

context json_laws
begin

lemma given_body_is_read:
  assumes "stk v = LTab a # rest" and "length rest = 4" and "a < length (tabs v)" and "6 \<le> slots v"
    and "gives_body n js num_ok v (param v a ''body'') body"
  shows "\<exists>x. read_param (lua_machine nt z) ''body'' [] (populate_body n js (lua_machine nt z)) v = (Ret body, v\<lparr>stk := x # stk v\<rparr>)"
  using assms(5) unfolding gives_body_def
proof (elim disjE conjE exE)
  assume "param v a ''body'' = LNil" "body = []"
  then show ?thesis by (intro exI [of _ LNil]) (simp add: read_param_nil [OF assms(1-4)])
next
  fix j assume j: "reads (tabs v) j (param v a ''body'')" "json_wf num_ok j" "body = json_text js j" "\<forall>t\<in>set (tabs v). table_ok t"
    "6 + room j \<le> slots v" "cost j \<le> n"
  let ?x = "param v a ''body''"
  have "to_value n js (lua_machine nt z) None (v\<lparr>stk := ?x # stk v\<rparr>) = (Ret j, v\<lparr>stk := ?x # stk v\<rparr>)"
    using reads_serializes [OF j(4,2,1,6)] assms(1,2) j(5) by (simp add: serializes_def)
  then have "serializer_to_string n js (lua_machine nt z) None (v\<lparr>stk := ?x # stk v\<rparr>) = (Ret body, v\<lparr>stk := ?x # stk v\<rparr>)"
    by (simp add: serializer_to_string_def outcome_simps j(3))
  with text_is_read [OF j(1)] read_param_some [OF assms(1-4) refl, of "''body''" nt z "[]" "populate_body n js (lua_machine nt z)"]
  show ?thesis by (intro exI [of _ ?x]) (auto simp: populate_body_def outcome_simps)
qed

lemma read_request_machine:
  assumes call: "calls_send n js num_ok v method url qs hs body" and m: "HttpMethodFromString ht (c_str method) = Ret m"
  obtains v' where "read_request n js (lua_machine nt z) hl ht reh v =
    (Ret \<lparr>msg_headers = Some (fold (\<lambda>(k, v). HmEmplace hl k v) hs (HmEmpty hl)), msg_body = body, req_method = m,
      req_url = c_str url, req_query = Some (fold (\<lambda>(k, v). um_emplace reh k v) qs [])\<rparr>, v')" "slots v' = slots v"
proof -
  obtain a s c where stk: "stk v = [LTab a, LStr url, LStr method, s, c]" and a: "a < length (tabs v)"
    and q: "gives_strings v (param v a ''query'') qs" and h: "gives_strings v (param v a ''headers'') hs"
    and b: "gives_body n js num_ok v (param v a ''body'') body" and fuel: "length qs < n" "length hs < n" and room: "8 \<le> slots v"
    using call unfolding calls_send_def by blast
  have args: "m_isstring 3 v" "m_isstring 4 v" "m_type 5 v = LUA_TTABLE"
    "m_tostring nt 3 v = (Ret (Some method), v)" "m_tostring nt 4 v = (Ret (Some url), v)"
    by (simp_all add: m_isstring_def m_type_def m_tostring_def at_def position_def stk)
  have pop: "m_settop 5 (v\<lparr>stk := x # stk v\<rparr>) = (Ret (), v)" for x
    using stk by (simp add: m_settop_def stk_update_same)
  have "\<exists>x. read_param (lua_machine nt z) ''query'' [] (populate_query_params n (lua_machine nt z) reh) v
      = (Ret (fold (\<lambda>(k, v). um_emplace reh k v) qs []), v\<lparr>stk := x # stk v\<rparr>)"
    unfolding populate_query_params_def [abs_def] by (rule given_strings_are_read [OF stk _ a room q fuel(1)]) simp
  then obtain x where query: "read_param (lua_machine nt z) ''query'' [] (populate_query_params n (lua_machine nt z) reh) v
      = (Ret (fold (\<lambda>(k, v). um_emplace reh k v) qs []), v\<lparr>stk := x # stk v\<rparr>)" by blast
  have "\<exists>y. read_param (lua_machine nt z) ''headers'' (HmEmpty hl) (populate_headers n (lua_machine nt z) hl) v
      = (Ret (fold (\<lambda>(k, v). HmEmplace hl k v) hs (HmEmpty hl)), v\<lparr>stk := y # stk v\<rparr>)"
    unfolding populate_headers_def [abs_def] by (rule given_strings_are_read [OF stk _ a room h fuel(2)]) simp
  then obtain y where headers: "read_param (lua_machine nt z) ''headers'' (HmEmpty hl) (populate_headers n (lua_machine nt z) hl) v
      = (Ret (fold (\<lambda>(k, v). HmEmplace hl k v) hs (HmEmpty hl)), v\<lparr>stk := y # stk v\<rparr>)" by blast
  obtain t where body: "read_param (lua_machine nt z) ''body'' [] (populate_body n js (lua_machine nt z)) v
      = (Ret body, v\<lparr>stk := t # stk v\<rparr>)"
    using given_body_is_read [OF stk _ a _ b] room by auto
  show thesis
    using args pop query headers body stk m
    by (intro that [of "v\<lparr>stk := t # stk v\<rparr>"])
      (simp_all add: read_request_def populate_additional_params_def
        outcome_simps lua_isnil_def lua_istable_def Let_def request_default_def populate_message_default_def new_request_def)
qed

end

section \<open>The response table\<close>

text \<open>What a script reads from the table of a response.\<close>

definition shows_response :: "(int \<Rightarrow> 'd) \<Rightarrow> 'd lua_view \<Rightarrow> nat \<Rightarrow> 'h header_lib \<Rightarrow> 'h response \<Rightarrow> bool" where
  "shows_response int_num v a hl r \<longleftrightarrow>
     param v a ''status'' = LNum (int_num (sint (resp_status r)))
   \<and> param v a ''body'' = LStr (c_str (msg_body r))
   \<and> (case msg_headers r of
        None \<Rightarrow> param v a ''headers'' = LNil
      | Some hs \<Rightarrow> \<exists>h. param v a ''headers'' = LTab h \<and>
          (\<forall>(n, x) \<in> set (HmItems hl hs). distinct (map (c_str \<circ> fst) (HmItems hl hs)) \<longrightarrow>
             param v h (c_str n) = LStr (c_str x)))"

lemma shows_response_stk: "shows_response int_num (v\<lparr>stk := st\<rparr>) a hl r = shows_response int_num v a hl r"
  by (simp add: shows_response_def param_stk split: option.split)

definition fill :: "(string \<times> string) list \<Rightarrow> ('d lval \<rightharpoonup> 'd lval) \<Rightarrow> ('d lval \<rightharpoonup> 'd lval)" where
  "fill items m = fold (\<lambda>(n, v) m. m(LStr (c_str n) \<mapsto> LStr (c_str v))) items m"

context lua_laws
begin

lemma push_ok:
  assumes "behaves view r (m_push x (view L))" and "length (stk (view L)) < slots (view L)"
  obtains L' where "r = (Ret (), L')" "view L' = (view L)\<lparr>stk := x # stk (view L)\<rparr>"
  using behaves_eqD [OF assms(1), of "Ret ()"] assms(2) by (auto simp: m_push_def)

lemma set_field:
  assumes stk: "stk (view L) = x # LTab a # st" and a: "a < length (tabs (view L))"
    and t: "distinct (map fst (tabs (view L) ! a))" and x: "x \<noteq> LNil" and name: "no_nul name"
  obtains L' t' where "lua_setfield api (- 2) name L = (Ret (), L')"
    "view L' = (view L)\<lparr>stk := LTab a # st, tabs := (tabs (view L))[a := t']\<rparr>"
    "distinct (map fst t')" "map_of t' = (map_of (tabs (view L) ! a))(LStr name \<mapsto> x)"
proof -
  let ?u = "table_set (LStr name) x (tabs (view L) ! a)"
  let ?v = "(view L)\<lparr>stk := LTab a # st, tabs := (tabs (view L))[a := ?u]\<rparr>"
  have table: "table_at (- 2) (view L) = Some a" using stk a by simp
  then have "m_setfield (- 2) name (view L) = (Ret (), ?v)" using stk by (simp add: m_setfield_def)
  from setfield [OF this table name] obtain L' t' where L': "lua_setfield api (- 2) name L = (Ret (), L')"
    "mset t' = mset ?u" "view L' = ?v\<lparr>tabs := (tabs ?v)[a := t']\<rparr>" using a by auto
  have dist: "distinct (map fst ?u)" using x t by (rule distinct_table_set)
  have "distinct (map fst t')" using dist L'(2) by (metis mset_eq_imp_distinct_iff mset_map)
  moreover have "map_of t' = (map_of (tabs (view L) ! a))(LStr name \<mapsto> x)"
    using map_of_mset_eq [OF L'(2) dist] map_of_table_set [OF x] by metis
  ultimately show thesis using L' by (intro that [of L' t']) auto
qed

lemma fill_other: "l \<notin> (\<lambda>(n, v). LStr (c_str n)) ` set items \<Longrightarrow> fill items m l = m l"
  unfolding fill_def by (induction items arbitrary: m) auto

lemma fill_item:
  "distinct (map (c_str \<circ> fst) items) \<Longrightarrow> (n, v) \<in> set items \<Longrightarrow> fill items (m :: 'd lval \<rightharpoonup> 'd lval) (LStr (c_str n)) = Some (LStr (c_str v))"
proof (induction items arbitrary: m)
  case (Cons p items)
  obtain n' v' where p: "p = (n', v')" by (cases p)
  have step: "fill (p # items) m = fill items (m(LStr (c_str n') \<mapsto> LStr (c_str v')))"
    by (simp add: fill_def p)
  show ?case
  proof (cases "(n, v) \<in> set items")
    case True
    with Cons.IH Cons.prems(1) show ?thesis unfolding step by simp
  next
    case False
    with Cons.prems p have "n = n'" "v = v'" by auto
    moreover have "(LStr (c_str n') :: 'd lval) \<notin> (\<lambda>(n, v). LStr (c_str n)) ` set items"
      using Cons.prems(1) p by force
    ultimately show ?thesis unfolding step by (simp add: fill_other)
  qed
qed simp

lemma push_headers_fills:
  assumes "stk (view L) = LTab h # st" and "length st + 1 < slots (view L)" and "h < length (tabs (view L))"
    and "distinct (map fst (tabs (view L) ! h))"
  shows "\<exists>L' t. push_headers api items L = (Ret (), L') \<and> view L' = (view L)\<lparr>tabs := (tabs (view L))[h := t]\<rparr>
    \<and> distinct (map fst t) \<and> map_of t = fill items (map_of (tabs (view L) ! h))"
  using assms
proof (induction items arbitrary: L)
  case Nil
  then show ?case
    by (intro exI [of _ L] exI [of _ "tabs (view L) ! h"]) (cases "view L", simp add: outcome_simps fill_def)
next
  case (Cons p items)
  obtain n v where p: "p = (n, v)" by (cases p)
  obtain L1 where L1: "lua_pushstring api (c_str v) L = (Ret (), L1)" "view L1 = (view L)\<lparr>stk := LStr (c_str v) # stk (view L)\<rparr>"
    using push_ok [OF pushstring [of "c_str v" L]] Cons.prems by auto
  obtain L2 t2 where L2: "lua_setfield api (- 2) (c_str n) L1 = (Ret (), L2)"
    "view L2 = (view L1)\<lparr>stk := LTab h # st, tabs := (tabs (view L1))[h := t2]\<rparr>"
    "distinct (map fst t2)" "map_of t2 = (map_of (tabs (view L1) ! h))(LStr (c_str n) \<mapsto> LStr (c_str v))"
    by (rule set_field [of L1 "LStr (c_str v)" h st "c_str n"]) (use L1(2) Cons.prems in auto)
  have "\<exists>L' t. push_headers api items L2 = (Ret (), L') \<and> view L' = (view L2)\<lparr>tabs := (tabs (view L2))[h := t]\<rparr>
    \<and> distinct (map fst t) \<and> map_of t = fill items (map_of (tabs (view L2) ! h))"
    by (rule Cons.IH) (use L1 L2 Cons.prems in auto)
  then obtain L' t where L': "push_headers api items L2 = (Ret (), L')" "view L' = (view L2)\<lparr>tabs := (tabs (view L2))[h := t]\<rparr>"
    "distinct (map fst t)" "map_of t = fill items (map_of (tabs (view L2) ! h))" by blast
  show ?case
    by (intro exI [of _ L'] exI [of _ t])
      (use L' L1 L2 Cons.prems p in \<open>simp add: outcome_simps fill_def stk_update_same\<close>)
qed

lemma newtable_ok:
  assumes "length (stk (view L)) < slots (view L)"
  obtains L' where "lua_newtable api L = (Ret (), L')"
    "view L' = (view L)\<lparr>stk := LTab (length (tabs (view L))) # stk (view L), tabs := tabs (view L) @ [[]]\<rparr>"
  using behaves_eqD [OF newtable [of L], of "Ret ()"] assms by (auto simp: m_newtable_def)

text \<open>The part of \<open>BuildLuaResponse\<close> that writes the headers.\<close>

lemma headers_member:
  fixes r :: "'h response"
  assumes L3: "view L3 = v\<lparr>stk := [LTab (length T)], tabs := T @ [t3]\<rparr>" "distinct (map fst t3)"
    "map_of t3 = [LStr ''status'' \<mapsto> x]" and room: "4 \<le> slots v"
  shows "\<exists>L4 t4 U. (case msg_headers r of
        None \<Rightarrow> returnS ()
      | Some hs \<Rightarrow> thenS (lua_newtable api) (thenS (push_headers api (HmItems hl hs)) (lua_setfield api (- 2) ''headers''))) L3
      = (Ret (), L4) \<and> view L4 = v\<lparr>stk := [LTab (length T)], tabs := T @ t4 # U\<rparr> \<and> distinct (map fst t4)
    \<and> map_of t4 (LStr ''status'') = Some x
    \<and> (case msg_headers r of
        None \<Rightarrow> map_of t4 (LStr ''headers'') = None
      | Some hs \<Rightarrow> map_of t4 (LStr ''headers'') = Some (LTab (Suc (length T)))
          \<and> (\<exists>u. U = [u] \<and> map_of u = fill (HmItems hl hs) Map.empty))"
proof (cases "msg_headers r")
  case None
  with L3 show ?thesis by (intro exI [of _ L3] exI [of _ t3] exI [of _ "[]"]) (simp add: outcome_simps)
next
  case (Some hs)
  let ?a = "length T"
  obtain K1 where K1: "lua_newtable api L3 = (Ret (), K1)"
    "view K1 = v\<lparr>stk := [LTab (Suc ?a), LTab ?a], tabs := T @ [t3, []]\<rparr>"
    using newtable_ok [of L3] L3(1) room by auto
  obtain K2 u where K2: "push_headers api (HmItems hl hs) K1 = (Ret (), K2)"
    "view K2 = v\<lparr>stk := [LTab (Suc ?a), LTab ?a], tabs := T @ [t3, u]\<rparr>"
    "distinct (map fst u)" "map_of u = fill (HmItems hl hs) Map.empty"
    using push_headers_fills [of K1 "Suc ?a" "[LTab ?a]" "HmItems hl hs"] K1(2) room
    by (auto simp: nth_append list_update_append)
  obtain K3 t4 where K3: "lua_setfield api (- 2) ''headers'' K2 = (Ret (), K3)"
    "view K3 = v\<lparr>stk := [LTab ?a], tabs := T @ [t4, u]\<rparr>"
    "distinct (map fst t4)" "map_of t4 = (map_of t3)(LStr ''headers'' \<mapsto> LTab (Suc ?a))"
    by (rule set_field [of K2 "LTab (Suc ?a)" ?a "[]" "''headers''"]) (use K2(2) L3(2) in \<open>auto simp: no_nul_def\<close>)
  with Some K1(1) K2(1,4) L3(3) show ?thesis
    by (intro exI [of _ K3] exI [of _ t4] exI [of _ "[u]"]) (simp add: outcome_simps)
qed

lemma build_response_shows:
  assumes stk: "stk (view L) = []" and room: "4 \<le> slots (view L)"
  obtains L' a where "build_lua_response api hl r L = (Ret (), L')" "stk (view L') = [LTab a]"
    "shows_response int_num (view L') a hl r" "slots (view L') = slots (view L)"
proof -
  let ?a = "length (tabs (view L))" and ?T = "tabs (view L)"
  define z where "z = sint (resp_status r)"
  let ?status = "LNum (int_num z)" and ?body = "LStr (c_str (msg_body r))"
  obtain L1 where L1: "lua_newtable api L = (Ret (), L1)" "view L1 = (view L)\<lparr>stk := [LTab ?a], tabs := ?T @ [[]]\<rparr>"
    using newtable_ok [of L] stk room by auto
  obtain L2 where L2: "lua_pushinteger api z L1 = (Ret (), L2)"
    "view L2 = (view L)\<lparr>stk := [?status, LTab ?a], tabs := ?T @ [[]]\<rparr>"
    by (rule push_ok [OF pushinteger [of z L1]]) (use L1(2) room in simp_all)
  obtain L3 t3 where L3: "lua_setfield api (- 2) ''status'' L2 = (Ret (), L3)"
    "view L3 = (view L)\<lparr>stk := [LTab ?a], tabs := ?T @ [t3]\<rparr>"
    "distinct (map fst t3)" "map_of t3 = [LStr ''status'' \<mapsto> ?status]"
    by (rule set_field [of L2 ?status ?a "[]" "''status''"]) (use L2(2) in \<open>auto simp: no_nul_def\<close>)
  define act where "act = (case msg_headers r of
          None \<Rightarrow> returnS ()
        | Some hs \<Rightarrow> thenS (lua_newtable api) (thenS (push_headers api (HmItems hl hs)) (lua_setfield api (- 2) ''headers'')))"
  have "\<exists>L4 t4 U. act L3 = (Ret (), L4) \<and> view L4 = (view L)\<lparr>stk := [LTab ?a], tabs := ?T @ t4 # U\<rparr> \<and> distinct (map fst t4)
    \<and> map_of t4 (LStr ''status'') = Some ?status
    \<and> (case msg_headers r of
        None \<Rightarrow> map_of t4 (LStr ''headers'') = None
      | Some hs \<Rightarrow> map_of t4 (LStr ''headers'') = Some (LTab (Suc ?a)) \<and> (\<exists>u. U = [u] \<and> map_of u = fill (HmItems hl hs) Map.empty))"
    unfolding act_def by (rule headers_member [OF L3(2-4) room])
  then obtain L4 t4 U where L4: "act L3 = (Ret (), L4)" "view L4 = (view L)\<lparr>stk := [LTab ?a], tabs := ?T @ t4 # U\<rparr>"
    "distinct (map fst t4)" "map_of t4 (LStr ''status'') = Some ?status"
    "case msg_headers r of
        None \<Rightarrow> map_of t4 (LStr ''headers'') = None
      | Some hs \<Rightarrow> map_of t4 (LStr ''headers'') = Some (LTab (Suc ?a)) \<and> (\<exists>u. U = [u] \<and> map_of u = fill (HmItems hl hs) Map.empty)"
    by blast
  obtain L5 where L5: "lua_pushstring api (c_str (msg_body r)) L4 = (Ret (), L5)"
    "view L5 = (view L)\<lparr>stk := [?body, LTab ?a], tabs := ?T @ t4 # U\<rparr>"
    by (rule push_ok [OF pushstring [of "c_str (msg_body r)" L4]]) (use L4(2) room in simp_all)
  obtain L6 t6 where L6: "lua_setfield api (- 2) ''body'' L5 = (Ret (), L6)"
    "view L6 = (view L)\<lparr>stk := [LTab ?a], tabs := ?T @ t6 # U\<rparr>" "map_of t6 = (map_of t4)(LStr ''body'' \<mapsto> ?body)"
    by (rule set_field [of L5 ?body ?a "[]" "''body''"]) (use L5(2) L4(3) in \<open>auto simp: no_nul_def\<close>)
  have "build_lua_response api hl r L = (Ret (), L6)"
    using L1(1) L2(1) L3(1) L4(1) L5(1) L6(1) by (simp add: build_lua_response_def outcome_simps flip: act_def z_def)
  moreover have "shows_response int_num (view L6) ?a hl r"
    using L6(2,3) L4(4,5)
    by (auto simp: shows_response_def param_def table_get_def fill_item z_def nth_append split: option.splits)
  ultimately show thesis using L6(2) by (intro that [of L6 ?a]) simp_all
qed

end

section \<open>The whole method\<close>

text \<open>A call with a method and a URL, and nil or nothing for the rest.\<close>

definition calls_send_plain :: "'d lua_view \<Rightarrow> string \<Rightarrow> string \<Rightarrow> bool" where
  "calls_send_plain v method url \<longleftrightarrow> 4 \<le> slots v
     \<and> (\<exists>object self. stk v = [LStr url, LStr method, self, object] \<or> stk v = [LNil, LStr url, LStr method, self, object])"

locale lua_http_env = lua_laws api view num_text int_num + message_env js num_ok hl canon ht reh + http_client_contract client
  for api :: "('d, 'L) lua_api" and view num_text int_num and js :: "'d json_lib" and num_ok and hl :: "'h header_lib"
    and canon ht reh and client :: "('h, 'w) client_base"
begin

lemma request_is_read:
  assumes "calls_send n js num_ok (view L) method url qs hs body" and "HttpMethodFromString ht (c_str method) = Ret m"
  obtains L' q h where "read_request n js api hl ht reh L =
      (Ret \<lparr>msg_headers = Some h, msg_body = body, req_method = m, req_url = c_str url, req_query = Some q\<rparr>, L')"
    "4 \<le> slots (view L')" "map_of q = map_of qs" "\<forall>k. header_value hl canon h k = map_of (map (\<lambda>(n, v). (canon n, v)) hs) (canon k)"
proof -
  let ?r = "\<lparr>msg_headers = Some (fold (\<lambda>(k, v). HmEmplace hl k v) hs (HmEmpty hl)), msg_body = body, req_method = m,
      req_url = c_str url, req_query = Some (fold (\<lambda>(k, v). um_emplace reh k v) qs [])\<rparr>"
  obtain v' where v': "read_request n js (lua_machine num_text int_num) hl ht reh (view L) = (Ret ?r, v')" "slots v' = slots (view L)"
    by (rule read_request_machine [OF assms])
  from behaves_eqD [OF read_request_behaves v'(1)] obtain L' where L': "read_request n js api hl ht reh L = (Ret ?r, L')" "view L' = v'"
    by auto
  show thesis
  proof (rule that [OF L'(1)])
    show "4 \<le> slots (view L')" using L'(2) v'(2) assms(1) by (auto simp: calls_send_def)
    show "map_of (fold (\<lambda>(k, v). um_emplace reh k v) qs []) = map_of qs" using emplace_all_umap [OF um_ok_Nil, of qs] by simp
    show "\<forall>k. header_value hl canon (fold (\<lambda>(k, v). HmEmplace hl k v) hs (HmEmpty hl)) k
        = map_of (map (\<lambda>(n, v). (canon n, v)) hs) (canon k)"
      using header_value_emplace_all [OF names_distinct_empty, of hs] by (simp add: header_value_empty)
  qed
qed

text \<open>What follows once the request is read.\<close>

lemma read_request_is_sent:
  assumes read: "read_request n js api hl ht reh L = (Ret rq, L1)" and slots: "4 \<le> slots (view L1)" and complete: "complete_request rq"
  shows "\<exists>L' w'. client_method n js api hl ht reh client (L, w) = (Ret 2, (L', w'))
    \<and> (case Send client rq w of
        (Ret r, w1) \<Rightarrow> w' = w1 \<and> (\<exists>a. stk (view L') = [LNil, LTab a] \<and> shows_response int_num (view L') a hl r)
      | (Throw e, w1) \<Rightarrow> w' = w1 \<and> stk (view L') = [LStr (c_str (what e)), LNil]
      | _ \<Rightarrow> False)"
proof -
  obtain L2 where L2: "lua_settop api 0 L1 = (Ret (), L2)" "stk (view L2) = []" "4 \<le> slots (view L2)"
    using behaves_eqD [OF settop [of 0 L1], of "Ret ()"] slots by (auto simp: m_settop_def)
  from Send_answers [OF complete, of w] show ?thesis
  proof (rule answersS_cases)
    fix resp w1 assume send: "Send client rq w = (Ret resp, w1)"
    obtain L3 a where L3: "build_lua_response api hl resp L2 = (Ret (), L3)" "stk (view L3) = [LTab a]"
      "shows_response int_num (view L3) a hl resp"
      "slots (view L3) = slots (view L2)" by (rule build_response_shows [OF L2(2,3)])
    obtain L4 where L4: "lua_pushnil api L3 = (Ret (), L4)" "view L4 = (view L3)\<lparr>stk := LNil # stk (view L3)\<rparr>"
      by (rule push_ok [OF pushnil [of L3]]) (use L2(3) L3 in simp_all)
    have "shows_response int_num (view L4) a hl resp" using L3(3) L4(2) by (simp add: shows_response_stk)
    then show ?thesis
      using read L2 L3 L4 send
      by (intro exI [of _ L4] exI [of _ w1]) (simp add: client_method_def outcome_simps)
  next
    fix e w1 assume send: "Send client rq w = (Throw e, w1)" "is_std_exception e"
    obtain L3 where L3: "lua_pushnil api L2 = (Ret (), L3)" "view L3 = (view L2)\<lparr>stk := LNil # stk (view L2)\<rparr>"
      by (rule push_ok [OF pushnil [of L2]]) (use L2 in simp_all)
    obtain L4 where L4: "lua_pushstring api (c_str (what e)) L3 = (Ret (), L4)"
      "view L4 = (view L3)\<lparr>stk := LStr (c_str (what e)) # stk (view L3)\<rparr>"
      by (rule push_ok [OF pushstring [of "c_str (what e)" L3]]) (use L2 L3 in simp_all)
    then show ?thesis
      using read L2 L3 L4 send
      by (intro exI [of _ L4] exI [of _ w1]) (simp add: client_method_def outcome_simps)
  qed
qed

lemma send_method_result:
  assumes call: "calls_send n js num_ok (view L) method url qs hs body" "HttpMethodFromString ht (c_str method) = Ret m"
  shows "\<exists>q h L' w'. map_of q = map_of qs
    \<and> (\<forall>k. header_value hl canon h k = map_of (map (\<lambda>(n, v). (canon n, v)) hs) (canon k))
    \<and> client_method n js api hl ht reh client (L, w) = (Ret 2, (L', w'))
    \<and> (case Send client \<lparr>msg_headers = Some h, msg_body = body, req_method = m, req_url = c_str url, req_query = Some q\<rparr> w of
        (Ret r, w1) \<Rightarrow> w' = w1 \<and> (\<exists>a. stk (view L') = [LNil, LTab a] \<and> shows_response int_num (view L') a hl r)
      | (Throw e, w1) \<Rightarrow> w' = w1 \<and> stk (view L') = [LStr (c_str (what e)), LNil]
      | _ \<Rightarrow> False)"
proof -
  obtain L1 q h where L1: "read_request n js api hl ht reh L =
      (Ret \<lparr>msg_headers = Some h, msg_body = body, req_method = m, req_url = c_str url, req_query = Some q\<rparr>, L1)"
    and "4 \<le> slots (view L1)" and qh: "map_of q = map_of qs" "\<forall>k. header_value hl canon h k = map_of (map (\<lambda>(n, v). (canon n, v)) hs) (canon k)"
    by (rule request_is_read [OF call])
  with read_request_is_sent [OF L1, of w] show ?thesis
    by (intro exI [of _ q] exI [of _ h]) (simp add: complete_request_def)
qed

lemma plain_request_is_read:
  assumes "calls_send_plain (view L) method url" and "HttpMethodFromString ht (c_str method) = Ret m"
  obtains L1 where "read_request n js api hl ht reh L = (Ret ((request_default hl)\<lparr>req_method := m, req_url := c_str url\<rparr>), L1)"
    "view L1 = view L"
proof -
  have "read_request n js (lua_machine num_text int_num) hl ht reh (view L)
      = (Ret ((request_default hl)\<lparr>req_method := m, req_url := c_str url\<rparr>), view L)"
    using assms unfolding calls_send_plain_def
    by (elim conjE exE disjE)
      (simp_all add: read_request_def outcome_simps bindS_def getS_def at_def position_def m_isstring_def m_type_def
        m_tostring_def lua_isnil_def lua_istable_def)
  from behaves_eqD [OF read_request_behaves this] show thesis by (auto intro: that)
qed

lemma plain_request_is_sent:
  assumes "calls_send_plain (view L) method url" and "HttpMethodFromString ht (c_str method) = Ret m"
  shows "\<exists>L' w'. client_method n js api hl ht reh client (L, w) = (Ret 2, (L', w'))
    \<and> (case Send client ((request_default hl)\<lparr>req_method := m, req_url := c_str url\<rparr>) w of
        (Ret r, w1) \<Rightarrow> w' = w1 \<and> (\<exists>a. stk (view L') = [LNil, LTab a] \<and> shows_response int_num (view L') a hl r)
      | (Throw e, w1) \<Rightarrow> w' = w1 \<and> stk (view L') = [LStr (c_str (what e)), LNil]
      | _ \<Rightarrow> False)"
proof -
  obtain L1 where L1: "read_request n js api hl ht reh L = (Ret ((request_default hl)\<lparr>req_method := m, req_url := c_str url\<rparr>), L1)"
    "view L1 = view L" by (rule plain_request_is_read [OF assms])
  show ?thesis
    by (rule read_request_is_sent [OF L1(1)])
      (use L1(2) assms(1) in \<open>simp_all add: calls_send_plain_def complete_request_def request_default_def populate_message_default_def\<close>)
qed

end

section \<open>Keys that are numbers\<close>

lemma entry_after_absent: "k \<notin> fst ` set es \<Longrightarrow> entry_after k es = None"
  by (induction es) auto

lemma number_key_machine:
  assumes "stk v = LNil # LTab a # rest" and "length rest = 5" and "a < length (tabs v)" and "8 \<le> slots v"
    and "tabs v ! a = (LNum d, LStr s) # es" and "LStr (nt d) \<notin> fst ` set es"
  shows "fst (string_pairs_loop (Suc (Suc n)) (lua_machine nt z) complaint add m v) = LuaJump ''invalid key to next''"
  using assms
  by (simp add: outcome_simps bindS_def thenS_def m_next_def table_at_def at_def position_def next_entry_def m_isstring_def
      m_type_def m_tostring_def m_pop_def entry_after_absent)

section \<open>What a script can rely on\<close>

interpretation rh: lua_http_env int_machine "\<lambda>v. v" decimal_int "\<lambda>i. i" ref_json "\<lambda>_. True" ref_headers lower ref_http
  "\<lambda>m. m" "client_vt ref_http ref_perform"
  using int_machine_laws rm.message_env_axioms rn.http_client_contract_axioms by (rule lua_http_env.intro)

definition sample_call :: "int lua_view" where
  "sample_call =
     \<lparr>stk = [LTab 0, LStr ''/u'', LStr ''GET'', LOther ''userdata'', LOther ''userdata''],
      tabs = [[(LStr ''query'', LTab 1), (LStr ''body'', LTab 2)], [(LStr ''k'', LStr ''v'')], [(LStr ''n'', LNum 7)]],
      slots = 25\<rparr>"

text \<open>
  C22. \<open>send\<close> with a method, a URL and a table of parameters, each of which may be missing:
  exactly one request goes to the HTTP client, with that method and URL, the query the script gave,
  the headers it gave, compared without case, and as its body the text of what the script gave, be
  it a string, a number, a Boolean or a table. If the client answers, the script gets a table with
  the status, the body and the headers of the response, and nil; if the client throws, the
  script gets nil and the message.
\<close>

theorem script_request_is_sent:
  assumes "lua_http_env api view num_text int_num js num_ok hl canon ht reh client"
    and "calls_send n js num_ok (view L) method url qs hs body" and "HttpMethodFromString ht (c_str method) = Ret m"
  shows "\<exists>q h L' w'. map_of q = map_of qs
    \<and> (\<forall>k. header_value hl canon h k = map_of (map (\<lambda>(n, v). (canon n, v)) hs) (canon k))
    \<and> client_method n js api hl ht reh client (L, w) = (Ret 2, (L', w'))
    \<and> (case Send client \<lparr>msg_headers = Some h, msg_body = body, req_method = m, req_url = c_str url, req_query = Some q\<rparr> w of
        (Ret r, w1) \<Rightarrow> w' = w1 \<and> (\<exists>a. stk (view L') = [LNil, LTab a] \<and> shows_response int_num (view L') a hl r)
      | (Throw e, w1) \<Rightarrow> w' = w1 \<and> stk (view L') = [LStr (c_str (what e)), LNil]
      | _ \<Rightarrow> False)"
  using assms by (rule lua_http_env.send_method_result)

theorem script_request_is_sent_witness:
  "\<exists>L' w'. client_method 9 ref_json int_machine ref_headers ref_http (\<lambda>m. m) (client_vt ref_http ref_perform) (sample_call, [])
     = (Ret 2, (L', w'))"
proof -
  have "reads (tabs sample_call) (JObj [(''n'', JNum 7)]) (LTab 2)" "\<forall>t\<in>set (tabs sample_call). table_ok t"
    by (simp_all add: sample_call_def table_ok_def c_str_def)
  then have "gives_body 9 ref_json (\<lambda>_. True) sample_call (param sample_call 0 ''body'') (json_text ref_json (JObj [(''n'', JNum 7)]))"
    unfolding gives_body_def by (intro disjI2 exI [of _ "JObj [(''n'', JNum 7)]"]) (simp add: sample_call_def param_def table_get_def)
  then have "calls_send 9 ref_json (\<lambda>_. True) sample_call ''GET'' ''/u'' [(''k'', ''v'')] [] (json_text ref_json (JObj [(''n'', JNum 7)]))"
    by (simp add: calls_send_def) (simp add: sample_call_def param_def table_get_def gives_strings_def string_table_def no_nul_def)
  moreover have "HttpMethodFromString ref_http (c_str ''GET'') = Ret kGet" by (simp add: ref_http_def ref_methods_def c_str_def)
  ultimately show ?thesis using script_request_is_sent [OF rh.lua_http_env_axioms] by blast
qed

text \<open>
  C38. A table of the query or of the headers whose first key is a number and first value a
  string or a number: \<open>lua_tostring\<close> turns the key into a string in place, so the next step
  of the traversal does not find it and the call of the script ends in an error of Lua.
\<close>

theorem number_key_breaks_the_traversal:
  assumes "lua_laws api view num_text int_num"
    and "stk (view L) = LTab a # rest" and "length rest = 5" and "a < length (tabs (view L))" and "8 \<le> slots (view L)"
    and "tabs (view L) ! a = (LNum d, LStr s) # es" and "LStr (num_text d) \<notin> fst ` set es"
  shows "fst (populate_query_params (Suc (Suc n)) api reh LUA_TTABLE L) = LuaJump ''invalid key to next''
    \<and> fst (populate_headers (Suc (Suc n)) api hl LUA_TTABLE L) = LuaJump ''invalid key to next''"
proof -
  define v where "v = (view L)\<lparr>stk := LNil # LTab a # rest\<rparr>"
  have v: "v\<lparr>stk := LNil # LTab a # rest\<rparr> = v" "m_push LNil (view L) = (Ret (), v)"
    using assms(2,3,5) by (simp_all add: v_def m_push_def)
  have loop: "fst (string_pairs_loop (Suc (Suc n)) (lua_machine num_text int_num) complaint add m v) = LuaJump ''invalid key to next''"
    for complaint and add :: "string \<Rightarrow> string \<Rightarrow> 'm \<Rightarrow> 'm" and m
    by (rule number_key_machine [of v a rest d s es num_text n int_num complaint add m]) (use assms(2-) in \<open>simp_all add: v_def\<close>)
  have jump: "fst (thenS (lua_pushnil api) (string_pairs_loop (Suc (Suc n)) api complaint add m) L) = LuaJump ''invalid key to next''"
    for complaint and add :: "string \<Rightarrow> string \<Rightarrow> 'm \<Rightarrow> 'm" and m
  proof -
    have "behaves view (thenS (lua_pushnil api) (string_pairs_loop (Suc (Suc n)) api complaint add m) L)
      (thenS (m_push LNil) (string_pairs_loop (Suc (Suc n)) (lua_machine num_text int_num) complaint add m) (view L))"
      by (intro behaves_thenS lua_laws.pushnil [OF assms(1)] lua_laws.string_pairs_loop_behaves [OF assms(1)])
    moreover have "fst (thenS (m_push LNil) (string_pairs_loop (Suc (Suc n)) (lua_machine num_text int_num) complaint add m) (view L))
      = LuaJump ''invalid key to next''"
      using loop [of complaint add m] v(2) by (simp add: thenS_def bindS_def)
    ultimately show ?thesis by (auto simp: behaves_def)
  qed
  show ?thesis by (simp add: populate_query_params_def populate_headers_def jump del: string_pairs_loop.simps)
qed

theorem number_key_breaks_the_traversal_witness:
  "fst (populate_query_params 2 int_machine (\<lambda>m. m) LUA_TTABLE
      \<lparr>stk = LTab 0 # replicate 5 LNil, tabs = [[(LNum 1, LStr ''a''), (LNum 2, LStr ''b'')]], slots = 25\<rparr>)
    = LuaJump ''invalid key to next''"
  using number_key_breaks_the_traversal [OF int_machine_laws,
      of "\<lparr>stk = LTab 0 # replicate 5 LNil, tabs = [[(LNum 1, LStr ''a''), (LNum 2, LStr ''b'')]], slots = 25\<rparr>"
        0 "replicate 5 LNil" 1 "''a''" "[(LNum 2, LStr ''b'')]" 0 "\<lambda>m. m" ref_headers]
  by (simp add: numeral_2_eq_2)

end
