(* ===== verification/Execution_Context.thy ===== *)
theory Execution_Context
  imports Http_Message Timeout
begin

text \<open>
  The context a script is executed in, \<open>execution-context.hpp\<close>: the request it answers, the
  response it fills and the limits it runs under. The accessors return references, so a caller
  reads the members and updates them in place.
\<close>

record execute_options =
  eo_timeout :: milliseconds
  eo_memory_limit :: size_t

record 'h execution_context =
  ec_request :: "'h request"
  ec_response :: "'h response"
  ec_options :: execute_options

text \<open>The timeout has no initial value in the code: \<open>junk\<close> is what it happens to be.\<close>

definition new_execution_context :: "milliseconds \<Rightarrow> 'h request \<Rightarrow> 'h response \<Rightarrow> 'h execution_context" where
  "new_execution_context junk request response =
     \<lparr>ec_request = request, ec_response = response,
      ec_options = \<lparr>eo_timeout = junk, eo_memory_limit = 0\<rparr>\<rparr>"

definition set_response :: "'h response \<Rightarrow> 'h execution_context \<Rightarrow> 'h execution_context" where
  "set_response r c = c\<lparr>ec_response := r\<rparr>"

definition set_options :: "execute_options \<Rightarrow> 'h execution_context \<Rightarrow> 'h execution_context" where
  "set_options o' c = c\<lparr>ec_options := o'\<rparr>"

text \<open>A context whose pointers are set: the engines dereference them without a check.\<close>

definition complete_context :: "'h execution_context \<Rightarrow> bool" where
  "complete_context c \<longleftrightarrow>
     msg_headers (ec_request c) \<noteq> None \<and> req_query (ec_request c) \<noteq> None \<and> msg_headers (ec_response c) \<noteq> None"

text \<open>
  A context whose pointers are set and whose containers have no name twice, and when two
  responses say the same.
\<close>

definition context_ok :: "'h header_lib \<Rightarrow> (string \<Rightarrow> string) \<Rightarrow> 'h execution_context \<Rightarrow> bool" where
  "context_ok hl canon c \<longleftrightarrow>
     (\<exists>h q rh. msg_headers (ec_request c) = Some h \<and> req_query (ec_request c) = Some q \<and> msg_headers (ec_response c) = Some rh
       \<and> names_distinct hl canon h \<and> um_ok q \<and> names_distinct hl canon rh)"

definition same_response :: "'h header_lib \<Rightarrow> (string \<Rightarrow> string) \<Rightarrow> 'h response \<Rightarrow> 'h response \<Rightarrow> bool" where
  "same_response hl canon r r0 \<longleftrightarrow>
     resp_status r = resp_status r0 \<and> msg_body r = c_str (msg_body r0)
   \<and> (\<exists>h h0. msg_headers r = Some h \<and> msg_headers r0 = Some h0 \<and> header_value hl canon h = header_value hl canon h0)"

lemma context_ok_complete: "context_ok hl canon c \<Longrightarrow> complete_context c"
  by (auto simp: context_ok_def complete_context_def)

end
