(* ===== verification/Engine.thy ===== *)
theory Engine
  imports Script Execution_Context Memory_Limit Http_Client Project_Storage
begin

text \<open>
  The interfaces of a script engine, \<open>engine/base\<close> and \<open>engine/params.hpp\<close>, with their
  contract, and the stub engine. A virtual class is the record of its methods; the checkers of
  \<open>ExecutionControlParams\<close> come as their factories beside the methods of what they create.
\<close>

section \<open>The interfaces\<close>

record ('x, 'h, 'w) executor_base =
  ExecuteScript :: "'x script_base_scheme option \<Rightarrow> ('h execution_context \<times> 'w, unit) action"

record ('x, 'h, 'w) script_engine_base =
  CreateCompiler :: "'x compiler_base"
  CreateExecutor :: "('x, 'h, 'w) executor_base"

record ('m, 't) execution_control_params =
  ep_memory_factory :: "'m memory_checkers_factory_base"
  ep_memory_vt :: "'m memory_checker_base"
  ep_timeout_factory :: "'t timeout_checkers_factory_base"
  ep_timeout_vt :: "'t timeout_checker_base"

record ('h, 'w) extra_params =
  ep_http_client :: "('h, 'w) client_base option"
  ep_storage :: "'w storage_base option"

text \<open>
  The contract of an engine. An executor that gets a script of its language and a complete
  context returns with a response that can be written, or throws; \<open>fits\<close> is the condition
  under which it promises that.
\<close>

locale executor_contract =
  fixes ex :: "('x, 'h, 'w) executor_base" and lang :: script_language
    and fits :: "'x script_base_scheme \<Rightarrow> 'h execution_context \<Rightarrow> 'w \<Rightarrow> bool"
  assumes Execute_returns_or_throws: "sb_language s = lang \<Longrightarrow> complete_context c \<Longrightarrow> fits s c w \<Longrightarrow>
    case ExecuteScript ex (Some s) (c, w) of
      (Ret _, (c', w')) \<Rightarrow> msg_headers (ec_response c') \<noteq> None
    | (Throw e, (c', w')) \<Rightarrow> True
    | _ \<Rightarrow> False"

locale script_engine_contract =
  compiler_contract "CreateCompiler eng" lang + executor_contract "CreateExecutor eng" lang fits
  for eng :: "('x, 'h, 'w) script_engine_base" and lang fits

section \<open>The stub engine\<close>

definition stub_execute :: "'x script_base_scheme option \<Rightarrow> ('h execution_context \<times> 'w, unit) action" where
  "stub_execute script =
     (case script of
        None \<Rightarrow> throwS (StdException ''Script is NULL'')
      | Some s \<Rightarrow>
          modifyS (\<lambda>(c, w). (set_response ((ec_response c)\<lparr>resp_status := kOk, msg_body := ''stub''\<rparr>) c, w)))"

definition stub_executor :: "('x, 'h, 'w) executor_base" where
  "stub_executor = \<lparr>ExecuteScript = stub_execute\<rparr>"

definition stub_script_engine :: "junk \<Rightarrow> (unit stub_script_ext, 'h, 'w) script_engine_base" where
  "stub_script_engine junk = \<lparr>CreateCompiler = stub_compiler junk, CreateExecutor = stub_executor\<rparr>"

lemma stub_executor_contract: "executor_contract stub_executor lang (\<lambda>s c w. True)"
  by (simp add: executor_contract_def stub_executor_def stub_execute_def outcome_simps set_response_def complete_context_def)

interpretation stub: script_engine_contract "stub_script_engine junk" StubLanguage "\<lambda>s c w. True"
  by (rule script_engine_contract.intro)
    (simp_all add: stub_script_engine_def stub_cp.compiler_contract_axioms stub_executor_contract)

end
