(* ===== verification/Lua_Http_Context.thy ===== *)
theory Lua_Http_Context
  imports Execution_Context
begin

text \<open>
  The request and the response as tables of Lua, \<open>modules/http/context.cpp\<close>. The value
  classes of LuaCpp (\<open>LuaType\<close> and those derived from it) are a parameter: a record of the
  functions that are used, whose documented behaviour is the locale \<open>luacpp_laws\<close>. The code
  moves strings out of the request; nothing reads them again, and the model leaves them there.
\<close>

section \<open>The values of LuaCpp\<close>

text \<open>\<open>'v\<close> is a pointer to a value that nothing else points to, so it is its value.\<close>

datatype lua_module = HttpClientModule | KvStorageModule size_t

record ('d, 'v) luacpp =
  LuaTNil :: 'v
  LuaTString :: "string \<Rightarrow> 'v"
  LuaTNumber :: "'d \<Rightarrow> 'v"
  LuaTTable :: 'v
  LuaMetaObject :: "lua_module \<Rightarrow> 'v"
  setValue :: "string \<Rightarrow> 'v \<Rightarrow> 'v \<Rightarrow> 'v"
  getValue :: "'v \<Rightarrow> string \<Rightarrow> 'v outcome"
  getValues :: "'v \<Rightarrow> (string \<times> 'v) list"
  isTable :: "'v \<Rightarrow> bool"
  asNumber :: "'v \<Rightarrow> 'd option"
  textOf :: "'v \<Rightarrow> string"
  getGlobalName :: "'v \<Rightarrow> string"
  StatusNumber :: "http_status \<Rightarrow> 'd"
  NumberStatus :: "'d \<Rightarrow> http_status option"

text \<open>
  \<open>getValues\<close> lists the entries with the text of their keys, \<open>textOf\<close> is the method
  \<open>ToString\<close>; \<open>StatusNumber\<close> and \<open>NumberStatus\<close> are the casts between a status and a
  \<open>double\<close>, the second \<open>None\<close> where the number does not fit and the cast is undefined.

  \<open>entry t\<close> looks a string up in a table, and \<open>named t\<close> says that all keys are strings.
\<close>

locale luacpp_laws =
  fixes lc :: "('d, 'v) luacpp" and "entry" :: "'v \<Rightarrow> string \<Rightarrow> 'v option" and named :: "'v \<Rightarrow> bool"
  assumes new_table: "isTable lc (LuaTTable lc) \<and> named (LuaTTable lc) \<and> entry (LuaTTable lc) = Map.empty"
    and setValue_table: "isTable lc t \<Longrightarrow>
      isTable lc (setValue lc k v t) \<and> (named t \<longrightarrow> named (setValue lc k v t)) \<and> entry (setValue lc k v t) = (entry t)(k \<mapsto> v)"
    and getValue_entry: "isTable lc t \<Longrightarrow> entry t k = Some v \<Longrightarrow> getValue lc t k = Ret v"
    and getValues_named: "isTable lc t \<Longrightarrow> named t \<Longrightarrow>
      distinct (map fst (getValues lc t)) \<and> map_of (getValues lc t) = entry t"
    and asNumber_number: "asNumber lc (LuaTNumber lc d) = Some d"
    and textOf_string: "textOf lc (LuaTString lc s) = s"
    and status_number: "NumberStatus lc (StatusNumber lc st) = Some st"

text \<open>\<open>GetValueStrict\<close> for the two classes it is used with.\<close>

definition unexpected_type :: "('d, 'v) luacpp \<Rightarrow> 'v \<Rightarrow> 'a outcome" where
  "unexpected_type lc v =
     Throw (StdException (''Unexpected lua type of variable (name = '' @ quoted (getGlobalName lc v) @ '')''))"

definition get_table_strict :: "('d, 'v) luacpp \<Rightarrow> 'v \<Rightarrow> 'v outcome" where
  "get_table_strict lc v = (if isTable lc v then Ret v else unexpected_type lc v)"

definition get_number_strict :: "('d, 'v) luacpp \<Rightarrow> 'v \<Rightarrow> 'd outcome" where
  "get_number_strict lc v = (case asNumber lc v of None \<Rightarrow> unexpected_type lc v | Some d \<Rightarrow> Ret d)"

section \<open>From messages to tables\<close>

definition kRequestVariableName :: string where
  "kRequestVariableName = ''miet_http_context_incoming_request''"

definition kResponseVariableName :: string where
  "kResponseVariableName = ''miet_http_context_outgoing_response''"

definition string_entries :: "('d, 'v) luacpp \<Rightarrow> (string \<times> string) list \<Rightarrow> 'v" where
  "string_entries lc items = fold (\<lambda>(k, x) t. setValue lc k (LuaTString lc x) t) items (LuaTTable lc)"

definition populate_lua_message_from ::
  "('d, 'v) luacpp \<Rightarrow> 'h header_lib \<Rightarrow> ('h, 'z) message_scheme \<Rightarrow> 'v outcome" where
  "populate_lua_message_from lc hl m =
     (case msg_headers m of
        None \<Rightarrow> Crash NullDereference
      | Some hs \<Rightarrow>
          Ret (setValue lc ''body'' (LuaTString lc (c_str (msg_body m)))
            (setValue lc ''headers'' (string_entries lc (HmItems hl hs)) (LuaTTable lc))))"

definition populate_lua_request_from ::
  "('d, 'v) luacpp \<Rightarrow> 'h header_lib \<Rightarrow> http_lib \<Rightarrow> 'h request \<Rightarrow> 'v outcome" where
  "populate_lua_request_from lc hl ht r =
     bindO (populate_lua_message_from lc hl r) (\<lambda>t.
     let t = setValue lc ''method'' (LuaTString lc (HttpMethodToString ht (req_method r))) t;
         t = setValue lc ''url'' (LuaTString lc (req_url r)) t
     in case req_query r of
          None \<Rightarrow> Crash NullDereference
        | Some q \<Rightarrow> Ret (setValue lc ''query'' (string_entries lc q) t))"

definition populate_lua_response_from ::
  "('d, 'v) luacpp \<Rightarrow> 'h header_lib \<Rightarrow> 'h response \<Rightarrow> 'v outcome" where
  "populate_lua_response_from lc hl r =
     bindO (populate_lua_message_from lc hl r) (\<lambda>t.
     Ret (setValue lc ''status'' (LuaTNumber lc (StatusNumber lc (resp_status r))) t))"

section \<open>From a table to the response\<close>

definition populate_native_response_from :: "('d, 'v) luacpp \<Rightarrow> 'h header_lib \<Rightarrow> 'v \<Rightarrow> 'h response outcome" where
  "populate_native_response_from lc hl t =
     bindO (getValue lc t ''status'') (\<lambda>s.
     bindO (get_number_strict lc s) (\<lambda>d.
     case NumberStatus lc d of
       None \<Rightarrow> Crash BadConversion
     | Some status \<Rightarrow>
         bindO (getValue lc t ''headers'') (\<lambda>h.
         bindO (get_table_strict lc h) (\<lambda>h.
         let headers = fold (\<lambda>(k, x). HmEmplace hl k (textOf lc x)) (getValues lc h) (HmEmpty hl)
         in bindO (getValue lc t ''body'') (\<lambda>b.
            Ret \<lparr>msg_headers = Some headers, msg_body = textOf lc b, resp_status = status\<rparr>)))))"

section \<open>\<open>Context\<close>\<close>

text \<open>
  The environment of a script is a map from the names of its globals to values. The
  constructor adds the two tables, the destructor reads the response back; it is
  \<open>noexcept\<close>, as every destructor.
\<close>

type_synonym 'v lua_env = "(string, 'v) umap"

definition context_open ::
  "('d, 'v) luacpp \<Rightarrow> 'h header_lib \<Rightarrow> http_lib \<Rightarrow> (string, 'v) rehash \<Rightarrow> 'h execution_context \<Rightarrow> 'v lua_env
    \<Rightarrow> 'v lua_env outcome" where
  "context_open lc hl ht reh c env =
     bindO (populate_lua_request_from lc hl ht (ec_request c)) (\<lambda>request.
     bindO (populate_lua_response_from lc hl (ec_response c)) (\<lambda>response.
     Ret (um_emplace reh kResponseVariableName response (um_emplace reh kRequestVariableName request env))))"

definition context_close ::
  "('d, 'v) luacpp \<Rightarrow> 'h header_lib \<Rightarrow> 'v lua_env \<Rightarrow> 'h execution_context \<Rightarrow> 'h execution_context outcome" where
  "context_close lc hl env c = noexcept
     (bindO (case map_of env kResponseVariableName of
               None \<Rightarrow> Throw (StdException ''out_of_range'') | Some v \<Rightarrow> Ret v) (\<lambda>v.
      bindO (get_table_strict lc v) (\<lambda>t.
      bindO (populate_native_response_from lc hl t) (\<lambda>r.
      Ret (set_response r c)))))"

text \<open>
  A response table whose status is not a number, or whose headers are not a table, makes
  \<open>GetValueStrict\<close> throw, and the exception leaves the destructor.
\<close>

lemma context_close_malformed:
  assumes "map_of env kResponseVariableName = Some t" and "isTable lc t" and "getValue lc t ''status'' = Ret s"
    and "asNumber lc s = None \<or> (\<exists>d st x. asNumber lc s = Some d \<and> NumberStatus lc d = Some st
      \<and> getValue lc t ''headers'' = Ret x \<and> \<not> isTable lc x)"
  shows "context_close lc hl env c = Crash StdTerminate"
  using assms
  by (auto simp: context_close_def get_table_strict_def get_number_strict_def populate_native_response_from_def unexpected_type_def)

section \<open>What a table says\<close>

text \<open>A table that holds the strings of a list, and nothing else.\<close>

definition holds_strings ::
  "('d, 'v) luacpp \<Rightarrow> ('v \<Rightarrow> string \<Rightarrow> 'v option) \<Rightarrow> ('v \<Rightarrow> bool) \<Rightarrow> 'v \<Rightarrow> (string \<times> string) list \<Rightarrow> bool" where
  "holds_strings lc entry named t items \<longleftrightarrow> isTable lc t \<and> named t \<and> entry t = map_option (LuaTString lc) \<circ> map_of items"

text \<open>A response table: the fields of a response, the headers in the order of the table.\<close>

definition response_of ::
  "('d, 'v) luacpp \<Rightarrow> ('v \<Rightarrow> string \<Rightarrow> 'v option) \<Rightarrow> 'v \<Rightarrow> http_status \<Rightarrow> (string \<times> string) list \<Rightarrow> string \<Rightarrow> bool" where
  "response_of lc entry t status items body \<longleftrightarrow>
     isTable lc t
   \<and> (\<exists>n. entry t ''status'' = Some n \<and> (\<exists>d. asNumber lc n = Some d \<and> NumberStatus lc d = Some status))
   \<and> (\<exists>h. entry t ''headers'' = Some h \<and> isTable lc h \<and> map (\<lambda>(k, x). (k, textOf lc x)) (getValues lc h) = items)
   \<and> (\<exists>b. entry t ''body'' = Some b \<and> textOf lc b = body)"

locale lua_context_env = message_env js num_ok hl canon ht qreh + luacpp_laws lc "entry" named
  for js :: "'d json_lib" and num_ok and hl :: "'h header_lib" and canon ht qreh
    and lc :: "('e, 'v) luacpp" and "entry" named +
  fixes reh :: "(string, 'v) rehash"
  assumes env_rehash: "permutes_entries reh"
begin

lemma string_entries_table:
  "isTable lc (string_entries lc items) \<and> named (string_entries lc items)
   \<and> entry (string_entries lc items) = map_option (LuaTString lc) \<circ> map_of (rev items)"
proof -
  have "isTable lc t \<and> named t \<Longrightarrow>
      isTable lc (fold (\<lambda>(k, x) t. setValue lc k (LuaTString lc x) t) items t)
      \<and> named (fold (\<lambda>(k, x) t. setValue lc k (LuaTString lc x) t) items t)
      \<and> entry (fold (\<lambda>(k, x) t. setValue lc k (LuaTString lc x) t) items t)
        = entry t ++ (map_option (LuaTString lc) \<circ> map_of (rev items))" for t
    by (induction items arbitrary: t) (auto simp: setValue_table map_add_def fun_eq_iff split: option.split)
  from this [of "LuaTTable lc"] show ?thesis by (simp add: string_entries_def new_table)
qed

lemma string_entries_hold: "distinct (map fst items) \<Longrightarrow> holds_strings lc entry named (string_entries lc items) items"
  using string_entries_table [of items] map_of_mset_eq [of "rev items" items] by (simp add: holds_strings_def)

lemma exact_names_distinct: "names_distinct hl canon h \<Longrightarrow> distinct (map fst (HmItems hl h))"
  by (auto simp: names_distinct_def distinct_map inj_on_def)

lemma request_table:
  assumes "msg_headers r = Some h" and "req_query r = Some q" and "names_distinct hl canon h" and "um_ok q"
  obtains t th tq where "populate_lua_request_from lc hl ht r = Ret t" "isTable lc t"
    "entry t = [''method'' \<mapsto> LuaTString lc (HttpMethodToString ht (req_method r)), ''url'' \<mapsto> LuaTString lc (req_url r),
      ''query'' \<mapsto> tq, ''headers'' \<mapsto> th, ''body'' \<mapsto> LuaTString lc (c_str (msg_body r))]"
    "holds_strings lc entry named th (HmItems hl h)" "holds_strings lc entry named tq q"
proof (rule that [of _ "string_entries lc q" "string_entries lc (HmItems hl h)"])
  show "holds_strings lc entry named (string_entries lc (HmItems hl h)) (HmItems hl h)"
    using exact_names_distinct [OF assms(3)] by (rule string_entries_hold)
  show "holds_strings lc entry named (string_entries lc q) q"
    using assms(4) by (simp add: string_entries_hold um_ok_def)
qed (use assms(1,2) in \<open>auto simp: populate_lua_request_from_def populate_lua_message_from_def Let_def setValue_table new_table\<close>)

lemma response_table:
  assumes "msg_headers r = Some h" and "names_distinct hl canon h"
  obtains t th where "populate_lua_response_from lc hl r = Ret t" "isTable lc t" "holds_strings lc entry named th (HmItems hl h)"
    "entry t = [''status'' \<mapsto> LuaTNumber lc (StatusNumber lc (resp_status r)), ''headers'' \<mapsto> th,
      ''body'' \<mapsto> LuaTString lc (c_str (msg_body r))]"
  by (rule that [of _ "string_entries lc (HmItems hl h)"])
    (use assms exact_names_distinct [OF assms(2)] in
      \<open>auto simp: populate_lua_response_from_def populate_lua_message_from_def string_entries_hold setValue_table new_table\<close>)

lemma native_response:
  assumes "response_of lc entry t status items body"
  shows "populate_native_response_from lc hl t =
    Ret \<lparr>msg_headers = Some (fold (\<lambda>(k, x). HmEmplace hl k x) items (HmEmpty hl)), msg_body = body, resp_status = status\<rparr>"
  using assms
  by (auto simp: response_of_def populate_native_response_from_def getValue_entry get_number_strict_def get_table_strict_def
      fold_map case_prod_beta' comp_def)

lemma header_value_all:
  "header_value hl canon (fold (\<lambda>(k, x). HmEmplace hl k x) items (HmEmpty hl)) n
     = map_of (map (\<lambda>(k, x). (canon k, x)) items) (canon n)"
  using header_value_emplace_all [OF names_distinct_empty, of items n] by (simp add: header_value_empty)

lemma holds_strings_items:
  assumes "holds_strings lc entry named t items" and "distinct (map fst items)"
  shows "mset (map (\<lambda>(k, x). (k, textOf lc x)) (getValues lc t)) = mset items"
proof (rule map_of_eq_mset)
  have t: "distinct (map fst (getValues lc t))" "map_of (getValues lc t) = map_option (LuaTString lc) \<circ> map_of items"
    using assms(1) getValues_named [of t] by (simp_all add: holds_strings_def)
  show "map_of (map (\<lambda>(k, x). (k, textOf lc x)) (getValues lc t)) = map_of items"
    by (simp add: map_of_map t(2) fun_eq_iff option.map_comp comp_def textOf_string option.map_ident)
  show "distinct (map fst (map (\<lambda>(k, x). (k, textOf lc x)) (getValues lc t)))"
    using t(1) by (simp add: comp_def case_prod_beta')
  show "distinct (map fst items)" by (rule assms(2))
qed

text \<open>The constructor and then the destructor give the response back.\<close>

lemma context_close_response:
  assumes "map_of env kResponseVariableName = Some t" and "response_of lc entry t status items body"
  shows "context_close lc hl env c = Ret (set_response
    \<lparr>msg_headers = Some (fold (\<lambda>(k, x). HmEmplace hl k x) items (HmEmpty hl)), msg_body = body, resp_status = status\<rparr> c)"
  using assms native_response [OF assms(2)]
  by (simp add: context_close_def get_table_strict_def response_of_def)

lemma context_open_tables:
  assumes "msg_headers (ec_request c) = Some h" and "req_query (ec_request c) = Some q" and "names_distinct hl canon h"
    and "um_ok q" and "msg_headers (ec_response c) = Some rh" and "names_distinct hl canon rh"
    and "um_ok env" and "kRequestVariableName \<notin> fst ` set env" and "kResponseVariableName \<notin> fst ` set env"
  obtains env' t u th tq where "context_open lc hl ht reh c env = Ret env'" "um_ok env'"
    "map_of env' = (map_of env)(kRequestVariableName \<mapsto> t, kResponseVariableName \<mapsto> u)" "isTable lc t"
    "entry t = [''method'' \<mapsto> LuaTString lc (HttpMethodToString ht (req_method (ec_request c))),
      ''url'' \<mapsto> LuaTString lc (req_url (ec_request c)),
      ''query'' \<mapsto> tq, ''headers'' \<mapsto> th, ''body'' \<mapsto> LuaTString lc (c_str (msg_body (ec_request c)))]"
    "holds_strings lc entry named th (HmItems hl h)" "holds_strings lc entry named tq q"
    "\<exists>items. response_of lc entry u (resp_status (ec_response c)) items (c_str (msg_body (ec_response c)))
      \<and> mset items = mset (HmItems hl rh)"
proof -
  obtain t th tq where t: "populate_lua_request_from lc hl ht (ec_request c) = Ret t" "isTable lc t"
    "entry t = [''method'' \<mapsto> LuaTString lc (HttpMethodToString ht (req_method (ec_request c))),
      ''url'' \<mapsto> LuaTString lc (req_url (ec_request c)),
      ''query'' \<mapsto> tq, ''headers'' \<mapsto> th, ''body'' \<mapsto> LuaTString lc (c_str (msg_body (ec_request c)))]"
    "holds_strings lc entry named th (HmItems hl h)" "holds_strings lc entry named tq q"
    by (rule request_table [OF assms(1-4)])
  obtain u uh where u: "populate_lua_response_from lc hl (ec_response c) = Ret u" "isTable lc u" "holds_strings lc entry named uh (HmItems hl rh)"
    "entry u = [''status'' \<mapsto> LuaTNumber lc (StatusNumber lc (resp_status (ec_response c))), ''headers'' \<mapsto> uh,
      ''body'' \<mapsto> LuaTString lc (c_str (msg_body (ec_response c)))]"
    by (rule response_table [OF assms(5,6)])
  let ?env1 = "um_emplace reh kRequestVariableName t env"
  have m1: "um_ok ?env1" "map_of ?env1 = (map_of env)(kRequestVariableName \<mapsto> t)"
    using um_ok_emplace [OF env_rehash assms(7)] map_of_emplace [OF env_rehash assms(7)] assms(8) by auto
  have fresh: "kResponseVariableName \<notin> fst ` set ?env1"
  proof -
    have "map_of ?env1 kResponseVariableName = None"
      using assms(9) m1(2) by (simp add: kRequestVariableName_def kResponseVariableName_def map_of_eq_None_iff)
    then show ?thesis by (simp add: map_of_eq_None_iff)
  qed
  let ?env2 = "um_emplace reh kResponseVariableName u ?env1"
  have m2: "um_ok ?env2" "map_of ?env2 = (map_of ?env1)(kResponseVariableName \<mapsto> u)"
    using um_ok_emplace [OF env_rehash m1(1)] map_of_emplace [OF env_rehash m1(1)] fresh by auto
  have "response_of lc entry u (resp_status (ec_response c)) (map (\<lambda>(k, x). (k, textOf lc x)) (getValues lc uh))
      (c_str (msg_body (ec_response c)))"
    using u by (auto simp: response_of_def holds_strings_def asNumber_number status_number textOf_string)
  moreover have "mset (map (\<lambda>(k, x). (k, textOf lc x)) (getValues lc uh)) = mset (HmItems hl rh)"
    using u(3) exact_names_distinct [OF assms(6)] by (rule holds_strings_items)
  ultimately show thesis
    using t u(1) m1(2) m2 by (intro that [of ?env2 t u tq th]) (auto simp: context_open_def)
qed

lemma context_open_close:
  assumes "context_ok hl canon c"
    and "um_ok env" and "kRequestVariableName \<notin> fst ` set env" and "kResponseVariableName \<notin> fst ` set env"
  obtains env' t u r where "context_open lc hl ht reh c env = Ret env'" "um_ok env'"
    "map_of env' = (map_of env)(kRequestVariableName \<mapsto> t, kResponseVariableName \<mapsto> u)" "isTable lc t" "isTable lc u"
    "\<And>c'. context_close lc hl env' c' = Ret (set_response r c')" "same_response hl canon r (ec_response c)"
    "\<exists>items. response_of lc entry u (resp_status (ec_response c)) items (c_str (msg_body (ec_response c)))"
proof -
  obtain h q rh where c: "msg_headers (ec_request c) = Some h" "req_query (ec_request c) = Some q" "names_distinct hl canon h"
    "um_ok q" "msg_headers (ec_response c) = Some rh" "names_distinct hl canon rh"
    using assms(1) by (auto simp: context_ok_def)
  obtain env' t u items where env': "context_open lc hl ht reh c env = Ret env'" "um_ok env'"
    "map_of env' = (map_of env)(kRequestVariableName \<mapsto> t, kResponseVariableName \<mapsto> u)" "isTable lc t"
    "response_of lc entry u (resp_status (ec_response c)) items (c_str (msg_body (ec_response c)))"
    "mset items = mset (HmItems hl rh)"
    by (rule context_open_tables [OF c assms(2-4)]) blast
  have "mset (map (\<lambda>(k, x). (canon k, x)) items) = mset (map (\<lambda>(k, x). (canon k, x)) (HmItems hl rh))"
    using env'(6) by simp
  moreover have "distinct (map fst (map (\<lambda>(k, x). (canon k, x)) (HmItems hl rh)))"
    using c(6) by (simp add: names_distinct_def comp_def case_prod_beta')
  ultimately have "map_of (map (\<lambda>(k, x). (canon k, x)) items) = map_of (map (\<lambda>(k, x). (canon k, x)) (HmItems hl rh))"
    by (rule map_of_mset_eq)
  then have "header_value hl canon (fold (\<lambda>(k, x). HmEmplace hl k x) items (HmEmpty hl)) = header_value hl canon rh"
    unfolding fun_eq_iff header_value_all by (simp add: header_value_def)
  then show thesis using env' c(5) context_close_response [OF _ env'(5)]
    by (intro that [OF env'(1-4)]) (auto simp: same_response_def response_of_def)
qed

end

section \<open>Reference values\<close>

datatype ref_value = RNil | RString string | RNumber int | RTable "(string \<times> ref_value) list" | RModule lua_module

fun ref_entry :: "ref_value \<Rightarrow> string \<Rightarrow> ref_value option" where
  "ref_entry (RTable es) k = map_of es k"
| "ref_entry _ k = None"

fun ref_named :: "ref_value \<Rightarrow> bool" where
  "ref_named (RTable es) = distinct (map fst es)"
| "ref_named _ = True"

fun ref_set :: "string \<Rightarrow> ref_value \<Rightarrow> ref_value \<Rightarrow> ref_value" where
  "ref_set k v (RTable es) = RTable ((k, v) # filter (\<lambda>e. fst e \<noteq> k) es)"
| "ref_set k v t = t"

fun ref_text :: "ref_value \<Rightarrow> string" where
  "ref_text (RString s) = s"
| "ref_text (RNumber i) = decimal_int i"
| "ref_text _ = ''LuaType''"

definition ref_luacpp :: "(int, ref_value) luacpp" where
  "ref_luacpp =
     \<lparr>LuaTNil = RNil, LuaTString = RString, LuaTNumber = RNumber, LuaTTable = RTable [], LuaMetaObject = RModule,
      setValue = ref_set,
      getValue = (\<lambda>t k. Ret (case ref_entry t k of None \<Rightarrow> RNil | Some v \<Rightarrow> v)),
      getValues = (\<lambda>t. case t of RTable es \<Rightarrow> es | _ \<Rightarrow> []),
      isTable = (\<lambda>v. case v of RTable es \<Rightarrow> True | _ \<Rightarrow> False),
      asNumber = (\<lambda>v. case v of RNumber d \<Rightarrow> Some d | _ \<Rightarrow> None),
      textOf = ref_text,
      getGlobalName = (\<lambda>v. []),
      StatusNumber = sint,
      NumberStatus = (\<lambda>d. if - (2 ^ 31) \<le> d \<and> d < 2 ^ 31 then Some (word_of_int d) else None)\<rparr>"

interpretation rv: luacpp_laws ref_luacpp ref_entry ref_named
proof
  fix t :: ref_value and k v
  have "map_of (filter (\<lambda>e. fst e \<noteq> k) es) = (map_of es)(k := None)" for es :: "(string \<times> ref_value) list"
    by (induction es) (auto simp: fun_eq_iff)
  then show "isTable ref_luacpp t \<Longrightarrow> isTable ref_luacpp (setValue ref_luacpp k v t)
      \<and> (ref_named t \<longrightarrow> ref_named (setValue ref_luacpp k v t))
      \<and> ref_entry (setValue ref_luacpp k v t) = (ref_entry t)(k \<mapsto> v)"
    by (cases t) (auto simp: ref_luacpp_def fun_eq_iff distinct_map inj_on_def)
  show "isTable ref_luacpp t \<Longrightarrow> ref_named t \<Longrightarrow>
      distinct (map fst (getValues ref_luacpp t)) \<and> map_of (getValues ref_luacpp t) = ref_entry t"
    by (cases t) (auto simp: ref_luacpp_def fun_eq_iff)
next
  fix st :: http_status
  have "- (2 ^ 31) \<le> sint st" "sint st < 2 ^ 31"
    using sint_greater_eq [of st] sint_less [of st] by simp_all
  then show "NumberStatus ref_luacpp (StatusNumber ref_luacpp st) = Some st" by (simp add: ref_luacpp_def)
qed (auto simp: ref_luacpp_def fun_eq_iff)

interpretation rx: lua_context_env ref_json "\<lambda>_. True" ref_headers lower ref_http "\<lambda>m. m" ref_luacpp ref_entry ref_named "\<lambda>m. m"
  by unfold_locales (simp add: permutes_entries_def)

section \<open>What the conversions guarantee\<close>

text \<open>
  C39. The constructor of \<open>Context\<close> shows the script the request it has to answer: a global
  table with the method, the URL and the body as strings, and the headers and the query as
  tables of exactly the entries of the request. No other variable of the environment changes
  but the one of the response.
\<close>

theorem script_gets_the_request:
  assumes "lua_context_env js num_ok hl canon ht qreh lc entry named reh"
    and "msg_headers (ec_request c) = Some h" and "req_query (ec_request c) = Some q" and "names_distinct hl canon h"
    and "um_ok q" and "msg_headers (ec_response c) = Some rh" and "names_distinct hl canon rh"
    and "um_ok env" and "kRequestVariableName \<notin> fst ` set env" and "kResponseVariableName \<notin> fst ` set env"
  shows "\<exists>env' t u th tq. context_open lc hl ht reh c env = Ret env'
    \<and> map_of env' = (map_of env)(kRequestVariableName \<mapsto> t, kResponseVariableName \<mapsto> u)
    \<and> isTable lc t
    \<and> entry t = [''method'' \<mapsto> LuaTString lc (HttpMethodToString ht (req_method (ec_request c))),
        ''url'' \<mapsto> LuaTString lc (req_url (ec_request c)),
        ''query'' \<mapsto> tq, ''headers'' \<mapsto> th, ''body'' \<mapsto> LuaTString lc (c_str (msg_body (ec_request c)))]
    \<and> holds_strings lc entry named th (HmItems hl h) \<and> holds_strings lc entry named tq q"
  by (rule lua_context_env.context_open_tables [OF assms]) blast

definition sample_context :: "(string \<times> string) list execution_context" where
  "sample_context =
     new_execution_context 0
       \<lparr>msg_headers = Some [(''X-A'', ''1'')], msg_body = ''hi'', req_method = kPost, req_url = ''/u'', req_query = Some [(''k'', ''v'')]\<rparr>
       (response_default ref_headers)"

lemma sample_context_simps:
  "msg_headers (ec_request sample_context) = Some [(''X-A'', ''1'')]" "req_query (ec_request sample_context) = Some [(''k'', ''v'')]"
  "msg_headers (ec_response sample_context) = Some []" "req_method (ec_request sample_context) = kPost"
  "msg_body (ec_response sample_context) = []" "resp_status (ec_response sample_context) = 200"
  "names_distinct ref_headers lower [(''X-A'', ''1'')]" "names_distinct ref_headers lower []" "um_ok [(''k'', ''v'')]"
  by (simp_all add: sample_context_def new_execution_context_def response_default_def populate_message_default_def new_response_def
      ref_headers_def names_distinct_def um_ok_def kOk_def)

lemma sample_context_ok: "context_ok ref_headers lower sample_context"
  using sample_context_simps by (simp add: context_ok_def)

theorem script_gets_the_request_witness:
  "\<exists>env t. context_open ref_luacpp ref_headers ref_http (\<lambda>m. m) sample_context [] = Ret env
    \<and> map_of env kRequestVariableName = Some t \<and> ref_entry t ''method'' = Some (RString ''POST'')"
proof -
  have "kResponseVariableName \<noteq> kRequestVariableName" by (simp add: kResponseVariableName_def kRequestVariableName_def)
  moreover have "LuaTString ref_luacpp = RString" "HttpMethodToString ref_http kPost = ''POST''"
    by (simp_all add: ref_luacpp_def ref_http_def ref_methods_def)
  ultimately show ?thesis
    using script_gets_the_request [OF rx.lua_context_env_axioms sample_context_simps(1,2,7,9,3,8), of "[]"]
    by (auto simp: sample_context_simps)
qed

text \<open>
  A script that leaves the response alone answers with the response the context had: the
  destructor reads from the table the constructor made the same status and the same headers,
  and the body up to its first NUL.
\<close>

lemma untouched_response_comes_back:
  assumes "lua_context_env js num_ok hl canon ht qreh lc entry named reh" and "context_ok hl canon c"
    and "um_ok env" and "kRequestVariableName \<notin> fst ` set env" and "kResponseVariableName \<notin> fst ` set env"
  shows "\<exists>env' r. context_open lc hl ht reh c env = Ret env' \<and> context_close lc hl env' c = Ret (set_response r c)
    \<and> same_response hl canon r (ec_response c)"
  by (rule lua_context_env.context_open_close [OF assms]) blast

lemma untouched_response_comes_back_sample:
  "\<exists>env r. context_open ref_luacpp ref_headers ref_http (\<lambda>m. m) sample_context [] = Ret env
    \<and> context_close ref_luacpp ref_headers env sample_context = Ret (set_response r sample_context) \<and> resp_status r = 200"
  using untouched_response_comes_back [OF rx.lua_context_env_axioms sample_context_ok, of "[]"]
  by (auto simp: sample_context_simps same_response_def)

end
