(* ===== verification/Lua_Executor.thy ===== *)
theory Lua_Executor
  imports Engine Lua_Http_Context Lua_Api
begin

text \<open>
  The executor of the Lua engine, \<open>engine/lua/executor.cpp\<close> and \<open>engine/lua/engine.cpp\<close>.
  The interpreter of Lua and the LuaCpp classes around it are a parameter, the record
  \<open>lua_vm\<close>.
\<close>

section \<open>The interpreter\<close>

text \<open>
  What a script does between two calls of the count hook is not visible. A run is therefore
  the sequence of its calls of the hook, each with the time and the state at that moment, and
  of its end: the status of \<open>lua_pcall\<close>, or an exception that a function of the program
  called by the script has thrown. A run need not end.
\<close>

datatype lua_status = LUA_OK | LUA_ERRRUN | LUA_ERRMEM | LUA_ERRERR

datatype ('L, 'w) script_step = AtHook time_point 'L 'w | Ended "lua_status outcome" 'L 'w

text \<open>
  A variable of LuaCpp remembers the name under which it was pushed; \<open>PopGlobal\<close> takes that
  name as an argument. The registry is seen through the one pointer that is stored in it.
\<close>

record ('v, 'L, 'm, 'snip, 'w) lua_vm =
  NewState :: "'m allocator \<Rightarrow> 'm \<Rightarrow> 'L outcome"
  luaL_openlibs :: "('L, unit) action"
  lua_setglobal :: "string \<Rightarrow> ('L, unit) action"
  LuaCppVersion :: string
  UploadCode :: "'snip \<Rightarrow> ('L, unit) action"
  RegistrySetPointer :: "string \<Rightarrow> ('L, unit) action"
  RegistryHasPointer :: "string \<Rightarrow> 'L \<Rightarrow> bool"
  lua_sethook :: "nat \<Rightarrow> ('L, unit) action"
  PushGlobal :: "'v \<Rightarrow> string \<Rightarrow> ('L, unit) action"
  PopGlobal :: "'v \<Rightarrow> string \<Rightarrow> ('L, 'v) action"
  Steps :: "'L \<Rightarrow> 'w \<Rightarrow> nat \<Rightarrow> ('L, 'w) script_step"
  Clock :: "'w \<Rightarrow> time_point"

text \<open>
  \<open>lua_pcall\<close> under the hook: the checker that the pointer of the registry refers to is
  asked at every call of the hook. Fuel counts these calls.
\<close>

fun pcall ::
  "nat \<Rightarrow> ('v, 'L, 'm, 'snip, 'w) lua_vm \<Rightarrow> 't timeout_checker_base \<Rightarrow> 't \<Rightarrow> (nat \<Rightarrow> ('L, 'w) script_step) \<Rightarrow> nat
    \<Rightarrow> ('L \<times> 'w, lua_status) action" where
  "pcall 0 vm vt checker steps k = liftS NoFuel"
| "pcall (Suc n) vm vt checker steps k =
     (\<lambda>_. case steps k of
        Ended r L w \<Rightarrow> (r, (L, w))
      | AtHook now L w \<Rightarrow>
          bindS (liftS (check_hook vt (\<lambda>name. if RegistryHasPointer vm name L then Some checker else None) now))
            (\<lambda>_. pcall n vm vt checker steps (Suc k)) (L, w))"

section \<open>Preparing a Lua state\<close>

definition kHttpClientVariableName :: string where
  "kHttpClientVariableName = ''miet_http_client''"

definition kStorageVariableName :: string where
  "kStorageVariableName = ''miet_kv_storage''"

text \<open>Run a call on a state and go on with the new state.\<close>

definition runO :: "('L, unit) action \<Rightarrow> 'L \<Rightarrow> 'L outcome" where
  "runO m L = (case m L of (r, L') \<Rightarrow> bindO r (\<lambda>_. Ret L'))"

definition create_lua_state ::
  "('d, 'L) lua_api \<Rightarrow> ('v, 'L, 'm, 'snip, 'w) lua_vm \<Rightarrow> 'm allocator \<Rightarrow> 'm \<Rightarrow> 'L outcome" where
  "create_lua_state api vm allocator user_data =
     bindO (NewState vm allocator user_data)
       (runO
         (thenS (luaL_openlibs vm)
         (thenS (lua_pushstring api (LuaCppVersion vm))
         (lua_setglobal vm ''_luacppversion''))))"

definition attach_checker :: "('v, 'L, 'm, 'snip, 'w) lua_vm \<Rightarrow> ('L, unit) action" where
  "attach_checker vm =
     thenS (RegistrySetPointer vm kTimeoutCheckerVariableName) (lua_sethook vm kInstructionsBeforeHoock)"

text \<open>The names are those of the code; \<open>ndebug\<close> tells whether \<open>NDEBUG\<close> is defined.\<close>

definition unsafe_objects :: "bool \<Rightarrow> string list" where
  "unsafe_objects ndebug =
     [''os'', ''io'', ''package'', ''load'', ''loadfile'', ''loadstring'', ''dofile'', ''getfenv'', ''setfenv'']
     @ (if ndebug then [''print'', ''error'', ''debug''] else [])"

definition remove_unsafe_objects ::
  "bool \<Rightarrow> ('d, 'v) luacpp \<Rightarrow> (string, 'v) rehash \<Rightarrow> 'v lua_env \<Rightarrow> 'v lua_env" where
  "remove_unsafe_objects ndebug lc reh env = fold (\<lambda>name. um_emplace reh name (LuaTNil lc)) (unsafe_objects ndebug) env"

text \<open>The modules a script gets: those whose implementation the executor has.\<close>

definition modules_env ::
  "('d, 'v) luacpp \<Rightarrow> (string, 'v) rehash \<Rightarrow> ('h, 'w) extra_params \<Rightarrow> project_id \<Rightarrow> 'v lua_env" where
  "modules_env lc reh deps project =
     (let env = [];
          env = (if ep_http_client deps \<noteq> None
                 then um_emplace reh kHttpClientVariableName (LuaMetaObject lc HttpClientModule) env else env)
      in if ep_storage deps \<noteq> None
         then um_emplace reh kStorageVariableName (LuaMetaObject lc (KvStorageModule project)) env else env)"

text \<open>\<open>Executor::Execute\<close> up to the guard.\<close>

definition prepare ::
  "bool \<Rightarrow> ('d, 'v) luacpp \<Rightarrow> (string, 'v) rehash \<Rightarrow> ('e, 'L) lua_api \<Rightarrow> ('v, 'L, 'm, 'snip, 'w) lua_vm
    \<Rightarrow> ('m, 't) execution_control_params \<Rightarrow> ('h, 'w) extra_params \<Rightarrow> 'snip lua_script \<Rightarrow> 'h execution_context
    \<Rightarrow> ('L \<times> 'v lua_env \<times> 't) outcome" where
  "prepare ndebug lc reh api vm ctl deps script c =
     (let memory_checker = CreateMemoryChecker (ep_memory_factory ctl) (eo_memory_limit (ec_options c))
      in bindO (create_lua_state api vm (lua_allocator (ep_memory_vt ctl)) memory_checker) (\<lambda>L.
         bindO (runO (UploadCode vm (lua_snippet script)) L) (\<lambda>L.
         let env = modules_env lc reh deps (sb_project_id script);
             checker = CreateTimeoutChecker (ep_timeout_factory ctl) (eo_timeout (ec_options c))
         in bindO (runO (attach_checker vm) L) (\<lambda>L.
            Ret (L, remove_unsafe_objects ndebug lc reh env, checker)))))"

section \<open>The guard\<close>

record ('L, 'v, 'h, 'w) run_state =
  rs_lua :: 'L
  rs_env :: "'v lua_env"
  rs_context :: "'h execution_context"
  rs_world :: 'w

definition onL :: "('L, 'a) action \<Rightarrow> (('L, 'v, 'h, 'w) run_state, 'a) action" where
  "onL m s = (case m (rs_lua s) of (r, L) \<Rightarrow> (r, s\<lparr>rs_lua := L\<rparr>))"

lemma onL_eq [outcome_simps]: "m (rs_lua s) = (r, L) \<Longrightarrow> onL m s = (r, s\<lparr>rs_lua := L\<rparr>)"
  by (simp add: onL_def)

text \<open>
  Destructors. \<open>leavingS m d u\<close> is a scope with body \<open>m\<close>: \<open>d\<close> is what the destructor does
  when the scope is left normally and \<open>u\<close> what it does while an exception is on its way.
  A destructor that throws ends the process.
\<close>

definition destructS :: "('s, unit) action \<Rightarrow> ('s, unit) action" where
  "destructS d s = (case d s of (r, t) \<Rightarrow> (noexcept r, t))"

definition leavingS :: "('s, 'a) action \<Rightarrow> ('s, unit) action \<Rightarrow> ('s, unit) action \<Rightarrow> ('s, 'a) action" where
  "leavingS m d u s =
     (case m s of
        (Ret x, t) \<Rightarrow> thenS (destructS d) (returnS x) t
      | (Throw e, t) \<Rightarrow> thenS (destructS u) (throwS e) t
      | r \<Rightarrow> r)"

fun push_globals :: "('v, 'L, 'm, 'snip, 'w) lua_vm \<Rightarrow> 'v lua_env \<Rightarrow> ('L, unit) action" where
  "push_globals vm [] = returnS ()"
| "push_globals vm ((name, v) # rest) = thenS (PushGlobal vm v name) (push_globals vm rest)"

text \<open>Each variable is read in place; \<open>read\<close> are those that have been.\<close>

fun pop_globals ::
  "('v, 'L, 'm, 'snip, 'w) lua_vm \<Rightarrow> 'v lua_env \<Rightarrow> 'v lua_env \<Rightarrow> (('L, 'v, 'h, 'w) run_state, unit) action" where
  "pop_globals vm done [] = returnS ()"
| "pop_globals vm done ((name, v) # rest) =
     bindS (onL (PopGlobal vm v name)) (\<lambda>x.
     thenS (modifyS (\<lambda>s. s\<lparr>rs_env := done @ (name, x) # rest\<rparr>))
     (pop_globals vm (done @ [(name, x)]) rest))"

definition open_context ::
  "('d, 'v) luacpp \<Rightarrow> 'h header_lib \<Rightarrow> http_lib \<Rightarrow> (string, 'v) rehash \<Rightarrow> (('L, 'v, 'h, 'w) run_state, unit) action" where
  "open_context lc hl ht reh =
     bindS (\<lambda>s. (context_open lc hl ht reh (rs_context s) (rs_env s), s)) (\<lambda>env. modifyS (\<lambda>s. s\<lparr>rs_env := env\<rparr>))"

definition close_context :: "('d, 'v) luacpp \<Rightarrow> 'h header_lib \<Rightarrow> (('L, 'v, 'h, 'w) run_state, unit) action" where
  "close_context lc hl =
     bindS (\<lambda>s. (context_close lc hl (rs_env s) (rs_context s), s)) (\<lambda>c. modifyS (\<lambda>s. s\<lparr>rs_context := c\<rparr>))"

text \<open>
  \<open>ExecutionGuard\<close>. Its member, the \<open>Context\<close>, is destroyed after the body of its
  destructor on every path, also when its own constructor fails after the member was built.
\<close>

definition guard_enter ::
  "('d, 'v) luacpp \<Rightarrow> 'h header_lib \<Rightarrow> http_lib \<Rightarrow> (string, 'v) rehash \<Rightarrow> ('v, 'L, 'm, 'snip, 'w) lua_vm
    \<Rightarrow> (('L, 'v, 'h, 'w) run_state, unit) action" where
  "guard_enter lc hl ht reh vm =
     thenS (open_context lc hl ht reh)
     (leavingS (\<lambda>s. onL (push_globals vm (rs_env s)) s) (returnS ()) (close_context lc hl))"

definition guard_leave ::
  "('d, 'v) luacpp \<Rightarrow> 'h header_lib \<Rightarrow> ('v, 'L, 'm, 'snip, 'w) lua_vm \<Rightarrow> (('L, 'v, 'h, 'w) run_state, unit) action" where
  "guard_leave lc hl vm = thenS (\<lambda>s. pop_globals vm [] (rs_env s) s) (close_context lc hl)"

section \<open>\<open>Executor::Execute\<close>\<close>

text \<open>
  What stands after the guard: the script is run and its status is looked at. \<open>lua_tostring\<close>
  gives a null pointer for an error value that is neither a string nor a number, and the code
  makes the exception from it, which is undefined.
\<close>

definition run_script ::
  "nat \<Rightarrow> ('e, 'L) lua_api \<Rightarrow> ('v, 'L, 'm, 'snip, 'w) lua_vm \<Rightarrow> 't timeout_checker_base \<Rightarrow> 't
    \<Rightarrow> (('L, 'v, 'h, 'w) run_state, unit) action" where
  "run_script fuel api vm vt checker =
     bindS (getS (\<lambda>s. Start vt (Clock vm (rs_world s)) checker)) (\<lambda>checker.
     bindS
       (\<lambda>s. case pcall fuel vm vt checker (Steps vm (rs_lua s) (rs_world s)) 0 (rs_lua s, rs_world s) of
          (r, (L, w)) \<Rightarrow> (r, s\<lparr>rs_lua := L, rs_world := w\<rparr>))
       (\<lambda>res.
       if res \<noteq> LUA_OK
       then
         bindS (onL (lua_tostring api 1)) (\<lambda>error_message.
         case error_message of
           None \<Rightarrow> liftS (Crash NullCString)
         | Some m \<Rightarrow>
             if res = LUA_ERRMEM then throwS (OutOfMemoryLimit (c_str m)) else throwS (ExecutionError (c_str m)))
       else returnS ()))"

definition lua_execute ::
  "nat \<Rightarrow> bool \<Rightarrow> ('d, 'v) luacpp \<Rightarrow> 'h header_lib \<Rightarrow> http_lib \<Rightarrow> (string, 'v) rehash \<Rightarrow> ('e, 'L) lua_api
    \<Rightarrow> ('v, 'L, 'm, 'snip, 'w) lua_vm \<Rightarrow> ('m, 't) execution_control_params \<Rightarrow> ('h, 'w) extra_params
    \<Rightarrow> 'snip lua_script option \<Rightarrow> ('h execution_context \<times> 'w, unit) action" where
  "lua_execute fuel ndebug lc hl ht reh api vm ctl deps script =
     (case script of
        None \<Rightarrow> throwS (StdException ''Script is NULL'')
      | Some s \<Rightarrow>
          if sb_language s \<noteq> LuaLanguage then throwS (StdException ''Incorrect script language'')
          else
            (\<lambda>(c, w).
              bindS (liftS (prepare ndebug lc reh api vm ctl deps s c)) (\<lambda>(L, env, checker) (c, w).
              case thenS (guard_enter lc hl ht reh vm)
                   (leavingS (run_script fuel api vm (ep_timeout_vt ctl) checker)
                     (guard_leave lc hl vm) (close_context lc hl))
                   \<lparr>rs_lua = L, rs_env = env, rs_context = c, rs_world = w\<rparr> of
                (r, t) \<Rightarrow> (r, (rs_context t, rs_world t))) (c, w)))"

definition lua_executor ::
  "nat \<Rightarrow> bool \<Rightarrow> ('d, 'v) luacpp \<Rightarrow> 'h header_lib \<Rightarrow> http_lib \<Rightarrow> (string, 'v) rehash \<Rightarrow> ('e, 'L) lua_api
    \<Rightarrow> ('v, 'L, 'm, 'snip, 'w) lua_vm \<Rightarrow> ('m, 't) execution_control_params \<Rightarrow> ('h, 'w) extra_params
    \<Rightarrow> (('snip, unit) lua_script_ext, 'h, 'w) executor_base" where
  "lua_executor fuel ndebug lc hl ht reh api vm ctl deps =
     \<lparr>ExecuteScript = lua_execute fuel ndebug lc hl ht reh api vm ctl deps\<rparr>"

text \<open>\<open>lua::ScriptEngine\<close> and \<open>CreateScriptEngine\<close>.\<close>

definition lua_script_engine ::
  "nat \<Rightarrow> bool \<Rightarrow> ('d, 'v) luacpp \<Rightarrow> 'h header_lib \<Rightarrow> http_lib \<Rightarrow> (string, 'v) rehash \<Rightarrow> ('e, 'L) lua_api
    \<Rightarrow> ('v, 'L, 'm, 'snip, 'w) lua_vm \<Rightarrow> (string \<Rightarrow> string \<Rightarrow> 'snip option outcome) \<Rightarrow> junk \<Rightarrow> 'snip
    \<Rightarrow> ('m, 't) execution_control_params \<Rightarrow> ('h, 'w) extra_params
    \<Rightarrow> (('snip, unit) lua_script_ext, 'h, 'w) script_engine_base" where
  "lua_script_engine fuel ndebug lc hl ht reh api vm compile_string junk none ctl deps =
     \<lparr>CreateCompiler = lua_compiler compile_string junk none,
      CreateExecutor = lua_executor fuel ndebug lc hl ht reh api vm ctl deps\<rparr>"

section \<open>Starting and ending a script\<close>

text \<open>The state in which a script starts, if nothing fails before.\<close>

definition starts ::
  "bool \<Rightarrow> ('d, 'v) luacpp \<Rightarrow> 'h header_lib \<Rightarrow> http_lib \<Rightarrow> (string, 'v) rehash \<Rightarrow> ('e, 'L) lua_api
    \<Rightarrow> ('v, 'L, 'm, 'snip, 'w) lua_vm \<Rightarrow> ('m, 't) execution_control_params \<Rightarrow> ('h, 'w) extra_params
    \<Rightarrow> 'snip lua_script \<Rightarrow> 'h execution_context \<Rightarrow> 'w \<Rightarrow> 't \<Rightarrow> ('L, 'v, 'h, 'w) run_state \<Rightarrow> bool" where
  "starts ndebug lc hl ht reh api vm ctl deps s c w checker t \<longleftrightarrow>
     (case prepare ndebug lc reh api vm ctl deps s c of
        Ret (L, env, checker') \<Rightarrow>
          checker' = checker \<and>
          guard_enter lc hl ht reh vm \<lparr>rs_lua = L, rs_env = env, rs_context = c, rs_world = w\<rparr> = (Ret (), t)
      | _ \<Rightarrow> False)"

text \<open>
  A run that ends at its \<open>n\<close>-th step, and one that is at its \<open>n\<close>-th step past the deadline;
  before that every call of the hook is in time and finds its pointer.
\<close>

definition in_time :: "('v, 'L, 'm, 'snip, 'w) lua_vm \<Rightarrow> (nat \<Rightarrow> ('L, 'w) script_step) \<Rightarrow> time_point \<Rightarrow> nat \<Rightarrow> bool" where
  "in_time vm steps stop n \<longleftrightarrow>
     (\<forall>k<n. \<exists>now L w. steps k = AtHook now L w \<and> now \<le> stop \<and> RegistryHasPointer vm kTimeoutCheckerVariableName L)"

definition ends ::
  "('v, 'L, 'm, 'snip, 'w) lua_vm \<Rightarrow> (nat \<Rightarrow> ('L, 'w) script_step) \<Rightarrow> time_point \<Rightarrow> nat \<Rightarrow> lua_status outcome \<Rightarrow> 'L \<Rightarrow> 'w \<Rightarrow> bool" where
  "ends vm steps stop n r L w \<longleftrightarrow> in_time vm steps stop n \<and> steps n = Ended r L w"

definition expires :: "('v, 'L, 'm, 'snip, 'w) lua_vm \<Rightarrow> (nat \<Rightarrow> ('L, 'w) script_step) \<Rightarrow> time_point \<Rightarrow> nat \<Rightarrow> 'L \<Rightarrow> 'w \<Rightarrow> bool" where
  "expires vm steps stop n L w \<longleftrightarrow> in_time vm steps stop n
     \<and> (\<exists>now. steps n = AtHook now L w \<and> stop < now \<and> RegistryHasPointer vm kTimeoutCheckerVariableName L)"

text \<open>
  The hook is called at later and later times, at most \<open>gap\<close> after the call before, and finds the
  pointer that the executor has stored.
\<close>

definition paced_steps ::
  "('v, 'L, 'm, 'snip, 'w) lua_vm \<Rightarrow> (nat \<Rightarrow> ('L, 'w) script_step) \<Rightarrow> time_point \<Rightarrow> int \<Rightarrow> bool" where
  "paced_steps vm steps t0 gap \<longleftrightarrow>
     (\<forall>k now L w. steps k = AtHook now L w \<longrightarrow> RegistryHasPointer vm kTimeoutCheckerVariableName L)
   \<and> (\<forall>now L w. steps 0 = AtHook now L w \<longrightarrow> now \<le> t0 + gap)
   \<and> (\<forall>k now L w now' L' w'. steps k = AtHook now L w \<longrightarrow> steps (Suc k) = AtHook now' L' w' \<longrightarrow> now < now' \<and> now' \<le> now + gap)"

text \<open>
  \<open>gval L name\<close> is the global \<open>name\<close>, and \<open>reading L name v\<close> what \<open>PopGlobal\<close> reads for a
  variable that held \<open>v\<close>.
\<close>

locale lua_vm_laws =
  fixes vm :: "('v, 'L, 'm, 'snip, 'w) lua_vm" and gval :: "'L \<Rightarrow> string \<Rightarrow> 'v"
    and reading :: "'L \<Rightarrow> string \<Rightarrow> 'v \<Rightarrow> 'v outcome"
  assumes upload: "UploadCode vm code L = (Ret (), L') \<Longrightarrow> gval L' = gval L"
    and set_pointer: "RegistrySetPointer vm name L = (Ret (), L') \<Longrightarrow> gval L' = gval L \<and> RegistryHasPointer vm name L'"
    and sethook: "lua_sethook vm n L = (Ret (), L') \<Longrightarrow>
      gval L' = gval L \<and> RegistryHasPointer vm name L' = RegistryHasPointer vm name L"
    and push_global: "PushGlobal vm v name L = (Ret (), L') \<Longrightarrow>
      gval L' = (gval L)(name := v) \<and> RegistryHasPointer vm other L' = RegistryHasPointer vm other L"
    and pop_global: "\<exists>L'. PopGlobal vm v name L = (reading L name v, L') \<and> reading L' = reading L"
begin

lemma push_globals_gval:
  assumes "push_globals vm env L = (Ret (), L')" and "distinct (map fst env)"
  shows "gval L' = (\<lambda>name. case map_of env name of Some v \<Rightarrow> v | None \<Rightarrow> gval L name)
    \<and> RegistryHasPointer vm other L' = RegistryHasPointer vm other L"
  using assms
proof (induction env arbitrary: L)
  case Nil
  then show ?case by (simp add: outcome_simps)
next
  case (Cons p env)
  obtain name v where p: "p = (name, v)" by (cases p)
  obtain L1 where L1: "PushGlobal vm v name L = (Ret (), L1)" "push_globals vm env L1 = (Ret (), L')"
    using Cons.prems(1) unfolding p by (auto simp: thenS_def bindS_def split: prod.splits outcome.splits)
  have "map_of env name = None" using Cons.prems(2) by (simp add: p map_of_eq_None_iff)
  with Cons.IH [OF L1(2)] Cons.prems(2) push_global [OF L1(1)] show ?case
    by (auto simp: p fun_eq_iff split: option.split)
qed

lemma pop_globals_reads:
  assumes "rs_env s = done @ rest" and "\<forall>(name, v) \<in> set rest. \<exists>x. reading (rs_lua s) name v = Ret x"
  shows "\<exists>L' read. pop_globals vm done rest s = (Ret (), s\<lparr>rs_lua := L', rs_env := done @ read\<rparr>)
    \<and> list_all2 (\<lambda>(name, v) (m, x). m = name \<and> reading (rs_lua s) name v = Ret x) rest read"
  using assms
proof (induction rest arbitrary: "done" s)
  case Nil
  then show ?case by (intro exI [of _ "rs_lua s"] exI [of _ "[]"]) (simp add: outcome_simps)
next
  case (Cons p rest)
  obtain name v where p: "p = (name, v)" by (cases p)
  obtain L1 where L1: "PopGlobal vm v name (rs_lua s) = (reading (rs_lua s) name v, L1)" "reading L1 = reading (rs_lua s)"
    using pop_global by blast
  obtain x where x: "reading (rs_lua s) name v = Ret x" using Cons.prems(2) p by auto
  let ?s = "s\<lparr>rs_lua := L1, rs_env := (done @ [(name, x)]) @ rest\<rparr>"
  obtain L' read where "pop_globals vm (done @ [(name, x)]) rest ?s = (Ret (), ?s\<lparr>rs_lua := L', rs_env := (done @ [(name, x)]) @ read\<rparr>)"
    "list_all2 (\<lambda>(name, v) (m, x). m = name \<and> reading L1 name v = Ret x) rest read"
    using Cons.IH [of ?s "done @ [(name, x)]"] Cons.prems(2) L1(2) by auto
  then show ?case using L1 x p
    by (intro exI [of _ L'] exI [of _ "(name, x) # read"]) (simp add: bindS_def onL_def outcome_simps)
qed

lemma pop_globals_fails:
  assumes "rs_env s = done @ rest" and "\<forall>(name, v) \<in> set rest. (\<exists>x. reading (rs_lua s) name v = Ret x) \<or> (\<exists>e. reading (rs_lua s) name v = Throw e)"
    and "(name, v) \<in> set rest" and "reading (rs_lua s) name v = Throw e"
  shows "\<exists>e t. pop_globals vm done rest s = (Throw e, t)"
  using assms
proof (induction rest arbitrary: "done" s)
  case (Cons p rest)
  obtain n u where p: "p = (n, u)" by (cases p)
  obtain L1 where L1: "PopGlobal vm u n (rs_lua s) = (reading (rs_lua s) n u, L1)" "reading L1 = reading (rs_lua s)"
    using pop_global by blast
  show ?case
  proof (cases "reading (rs_lua s) n u")
    case (Ret x)
    let ?s = "s\<lparr>rs_lua := L1, rs_env := (done @ [(n, x)]) @ rest\<rparr>"
    have "\<exists>e t. pop_globals vm (done @ [(n, x)]) rest ?s = (Throw e, t)"
      by (rule Cons.IH) (use Cons.prems L1(2) Ret p in auto)
    then show ?thesis using L1(1) Ret p by (simp add: bindS_def onL_def outcome_simps)
  next
    case (Throw e')
    then show ?thesis using L1(1) p by (simp add: bindS_def onL_def)
  qed (use Cons.prems(2) p in auto)
qed simp

end

lemma map_of_read:
  "list_all2 (\<lambda>(name, v) (m, x). m = name \<and> f name v = Ret x) env read \<Longrightarrow> map_of env name = Some v \<Longrightarrow> f name v = Ret x
    \<Longrightarrow> map_of read name = Some x"
  by (induction rule: list_all2_induct) (auto split: if_splits)

section \<open>Runs under the hook\<close>

context timeout_contract
begin

lemma pcall_in_time:
  assumes "in_time vm steps (t0 + allowance c) m" and "k \<le> m"
  shows "pcall (m - k + Suc fuel) vm vt (Start vt t0 c) steps k s = pcall (Suc fuel) vm vt (Start vt t0 c) steps m s"
  using assms(2)
proof (induction "m - k" arbitrary: k s)
  case 0
  then show ?case by simp
next
  case (Suc d)
  then have k: "k < m" "m - k = Suc (m - Suc k)" by auto
  obtain now L w where step: "steps k = AtHook now L w" "now \<le> t0 + allowance c"
    "RegistryHasPointer vm kTimeoutCheckerVariableName L"
    using assms(1) k(1) unfolding in_time_def by blast
  have "pcall (m - k + Suc fuel) vm vt (Start vt t0 c) steps k s = pcall (m - Suc k + Suc fuel) vm vt (Start vt t0 c) steps (Suc k) (L, w)"
    using step by (simp add: k(2) check_hook_def IsExpired_Start outcome_simps)
  also have "\<dots> = pcall (Suc fuel) vm vt (Start vt t0 c) steps m (L, w)" using Suc k by (intro Suc.hyps) auto
  also have "\<dots> = pcall (Suc fuel) vm vt (Start vt t0 c) steps m s" by simp
  finally show ?case .
qed

end

section \<open>The executor over well-behaved libraries\<close>

lemma um_emplace_all:
  assumes "permutes_entries reh" and "um_ok env"
  shows "um_ok (fold (\<lambda>name. um_emplace reh name x) names env)
    \<and> map_of (fold (\<lambda>name. um_emplace reh name x) names env)
      = (\<lambda>name. case map_of env name of Some v \<Rightarrow> Some v | None \<Rightarrow> if name \<in> set names then Some x else None)"
  using assms(2)
proof (induction names arbitrary: env)
  case Nil
  then show ?case by (simp add: fun_eq_iff split: option.split)
next
  case (Cons n names)
  from Cons.IH [OF um_ok_emplace [OF assms(1) Cons.prems, of n x]] show ?case
    by (auto simp: map_of_emplace_at [OF assms(1) Cons.prems] fun_eq_iff split: option.split)
qed

text \<open>The environment of the modules and the removed objects, as a map.\<close>

definition environment :: "bool \<Rightarrow> ('d, 'v) luacpp \<Rightarrow> ('h, 'w) extra_params \<Rightarrow> project_id \<Rightarrow> string \<Rightarrow> 'v option" where
  "environment ndebug lc deps project name =
     (if name = kHttpClientVariableName \<and> ep_http_client deps \<noteq> None then Some (LuaMetaObject lc HttpClientModule)
      else if name = kStorageVariableName \<and> ep_storage deps \<noteq> None then Some (LuaMetaObject lc (KvStorageModule project))
      else if name \<in> set (unsafe_objects ndebug) then Some (LuaTNil lc)
      else None)"

lemma variable_names [simp]:
  "kHttpClientVariableName \<noteq> kStorageVariableName" "kHttpClientVariableName \<noteq> kRequestVariableName"
  "kHttpClientVariableName \<noteq> kResponseVariableName" "kStorageVariableName \<noteq> kHttpClientVariableName"
  "kStorageVariableName \<noteq> kRequestVariableName" "kStorageVariableName \<noteq> kResponseVariableName"
  "kRequestVariableName \<noteq> kHttpClientVariableName" "kRequestVariableName \<noteq> kStorageVariableName"
  "kRequestVariableName \<noteq> kResponseVariableName" "kResponseVariableName \<noteq> kHttpClientVariableName"
  "kResponseVariableName \<noteq> kStorageVariableName" "kResponseVariableName \<noteq> kRequestVariableName"
  "kHttpClientVariableName \<notin> set (unsafe_objects ndebug)" "kStorageVariableName \<notin> set (unsafe_objects ndebug)"
  "kRequestVariableName \<notin> set (unsafe_objects ndebug)" "kResponseVariableName \<notin> set (unsafe_objects ndebug)"
  by (simp_all add: kHttpClientVariableName_def kStorageVariableName_def kRequestVariableName_def kResponseVariableName_def
      unsafe_objects_def)

lemma environment_map:
  assumes "permutes_entries reh"
  shows "um_ok (remove_unsafe_objects ndebug lc reh (modules_env lc reh deps project))"
    and "map_of (remove_unsafe_objects ndebug lc reh (modules_env lc reh deps project)) = environment ndebug lc deps project"
proof -
  let ?env = "modules_env lc reh deps project"
  have env: "um_ok ?env \<and> map_of ?env = (\<lambda>name. if name = kHttpClientVariableName \<and> ep_http_client deps \<noteq> None
      then Some (LuaMetaObject lc HttpClientModule)
      else if name = kStorageVariableName \<and> ep_storage deps \<noteq> None then Some (LuaMetaObject lc (KvStorageModule project))
      else None)"
    by (simp add: modules_env_def Let_def fun_eq_iff um_ok_emplace [OF assms] map_of_emplace_at [OF assms])
  from um_emplace_all [OF assms conjunct1 [OF env], of "LuaTNil lc" "unsafe_objects ndebug"] env
  show "um_ok (remove_unsafe_objects ndebug lc reh ?env)"
    and "map_of (remove_unsafe_objects ndebug lc reh ?env) = environment ndebug lc deps project"
    by (simp_all add: remove_unsafe_objects_def environment_def [abs_def] fun_eq_iff)
qed

lemma runO_Ret: "runO m L = Ret L' \<longleftrightarrow> m L = (Ret (), L')"
  by (auto simp: runO_def bindO_Ret_iff split: prod.split)

lemma thenS_Ret_iff: "thenS m k s = (Ret x, t) \<longleftrightarrow> (\<exists>u. m s = (Ret (), u) \<and> k u = (Ret x, t))"
  by (auto simp: thenS_def bindS_def split: prod.split outcome.split)

locale lua_executor_env =
  lua_context_env js num_ok hl canon ht qreh lc "entry" named reh + lua_vm_laws vm gval reading
  + lua_laws api view num_text int_num + timeout_contract vt allowance
  for js :: "'d json_lib" and num_ok and hl :: "'h header_lib" and canon ht qreh
    and lc :: "('e, 'v) luacpp" and "entry" named reh
    and vm :: "('v, 'L, 'm, 'snip, 'w) lua_vm" and gval reading
    and api :: "('f, 'L) lua_api" and view num_text int_num
    and vt :: "'t timeout_checker_base" and allowance
begin

lemma prepare_cases:
  assumes "prepare ndebug lc reh api vm ctl deps s c = Ret (L, env, checker)"
  obtains L0 where "create_lua_state api vm (lua_allocator (ep_memory_vt ctl)) (CreateMemoryChecker (ep_memory_factory ctl) (eo_memory_limit (ec_options c))) = Ret L0"
    "gval L = gval L0" "RegistryHasPointer vm kTimeoutCheckerVariableName L"
    "um_ok env" "map_of env = environment ndebug lc deps (sb_project_id s)"
    "checker = CreateTimeoutChecker (ep_timeout_factory ctl) (eo_timeout (ec_options c))"
proof -
  obtain L0 L1 where L: "create_lua_state api vm (lua_allocator (ep_memory_vt ctl)) (CreateMemoryChecker (ep_memory_factory ctl) (eo_memory_limit (ec_options c))) = Ret L0"
    "UploadCode vm (lua_snippet s) L0 = (Ret (), L1)" "attach_checker vm L1 = (Ret (), L)"
    "env = remove_unsafe_objects ndebug lc reh (modules_env lc reh deps (sb_project_id s))"
    "checker = CreateTimeoutChecker (ep_timeout_factory ctl) (eo_timeout (ec_options c))"
    using assms by (auto simp: prepare_def Let_def bindO_Ret_iff runO_Ret)
  obtain L2 where "RegistrySetPointer vm kTimeoutCheckerVariableName L1 = (Ret (), L2)"
    "lua_sethook vm kInstructionsBeforeHoock L2 = (Ret (), L)"
    using L(3) by (auto simp: attach_checker_def thenS_Ret_iff)
  with upload [OF L(2)] have "gval L = gval L0" "RegistryHasPointer vm kTimeoutCheckerVariableName L"
    using set_pointer sethook by metis+
  with L show thesis by (intro that) (simp_all add: environment_map [OF env_rehash])
qed

lemma starts_cases:
  assumes "starts ndebug lc hl ht reh api vm ctl deps s c w checker t" and "context_ok hl canon c"
  obtains L L0 env request response r
  where "prepare ndebug lc reh api vm ctl deps s c = Ret (L, env, checker)"
    "guard_enter lc hl ht reh vm \<lparr>rs_lua = L, rs_env = env, rs_context = c, rs_world = w\<rparr> = (Ret (), t)"
    "create_lua_state api vm (lua_allocator (ep_memory_vt ctl)) (CreateMemoryChecker (ep_memory_factory ctl) (eo_memory_limit (ec_options c))) = Ret L0"
    "rs_context t = c" "rs_world t = w" "um_ok (rs_env t)"
    "map_of (rs_env t) = (environment ndebug lc deps (sb_project_id s))
      (kRequestVariableName \<mapsto> request, kResponseVariableName \<mapsto> response)"
    "gval (rs_lua t) = (\<lambda>name. case map_of (rs_env t) name of Some v \<Rightarrow> v | None \<Rightarrow> gval L0 name)"
    "RegistryHasPointer vm kTimeoutCheckerVariableName (rs_lua t)"
    "isTable lc request" "isTable lc response"
    "\<And>c'. context_close lc hl (rs_env t) c' = Ret (set_response r c')" "same_response hl canon r (ec_response c)"
    "checker = CreateTimeoutChecker (ep_timeout_factory ctl) (eo_timeout (ec_options c))"
    "\<exists>items. response_of lc entry response (resp_status (ec_response c)) items (c_str (msg_body (ec_response c)))"
proof -
  obtain L env where prep: "prepare ndebug lc reh api vm ctl deps s c = Ret (L, env, checker)"
    and enter: "guard_enter lc hl ht reh vm \<lparr>rs_lua = L, rs_env = env, rs_context = c, rs_world = w\<rparr> = (Ret (), t)"
    using assms(1) by (auto simp: starts_def split: outcome.splits)
  obtain L0 where L0: "create_lua_state api vm (lua_allocator (ep_memory_vt ctl)) (CreateMemoryChecker (ep_memory_factory ctl) (eo_memory_limit (ec_options c))) = Ret L0"
    "gval L = gval L0" "RegistryHasPointer vm kTimeoutCheckerVariableName L"
    "um_ok env" "map_of env = environment ndebug lc deps (sb_project_id s)"
    "checker = CreateTimeoutChecker (ep_timeout_factory ctl) (eo_timeout (ec_options c))"
    by (rule prepare_cases [OF prep])
  have fresh: "kRequestVariableName \<notin> fst ` set env" "kResponseVariableName \<notin> fst ` set env"
    using L0(5) by (auto simp: environment_def simp flip: map_of_eq_None_iff)
  obtain env' request response r where open': "context_open lc hl ht reh c env = Ret env'" "um_ok env'"
    "map_of env' = (map_of env)(kRequestVariableName \<mapsto> request, kResponseVariableName \<mapsto> response)"
    "isTable lc request" "isTable lc response"
    "\<And>c'. context_close lc hl env' c' = Ret (set_response r c')" "same_response hl canon r (ec_response c)"
    "\<exists>items. response_of lc entry response (resp_status (ec_response c)) items (c_str (msg_body (ec_response c)))"
    by (rule context_open_close [OF assms(2) L0(4) fresh]) blast
  obtain L' where L': "push_globals vm env' L = (Ret (), L')"
    "t = \<lparr>rs_lua = L', rs_env = env', rs_context = c, rs_world = w\<rparr>"
    using enter open'(1)
    by (auto simp: guard_enter_def open_context_def leavingS_def onL_def thenS_Ret_iff outcome_simps bindS_def destructS_def
        split: prod.splits outcome.splits)
  have g: "gval L' = (\<lambda>name. case map_of env' name of Some v \<Rightarrow> v | None \<Rightarrow> gval L name)
      \<and> RegistryHasPointer vm kTimeoutCheckerVariableName L' = RegistryHasPointer vm kTimeoutCheckerVariableName L"
    using push_globals_gval [OF L'(1)] open'(2) by (simp add: um_ok_def)
  show thesis
    by (rule that [of L env L0 request response r]) (use prep enter g L' L0 open' in \<open>simp_all only: run_state.simps\<close>)
qed

text \<open>What the rest of \<open>Execute\<close> does.\<close>

lemma execute_started:
  assumes "starts ndebug lc hl ht reh api vm ctl deps s c w checker t" and "context_ok hl canon c" and "sb_language s = LuaLanguage"
  shows "lua_execute fuel ndebug lc hl ht reh api vm ctl deps (Some s) (c, w) =
    (case leavingS (run_script fuel api vm (ep_timeout_vt ctl) checker) (guard_leave lc hl vm) (close_context lc hl) t of
       (r, t') \<Rightarrow> (r, (rs_context t', rs_world t')))"
  by (rule starts_cases [OF assms(1,2)]) (simp add: lua_execute_def assms(3) outcome_simps)

lemma run_ends:
  assumes "ends vm (Steps vm (rs_lua t) (rs_world t)) (Clock vm (rs_world t) + allowance checker) n r L w" and "n < fuel"
  shows "run_script fuel api vm vt checker t =
    bindS (\<lambda>s. (r, s))
       (\<lambda>res.
       if res \<noteq> LUA_OK
       then
         bindS (onL (lua_tostring api 1)) (\<lambda>error_message.
         case error_message of
           None \<Rightarrow> liftS (Crash NullCString)
         | Some m \<Rightarrow>
             if res = LUA_ERRMEM then throwS (OutOfMemoryLimit (c_str m)) else throwS (ExecutionError (c_str m)))
       else returnS ()) (t\<lparr>rs_lua := L, rs_world := w\<rparr>)"
proof -
  obtain f where f: "fuel = n + Suc f" using assms(2) by (metis add_Suc_right less_iff_Suc_add)
  from assms(1) have "in_time vm (Steps vm (rs_lua t) (rs_world t)) (Clock vm (rs_world t) + allowance checker) n"
    "Steps vm (rs_lua t) (rs_world t) n = Ended r L w" by (simp_all add: ends_def)
  with pcall_in_time [of vm "Steps vm (rs_lua t) (rs_world t)" "Clock vm (rs_world t)" checker n 0 f]
  have "pcall fuel vm vt (Start vt (Clock vm (rs_world t)) checker) (Steps vm (rs_lua t) (rs_world t)) 0 (rs_lua t, rs_world t)
      = (r, (L, w))"
    by (simp add: f)
  then show ?thesis by (simp add: run_script_def bindS_def getS_def)
qed

lemma run_expires:
  assumes "expires vm (Steps vm (rs_lua t) (rs_world t)) (Clock vm (rs_world t) + allowance checker) n L w" and "n < fuel"
  shows "run_script fuel api vm vt checker t
    = (Throw (ExecutionTimeout ''Execution timeout is expired''), t\<lparr>rs_lua := L, rs_world := w\<rparr>)"
proof -
  obtain f where f: "fuel = n + Suc f" using assms(2) by (metis add_Suc_right less_iff_Suc_add)
  from assms(1) obtain now where
    "in_time vm (Steps vm (rs_lua t) (rs_world t)) (Clock vm (rs_world t) + allowance checker) n"
    "Steps vm (rs_lua t) (rs_world t) n = AtHook now L w" "Clock vm (rs_world t) + allowance checker < now"
    "RegistryHasPointer vm kTimeoutCheckerVariableName L" by (auto simp: expires_def)
  with pcall_in_time [of vm "Steps vm (rs_lua t) (rs_world t)" "Clock vm (rs_world t)" checker n 0 f]
  have "pcall fuel vm vt (Start vt (Clock vm (rs_world t)) checker) (Steps vm (rs_lua t) (rs_world t)) 0 (rs_lua t, rs_world t)
      = (Throw (ExecutionTimeout ''Execution timeout is expired''), (L, w))"
    by (simp add: f check_hook_def IsExpired_Start outcome_simps)
  then show ?thesis by (simp add: run_script_def bindS_def getS_def)
qed

lemma close_started:
  assumes "\<And>c'. context_close lc hl (rs_env t) c' = Ret (set_response r c')" and "rs_env s = rs_env t"
  shows "close_context lc hl s = (Ret (), s\<lparr>rs_context := set_response r (rs_context s)\<rparr>)"
  using assms(1) unfolding assms(2) [symmetric] by (simp add: close_context_def bindS_def modifyS_def)

text \<open>An exception leaves the context with the response it had.\<close>

lemma execute_unwinds:
  assumes "starts ndebug lc hl ht reh api vm ctl deps s c w checker t" and "context_ok hl canon c" and "sb_language s = LuaLanguage"
    and "run_script fuel api vm (ep_timeout_vt ctl) checker t = (Throw e, t\<lparr>rs_lua := L, rs_world := w'\<rparr>)"
  shows "\<exists>r. lua_execute fuel ndebug lc hl ht reh api vm ctl deps (Some s) (c, w) = (Throw e, (set_response r c, w'))
    \<and> same_response hl canon r (ec_response c)"
proof (rule starts_cases [OF assms(1,2)])
  fix r assume r: "\<And>c'. context_close lc hl (rs_env t) c' = Ret (set_response r c')" "same_response hl canon r (ec_response c)"
    and c: "rs_context t = c"
  have "close_context lc hl (t\<lparr>rs_lua := L, rs_world := w'\<rparr>)
      = (Ret (), t\<lparr>rs_lua := L, rs_world := w'\<rparr>\<lparr>rs_context := set_response r c\<rparr>)"
    using close_started [OF r(1), of "t\<lparr>rs_lua := L, rs_world := w'\<rparr>"] c by simp
  then have "lua_execute fuel ndebug lc hl ht reh api vm ctl deps (Some s) (c, w) = (Throw e, (set_response r c, w'))"
    by (simp add: execute_started [OF assms(1-3)] leavingS_def assms(4) destructS_def outcome_simps)
  with r(2) show ?thesis by blast
qed

lemma tostring_message:
  assumes "at 1 (stk (view L)) = Some x"
  obtains L' where "lua_tostring api 1 L =
    (Ret (case x of LStr m \<Rightarrow> Some m | LNum d \<Rightarrow> Some (num_text d) | _ \<Rightarrow> None), L')"
proof -
  from assms obtain p where "position 1 (stk (view L)) = Some p" "stk (view L) ! p = x" by (auto simp: at_def)
  then have "fst (m_tostring num_text 1 (view L)) = Ret (case x of LStr m \<Rightarrow> Some m | LNum d \<Rightarrow> Some (num_text d) | _ \<Rightarrow> None)"
    by (simp add: m_tostring_def split: lval.split)
  with tostring [of 1 L] have "fst (lua_tostring api 1 L) = Ret (case x of LStr m \<Rightarrow> Some m | LNum d \<Rightarrow> Some (num_text d) | _ \<Rightarrow> None)"
    by (auto simp: behaves_def)
  then show thesis by (intro that [of "snd (lua_tostring api 1 L)"]) (simp add: prod_eq_iff)
qed

lemma execute_error:
  assumes "starts ndebug lc hl ht reh api vm ctl deps s c w checker t" and "context_ok hl canon c" and "sb_language s = LuaLanguage"
    and "ep_timeout_vt ctl = vt" and "ends vm (Steps vm (rs_lua t) w) (Clock vm w + allowance checker) n (Ret status) L w'"
    and "n < fuel" and "status \<noteq> LUA_OK" and "at 1 (stk (view L)) = Some (LStr m)"
  shows "\<exists>r. lua_execute fuel ndebug lc hl ht reh api vm ctl deps (Some s) (c, w)
      = (Throw (if status = LUA_ERRMEM then OutOfMemoryLimit (c_str m) else ExecutionError (c_str m)), (set_response r c, w'))
    \<and> same_response hl canon r (ec_response c)"
proof -
  have w: "rs_world t = w" by (rule starts_cases [OF assms(1,2)])
  obtain L' where L': "lua_tostring api 1 L = (Ret (Some m), L')" using tostring_message [OF assms(8)] by auto
  have "run_script fuel api vm (ep_timeout_vt ctl) checker t
    = (Throw (if status = LUA_ERRMEM then OutOfMemoryLimit (c_str m) else ExecutionError (c_str m)),
       t\<lparr>rs_lua := L', rs_world := w'\<rparr>)"
    unfolding assms(4) run_ends [of t, unfolded w, OF assms(5,6)]
    using assms(7) L' by (simp add: bindS_def onL_def throwS_def)
  then show ?thesis by (rule execute_unwinds [OF assms(1-3)])
qed

lemma execute_without_message:
  assumes "starts ndebug lc hl ht reh api vm ctl deps s c w checker t" and "context_ok hl canon c" and "sb_language s = LuaLanguage"
    and "ep_timeout_vt ctl = vt" and "ends vm (Steps vm (rs_lua t) w) (Clock vm w + allowance checker) n (Ret status) L w'"
    and "n < fuel" and "status \<noteq> LUA_OK" and "at 1 (stk (view L)) = Some x" and "value_type x \<notin> {LUA_TSTRING, LUA_TNUMBER}"
  shows "fst (lua_execute fuel ndebug lc hl ht reh api vm ctl deps (Some s) (c, w)) = Crash NullCString"
proof -
  have w: "rs_world t = w" by (rule starts_cases [OF assms(1,2)])
  obtain L' where "lua_tostring api 1 L = (Ret None, L')"
    by (rule tostring_message [OF assms(8)]) (use assms(9) in \<open>cases x; simp\<close>)
  then have "\<exists>t'. run_script fuel api vm (ep_timeout_vt ctl) checker t = (Crash NullCString, t')"
    unfolding assms(4) run_ends [of t, unfolded w, OF assms(5,6)]
    using assms(7) by (simp add: bindS_def onL_def liftS_def split: prod.splits)
  then show ?thesis by (auto simp: execute_started [OF assms(1-3)] leavingS_def)
qed

lemma execute_throws:
  assumes "starts ndebug lc hl ht reh api vm ctl deps s c w checker t" and "context_ok hl canon c" and "sb_language s = LuaLanguage"
    and "ep_timeout_vt ctl = vt" and "ends vm (Steps vm (rs_lua t) w) (Clock vm w + allowance checker) n (Throw e) L w'"
    and "n < fuel"
  shows "\<exists>r. lua_execute fuel ndebug lc hl ht reh api vm ctl deps (Some s) (c, w) = (Throw e, (set_response r c, w'))
    \<and> same_response hl canon r (ec_response c)"
proof -
  have w: "rs_world t = w" by (rule starts_cases [OF assms(1,2)])
  have "run_script fuel api vm (ep_timeout_vt ctl) checker t = (Throw e, t\<lparr>rs_lua := L, rs_world := w'\<rparr>)"
    unfolding assms(4) run_ends [of t, unfolded w, OF assms(5,6)] by (simp add: bindS_def)
  then show ?thesis by (rule execute_unwinds [OF assms(1-3)])
qed

lemma execute_times_out:
  assumes "starts ndebug lc hl ht reh api vm ctl deps s c w checker t" and "context_ok hl canon c" and "sb_language s = LuaLanguage"
    and "ep_timeout_vt ctl = vt" and "expires vm (Steps vm (rs_lua t) w) (Clock vm w + allowance checker) n L w'" and "n < fuel"
  shows "\<exists>r. lua_execute fuel ndebug lc hl ht reh api vm ctl deps (Some s) (c, w)
      = (Throw (ExecutionTimeout ''Execution timeout is expired''), (set_response r c, w'))
    \<and> same_response hl canon r (ec_response c)"
proof -
  have w: "rs_world t = w" by (rule starts_cases [OF assms(1,2)])
  show ?thesis
    by (rule execute_unwinds [OF assms(1-3)]) (simp add: assms(4) run_expires [of t, unfolded w, OF assms(5,6)])
qed

lemma execute_returns:
  assumes "starts ndebug lc hl ht reh api vm ctl deps s c w checker t" and "context_ok hl canon c" and "sb_language s = LuaLanguage"
    and "ep_timeout_vt ctl = vt" and "ends vm (Steps vm (rs_lua t) w) (Clock vm w + allowance checker) n (Ret LUA_OK) L w'"
    and "n < fuel" and "\<forall>name v. map_of (rs_env t) name = Some v \<longrightarrow> (\<exists>x. reading L name v = Ret x)"
    and "map_of (rs_env t) kResponseVariableName = Some u" and "reading L kResponseVariableName u = Ret x"
    and "response_of lc entry x status items body"
  shows "lua_execute fuel ndebug lc hl ht reh api vm ctl deps (Some s) (c, w) = (Ret (), (set_response
    \<lparr>msg_headers = Some (fold (\<lambda>(k, x). HmEmplace hl k x) items (HmEmpty hl)), msg_body = body, resp_status = status\<rparr> c, w'))"
proof (rule starts_cases [OF assms(1,2)])
  assume t: "rs_context t = c" "rs_world t = w" "um_ok (rs_env t)"
  let ?t = "t\<lparr>rs_lua := L, rs_world := w'\<rparr>"
  have run: "run_script fuel api vm (ep_timeout_vt ctl) checker t = (Ret (), ?t)"
    unfolding assms(4) run_ends [of t, unfolded t(2), OF assms(5,6)] by (simp add: bindS_def returnS_def)
  have "\<forall>(name, v) \<in> set (rs_env t). \<exists>x. reading L name v = Ret x"
    using assms(7) t(3) by (auto simp: um_ok_def)
  then obtain L' read where pop: "pop_globals vm [] (rs_env t) ?t = (Ret (), ?t\<lparr>rs_lua := L', rs_env := read\<rparr>)"
    "list_all2 (\<lambda>(name, v) (m, x). m = name \<and> reading L name v = Ret x) (rs_env t) read"
    using pop_globals_reads [of ?t "[]" "rs_env t"] by auto
  have "map_of read kResponseVariableName = Some x" by (rule map_of_read [OF pop(2) assms(8,9)])
  from context_close_response [OF this assms(10), of c] t(1) run pop(1) show ?thesis
    by (simp add: execute_started [OF assms(1-3)] leavingS_def guard_leave_def destructS_def close_context_def outcome_simps)
qed

lemma execute_terminates_the_process:
  assumes "starts ndebug lc hl ht reh api vm ctl deps s c w checker t" and "context_ok hl canon c" and "sb_language s = LuaLanguage"
    and "ep_timeout_vt ctl = vt" and "ends vm (Steps vm (rs_lua t) w) (Clock vm w + allowance checker) n (Ret LUA_OK) L w'"
    and "n < fuel"
    and "\<forall>name v. map_of (rs_env t) name = Some v \<longrightarrow> (\<exists>x. reading L name v = Ret x) \<or> (\<exists>e. reading L name v = Throw e)"
    and "map_of (rs_env t) name = Some u" and "reading L name u = Throw e"
  shows "fst (lua_execute fuel ndebug lc hl ht reh api vm ctl deps (Some s) (c, w)) = Crash StdTerminate"
proof (rule starts_cases [OF assms(1,2)])
  assume t: "rs_context t = c" "rs_world t = w" "um_ok (rs_env t)"
  let ?t = "t\<lparr>rs_lua := L, rs_world := w'\<rparr>"
  have run: "run_script fuel api vm (ep_timeout_vt ctl) checker t = (Ret (), ?t)"
    unfolding assms(4) run_ends [of t, unfolded t(2), OF assms(5,6)] by (simp add: bindS_def returnS_def)
  have "\<exists>e t'. pop_globals vm [] (rs_env t) ?t = (Throw e, t')"
    by (rule pop_globals_fails [where name = name and v = u and e = e])
      (use assms(7-9) t(3) in \<open>auto simp: um_ok_def dest: map_of_SomeD\<close>)
  with run show ?thesis
    by (auto simp: execute_started [OF assms(1-3)] leavingS_def guard_leave_def destructS_def thenS_def bindS_def)
qed

lemma execute_malformed:
  assumes "starts ndebug lc hl ht reh api vm ctl deps s c w checker t" and "context_ok hl canon c" and "sb_language s = LuaLanguage"
    and "ep_timeout_vt ctl = vt" and "ends vm (Steps vm (rs_lua t) w) (Clock vm w + allowance checker) n (Ret LUA_OK) L w'"
    and "n < fuel" and "\<forall>name v. map_of (rs_env t) name = Some v \<longrightarrow> (\<exists>x. reading L name v = Ret x)"
    and "map_of (rs_env t) kResponseVariableName = Some u" and "reading L kResponseVariableName u = Ret x"
    and "isTable lc x" and "getValue lc x ''status'' = Ret sv" and "asNumber lc sv = None"
  shows "fst (lua_execute fuel ndebug lc hl ht reh api vm ctl deps (Some s) (c, w)) = Crash StdTerminate"
proof (rule starts_cases [OF assms(1,2)])
  assume t: "rs_context t = c" "rs_world t = w" "um_ok (rs_env t)"
  let ?t = "t\<lparr>rs_lua := L, rs_world := w'\<rparr>"
  have run: "run_script fuel api vm (ep_timeout_vt ctl) checker t = (Ret (), ?t)"
    unfolding assms(4) run_ends [of t, unfolded t(2), OF assms(5,6)] by (simp add: bindS_def returnS_def)
  have "\<forall>(name, v) \<in> set (rs_env t). \<exists>x. reading L name v = Ret x"
    using assms(7) t(3) by (auto simp: um_ok_def)
  then obtain L' read where pop: "pop_globals vm [] (rs_env t) ?t = (Ret (), ?t\<lparr>rs_lua := L', rs_env := read\<rparr>)"
    "list_all2 (\<lambda>(name, v) (m, x). m = name \<and> reading L name v = Ret x) (rs_env t) read"
    using pop_globals_reads [of ?t "[]" "rs_env t"] by auto
  have "map_of read kResponseVariableName = Some x" by (rule map_of_read [OF pop(2) assms(8,9)])
  then have "context_close lc hl read c = Crash StdTerminate"
    by (rule context_close_malformed [OF _ assms(10,11)]) (simp add: assms(12))
  with t(1) run pop(1) show ?thesis
    by (simp add: execute_started [OF assms(1-3)] leavingS_def guard_leave_def destructS_def close_context_def outcome_simps bindS_def
        thenS_def)
qed

text \<open>A script that never ends is stopped, if the clock goes on between the calls of the hook.\<close>

lemma endless_expires:
  assumes "\<forall>k. \<exists>L w. steps k = AtHook (f k) L w \<and> RegistryHasPointer vm kTimeoutCheckerVariableName L"
    and "\<forall>k. f k < f (Suc k)"
  shows "\<exists>n L w. expires vm steps stop n L w"
proof -
  have grows: "f 0 + int k \<le> f k" for k
  proof (induction k)
    case (Suc k)
    with assms(2) have "f k < f (Suc k)" by blast
    with Suc show ?case by simp
  qed simp
  define n where "n = (LEAST k. stop < f k)"
  have "stop < f (nat (stop - f 0) + 1)" using grows [of "nat (stop - f 0) + 1"] by (auto split: if_splits)
  then have n: "stop < f n" unfolding n_def by (rule LeastI)
  have "f k \<le> stop" if "k < n" for k using not_less_Least [of k "\<lambda>k. stop < f k"] that by (simp add: n_def not_less)
  with assms(1) have "in_time vm steps stop n" unfolding in_time_def by blast
  moreover obtain L w where "steps n = AtHook (f n) L w" "RegistryHasPointer vm kTimeoutCheckerVariableName L"
    using assms(1) by blast
  ultimately show ?thesis using n unfolding expires_def by blast
qed

text \<open>
  A run whose calls of the hook are at later and later times, at most \<open>gap\<close> apart, ends before it
  is past \<open>stop\<close> or is past it by at most \<open>gap\<close>.
\<close>

lemma paced_run_is_over:
  assumes "paced_steps vm steps t0 gap" and "t0 \<le> stop"
  obtains (ends) n r L w where "ends vm steps stop n r L w"
    | (expires) n now L w where "expires vm steps stop n L w" "steps n = AtHook now L w" "stop < now" "now \<le> stop + gap"
proof -
  define over where "over k \<longleftrightarrow> (\<forall>now L w. steps k = AtHook now L w \<longrightarrow> stop < now)" for k
  have pointer: "RegistryHasPointer vm kTimeoutCheckerVariableName L" if "steps k = AtHook now L w" for k now L w
    using assms(1) that unfolding paced_steps_def by blast
  have "\<exists>k. over k"
  proof (rule ccontr)
    assume "\<not> ?thesis"
    then have at: "\<exists>now L w. steps k = AtHook now L w \<and> now \<le> stop" for k by (auto simp: over_def not_less)
    then obtain f where f: "\<And>k. \<exists>L w. steps k = AtHook (f k) L w \<and> f k \<le> stop" by metis
    with pointer have "\<forall>k. \<exists>L w. steps k = AtHook (f k) L w \<and> RegistryHasPointer vm kTimeoutCheckerVariableName L" by blast
    moreover have "\<forall>k. f k < f (Suc k)" using assms(1) f unfolding paced_steps_def by metis
    ultimately obtain n L w where "expires vm steps stop n L w" by (rule endless_expires [THEN exE]) blast
    with f [of n] show False by (auto simp: expires_def)
  qed
  define n where "n = (LEAST k. over k)"
  have n: "over n" unfolding n_def by (rule LeastI_ex) fact
  have before: "\<exists>now L w. steps k = AtHook now L w \<and> now \<le> stop" if "k < n" for k
    using not_less_Least [of k over] that by (auto simp: n_def over_def not_less)
  then have timely: "in_time vm steps stop n" unfolding in_time_def using pointer by blast
  show thesis
  proof (cases "steps n")
    case (Ended r L w)
    with timely show ?thesis by (intro ends) (simp add: ends_def)
  next
    case (AtHook now L w)
    with n have late: "stop < now" by (simp add: over_def)
    have "now \<le> stop + gap"
    proof (cases n)
      case 0
      with AtHook assms show ?thesis by (fastforce simp: paced_steps_def)
    next
      case (Suc k)
      with before [of k] obtain now' L' w' where "steps k = AtHook now' L' w'" "now' \<le> stop" by auto
      with AtHook Suc assms(1) show ?thesis by (fastforce simp: paced_steps_def)
    qed
    with AtHook late timely pointer show ?thesis by (intro expires) (auto simp: expires_def)
  qed
qed

end

end
