(* ===== verification/Lua_Engine.thy ===== *)
theory Lua_Engine
  imports Lua_Executor
begin

text \<open>
  What the Lua engine guarantees: its executor over any interpreter that keeps the laws of
  \<open>Lua_Executor\<close>, its contract as a script engine, and a small interpreter on which the laws
  hold and examples are evaluated.
\<close>

section \<open>The contract of the engine\<close>

text \<open>The runs for which the executor returns or throws: every way a script can behave well.\<close>

definition behaves_well ::
  "('v, 'L, 'm, 'snip, 'w) lua_vm \<Rightarrow> ('d, 'v) luacpp \<Rightarrow> ('v \<Rightarrow> string \<Rightarrow> 'v option) \<Rightarrow> ('L \<Rightarrow> string \<Rightarrow> 'v \<Rightarrow> 'v outcome)
    \<Rightarrow> ('L \<Rightarrow> 'e lua_view) \<Rightarrow> 'v lua_env \<Rightarrow> (nat \<Rightarrow> ('L, 'w) script_step) \<Rightarrow> time_point \<Rightarrow> nat \<Rightarrow> bool" where
  "behaves_well vm lc entry reading view env steps stop n \<longleftrightarrow>
     (\<exists>L w. expires vm steps stop n L w)
   \<or> (\<exists>e L w. ends vm steps stop n (Throw e) L w)
   \<or> (\<exists>status m L w. status \<noteq> LUA_OK \<and> ends vm steps stop n (Ret status) L w \<and> at 1 (stk (view L)) = Some (LStr m))
   \<or> (\<exists>L w u x status items body. ends vm steps stop n (Ret LUA_OK) L w
       \<and> (\<forall>name v. map_of env name = Some v \<longrightarrow> (\<exists>y. reading L name v = Ret y))
       \<and> map_of env kResponseVariableName = Some u \<and> reading L kResponseVariableName u = Ret x
       \<and> response_of lc entry x status items body)"

definition lua_fits ::
  "nat \<Rightarrow> bool \<Rightarrow> ('d, 'v) luacpp \<Rightarrow> ('v \<Rightarrow> string \<Rightarrow> 'v option) \<Rightarrow> 'h header_lib \<Rightarrow> (string \<Rightarrow> string) \<Rightarrow> http_lib
    \<Rightarrow> (string, 'v) rehash \<Rightarrow> ('e, 'L) lua_api \<Rightarrow> ('L \<Rightarrow> 'e lua_view) \<Rightarrow> ('v, 'L, 'm, 'snip, 'w) lua_vm
    \<Rightarrow> ('L \<Rightarrow> string \<Rightarrow> 'v \<Rightarrow> 'v outcome) \<Rightarrow> ('m, 't) execution_control_params \<Rightarrow> ('t \<Rightarrow> int) \<Rightarrow> ('h, 'w) extra_params
    \<Rightarrow> 'snip lua_script \<Rightarrow> 'h execution_context \<Rightarrow> 'w \<Rightarrow> bool" where
  "lua_fits fuel ndebug lc entry hl canon ht reh api view vm reading ctl allowance deps s c w \<longleftrightarrow>
     context_ok hl canon c
   \<and> (\<exists>checker t n. starts ndebug lc hl ht reh api vm ctl deps s c w checker t \<and> n < fuel
       \<and> behaves_well vm lc entry reading view (rs_env t) (Steps vm (rs_lua t) w) (Clock vm w + allowance checker) n)"

locale lua_engine_env =
  lua_executor_env js num_ok hl canon ht qreh lc "entry" named reh vm gval reading api view num_text int_num vt allowance
  + lua_front_end compile_string
  for js :: "'d json_lib" and num_ok and hl :: "'h header_lib" and canon ht qreh
    and lc :: "('e, 'v) luacpp" and "entry" named reh
    and vm :: "('v, 'L, 'm, 'snip, 'w) lua_vm" and gval reading
    and api :: "('f, 'L) lua_api" and view num_text int_num
    and vt :: "'t timeout_checker_base" and allowance
    and compile_string :: "string \<Rightarrow> string \<Rightarrow> 'snip option outcome" +
  fixes ctl :: "('m, 't) execution_control_params" and deps :: "('h, 'w) extra_params"
    and fuel :: nat and ndebug :: bool and junk :: junk and none :: 'snip
  assumes checkers: "ep_timeout_vt ctl = vt"
begin

abbreviation engine :: "(('snip, unit) lua_script_ext, 'h, 'w) script_engine_base" where
  "engine \<equiv> lua_script_engine fuel ndebug lc hl ht reh api vm compile_string junk none ctl deps"

abbreviation fits :: "'snip lua_script \<Rightarrow> 'h execution_context \<Rightarrow> 'w \<Rightarrow> bool" where
  "fits \<equiv> lua_fits fuel ndebug lc entry hl canon ht reh api view vm reading ctl allowance deps"

lemma lua_execute_contract:
  assumes "sb_language s = LuaLanguage" and "fits s c w"
  shows "(\<exists>r w'. lua_execute fuel ndebug lc hl ht reh api vm ctl deps (Some s) (c, w) = (Ret (), (set_response r c, w'))
      \<and> msg_headers r \<noteq> None)
    \<or> (\<exists>e r w'. lua_execute fuel ndebug lc hl ht reh api vm ctl deps (Some s) (c, w) = (Throw e, (set_response r c, w'))
      \<and> same_response hl canon r (ec_response c))"
proof -
  have ok: "context_ok hl canon c" using assms(2) by (simp add: lua_fits_def)
  obtain checker t n where start: "starts ndebug lc hl ht reh api vm ctl deps s c w checker t" and n: "n < fuel"
    and "behaves_well vm lc entry reading view (rs_env t) (Steps vm (rs_lua t) w) (Clock vm w + allowance checker) n"
    using assms(2) by (auto simp: lua_fits_def)
  then consider (expires) L w' where "expires vm (Steps vm (rs_lua t) w) (Clock vm w + allowance checker) n L w'"
    | (throws) e L w' where "ends vm (Steps vm (rs_lua t) w) (Clock vm w + allowance checker) n (Throw e) L w'"
    | (errs) status m L w' where "status \<noteq> LUA_OK"
      "ends vm (Steps vm (rs_lua t) w) (Clock vm w + allowance checker) n (Ret status) L w'" "at 1 (stk (view L)) = Some (LStr m)"
    | (returns) L w' u x status items body
      where "ends vm (Steps vm (rs_lua t) w) (Clock vm w + allowance checker) n (Ret LUA_OK) L w'"
        "\<forall>name v. map_of (rs_env t) name = Some v \<longrightarrow> (\<exists>y. reading L name v = Ret y)"
        "map_of (rs_env t) kResponseVariableName = Some u" "reading L kResponseVariableName u = Ret x"
        "response_of lc entry x status items body"
    unfolding behaves_well_def by blast
  then show ?thesis
  proof cases
    case expires
    from execute_times_out [OF start ok assms(1) checkers this n] show ?thesis by blast
  next
    case throws
    from execute_throws [OF start ok assms(1) checkers this n] show ?thesis by blast
  next
    case errs
    from execute_error [OF start ok assms(1) checkers errs(2) n errs(1,3)] show ?thesis by blast
  next
    case returns
    from execute_returns [OF start ok assms(1) checkers returns(1) n returns(2-)] show ?thesis by auto
  qed
qed

end

sublocale lua_engine_env \<subseteq> engine: script_engine_contract engine LuaLanguage fits
proof (rule script_engine_contract.intro)
  show "compiler_contract (CreateCompiler engine) LuaLanguage"
    using compiler_contract_axioms [of junk none] by (simp add: lua_script_engine_def)
  show "executor_contract (CreateExecutor engine) LuaLanguage fits"
  proof
    fix s :: "'snip lua_script" and c :: "'h execution_context" and w
    assume "sb_language s = LuaLanguage" "fits s c w"
    then show "case ExecuteScript (CreateExecutor engine) (Some s) (c, w) of
        (Ret _, (c', w')) \<Rightarrow> msg_headers (ec_response c') \<noteq> None
      | (Throw e, (c', w')) \<Rightarrow> True
      | _ \<Rightarrow> False"
      using lua_execute_contract [of s c w]
      by (auto simp: lua_script_engine_def lua_executor_def set_response_def)
  qed
qed

section \<open>A small interpreter\<close>

text \<open>The stack machine as a part of a larger state.\<close>

definition liftA :: "('s \<Rightarrow> 'v) \<Rightarrow> ('v \<Rightarrow> 's \<Rightarrow> 's) \<Rightarrow> ('v, 'a) action \<Rightarrow> ('s, 'a) action" where
  "liftA get put m s = (case m (get s) of (r, v) \<Rightarrow> (r, put v s))"

definition lift_api :: "('s \<Rightarrow> 'v) \<Rightarrow> ('v \<Rightarrow> 's \<Rightarrow> 's) \<Rightarrow> ('d, 'v) lua_api \<Rightarrow> ('d, 's) lua_api" where
  "lift_api get put a =
     \<lparr>lua_gettop = lua_gettop a \<circ> get, lua_settop = liftA get put \<circ> lua_settop a, lua_pop = liftA get put \<circ> lua_pop a,
      lua_type_at = (\<lambda>i. lua_type_at a i \<circ> get), lua_typename = lua_typename a, lua_isstring = (\<lambda>i. lua_isstring a i \<circ> get),
      lua_tostring = liftA get put \<circ> lua_tostring a, lua_tonumber = (\<lambda>i. lua_tonumber a i \<circ> get),
      lua_toboolean = (\<lambda>i. lua_toboolean a i \<circ> get), lua_pushnil = liftA get put (lua_pushnil a),
      lua_pushstring = liftA get put \<circ> lua_pushstring a, lua_pushnumber = liftA get put \<circ> lua_pushnumber a,
      lua_pushboolean = liftA get put \<circ> lua_pushboolean a, lua_newtable = liftA get put (lua_newtable a),
      lua_next = liftA get put \<circ> lua_next a, lua_gettable = liftA get put \<circ> lua_gettable a,
      lua_settable = liftA get put \<circ> lua_settable a, lua_pushinteger = liftA get put \<circ> lua_pushinteger a,
      lua_setfield = (\<lambda>i. liftA get put \<circ> lua_setfield a i)\<rparr>"

lemma behaves_liftA: "(\<And>v s. get (put v s) = v) \<Longrightarrow> behaves get (liftA get put m s) (m (get s))"
  by (auto simp: behaves_def liftA_def split: prod.split)

lemma lift_machine_laws:
  assumes get: "\<And>v s. get (put v s) = v"
  shows "lua_laws (lift_api get put (lua_machine num_text int_num)) get num_text int_num"
proof
  fix i L v a
  show "m_settable i (get L) = (Ret (), v) \<Longrightarrow> table_at i (get L) = Some a \<Longrightarrow>
      \<exists>L' t. lua_settable (lift_api get put (lua_machine num_text int_num)) i L = (Ret (), L')
        \<and> mset t = mset (tabs v ! a) \<and> get L' = v\<lparr>tabs := (tabs v)[a := t]\<rparr>"
    by (auto simp: lift_api_def liftA_def get intro!: exI [of _ "tabs v ! a"])
next
  fix i name L v a
  show "m_setfield i name (get L) = (Ret (), v) \<Longrightarrow> table_at i (get L) = Some a \<Longrightarrow> no_nul name \<Longrightarrow>
      \<exists>L' t. lua_setfield (lift_api get put (lua_machine num_text int_num)) i name L = (Ret (), L')
        \<and> mset t = mset (tabs v ! a) \<and> get L' = v\<lparr>tabs := (tabs v)[a := t]\<rparr>"
    by (auto simp: lift_api_def liftA_def get intro!: exI [of _ "tabs v ! a"])
qed (simp_all add: lift_api_def behaves_liftA get m_tonumber_def)

text \<open>
  The state of the interpreter has the globals beside the stack. The text of a script says
  what it does: \<open>loop\<close> never ends, \<open>fail\<close> raises an error with a message and \<open>assert\<close> one
  without, \<open>nil\<close> drops the response table, \<open>hog\<close> asks for 4096 bytes and after a call of the hook
  for a tebibyte, and any other text becomes the body of the response. The state keeps the
  allocator it was made with, its user data, and the requests it has made.
\<close>

record ref_lua =
  rl_view :: "int lua_view"
  rl_globals :: "string \<Rightarrow> ref_value"
  rl_pointer :: "string list"
  rl_code :: string
  rl_memory :: "memory_limit_checker allocator \<times> memory_limit_checker \<times> alloc_request list"

definition ref_api :: "(int, ref_lua) lua_api" where
  "ref_api = lift_api rl_view (\<lambda>v L. L\<lparr>rl_view := v\<rparr>) (lua_machine decimal_int (\<lambda>i. i))"

definition ref_reading :: "ref_lua \<Rightarrow> string \<Rightarrow> ref_value \<Rightarrow> ref_value outcome" where
  "ref_reading L name v =
     (if isTable ref_luacpp v \<and> \<not> isTable ref_luacpp (rl_globals L name)
      then Throw (StdException ''The value is not a table'') else Ret (rl_globals L name))"

definition ref_error :: "int lval \<Rightarrow> ref_lua \<Rightarrow> ref_lua" where
  "ref_error x L = L\<lparr>rl_view := \<lparr>stk = [x], tabs = [[]], slots = 40\<rparr>\<rparr>"

text \<open>Ask for a new block; the address is one that was never used.\<close>

definition ref_request :: "size_t \<Rightarrow> ref_lua \<Rightarrow> ref_lua" where
  "ref_request n L =
     (case rl_memory L of (alloc, checker, rs) \<Rightarrow>
        let r = \<lparr>rq_ptr = None, rq_osize = 0, rq_nsize = n, rq_answer = Some (Suc (length rs))\<rparr>
        in if run_ok alloc (rs @ [r]) (checker, Map.empty) then L\<lparr>rl_memory := (alloc, checker, rs @ [r])\<rparr> else L)"

definition ref_refused :: "ref_lua \<Rightarrow> bool" where
  "ref_refused L = (case rl_memory L of (alloc, checker, rs) \<Rightarrow> run_refused alloc rs (checker, Map.empty))"

definition ref_hog :: "('w \<Rightarrow> int) \<Rightarrow> ref_lua \<Rightarrow> 'w \<Rightarrow> nat \<Rightarrow> (ref_lua, 'w) script_step" where
  "ref_hog clock L w k =
     (let L1 = ref_request 4096 L; L2 = ref_request 1099511627776 L1
      in if k = 0 then AtHook (clock w) L1 w
         else if ref_refused L2 then Ended (Ret LUA_ERRMEM) (ref_error (LStr ''not enough memory'') L2) w
         else Ended (Ret LUA_OK) L2 w)"

definition ref_steps :: "('w \<Rightarrow> int) \<Rightarrow> ref_lua \<Rightarrow> 'w \<Rightarrow> nat \<Rightarrow> (ref_lua, 'w) script_step" where
  "ref_steps clock L w k =
     (if rl_code L = ''hog'' then ref_hog clock L w k
      else if rl_code L = ''loop'' then AtHook (clock w + 400000 * (int k + 1)) L w
      else if rl_code L = ''fail'' then Ended (Ret LUA_ERRRUN) (ref_error (LStr ''boom'') L) w
      else if rl_code L = ''assert'' then Ended (Ret LUA_ERRRUN) (ref_error (LTab 0) L) w
      else if rl_code L = ''nil'' then Ended (Ret LUA_OK) (L\<lparr>rl_globals := (rl_globals L)(kResponseVariableName := RNil)\<rparr>) w
      else Ended (Ret LUA_OK) (L\<lparr>rl_globals := (rl_globals L)(kResponseVariableName :=
             ref_set ''body'' (RString (rl_code L)) (rl_globals L kResponseVariableName))\<rparr>) w)"

definition ref_vm :: "('w \<Rightarrow> int) \<Rightarrow> (ref_value, ref_lua, memory_limit_checker, string, 'w) lua_vm" where
  "ref_vm clock =
     \<lparr>NewState = (\<lambda>alloc checker. Ret \<lparr>rl_view = \<lparr>stk = [], tabs = [], slots = 40\<rparr>, rl_globals = (\<lambda>_. RNil), rl_pointer = [],
        rl_code = [], rl_memory = (alloc, checker, [])\<rparr>),
      luaL_openlibs = modifyS (\<lambda>L. L\<lparr>rl_globals := (rl_globals L)(''os'' := RString ''lib'', ''require'' := RString ''lib'')\<rparr>),
      lua_setglobal = (\<lambda>name. modifyS (\<lambda>L. L\<lparr>rl_globals := (rl_globals L)(name := RString ''1''), rl_view := (rl_view L)\<lparr>stk := []\<rparr>\<rparr>)),
      LuaCppVersion = ''1'',
      UploadCode = (\<lambda>code. modifyS (\<lambda>L. L\<lparr>rl_code := code\<rparr>)),
      RegistrySetPointer = (\<lambda>name. modifyS (\<lambda>L. L\<lparr>rl_pointer := name # rl_pointer L\<rparr>)),
      RegistryHasPointer = (\<lambda>name L. name \<in> set (rl_pointer L)),
      lua_sethook = (\<lambda>_. returnS ()),
      PushGlobal = (\<lambda>v name. modifyS (\<lambda>L. L\<lparr>rl_globals := (rl_globals L)(name := v)\<rparr>)),
      PopGlobal = (\<lambda>v name L. (ref_reading L name v, L)),
      Steps = ref_steps clock,
      Clock = clock\<rparr>"

definition ref_control :: "(memory_limit_checker, timeout_checker) execution_control_params" where
  "ref_control =
     \<lparr>ep_memory_factory = memory_limit_checkers_factory, ep_memory_vt = memory_limit_checker_vt,
      ep_timeout_factory = timeout_checkers_factory, ep_timeout_vt = timeout_checker_vt\<rparr>"

definition ref_deps :: "((string \<times> string) list, 'w) extra_params" where
  "ref_deps = \<lparr>ep_http_client = None, ep_storage = None\<rparr>"

interpretation re: lua_engine_env ref_json "\<lambda>_. True" ref_headers lower ref_http "\<lambda>m. m" ref_luacpp ref_entry ref_named "\<lambda>m. m"
  "ref_vm clock" rl_globals ref_reading ref_api rl_view decimal_int "\<lambda>i. i" timeout_checker_vt "\<lambda>c. 1000000 * timeout c"
  ref_compile_string ref_control ref_deps fuel ndebug junk none for clock fuel ndebug junk none
proof (intro lua_engine_env.intro lua_executor_env.intro rx.lua_context_env_axioms tc.timeout_contract_axioms rl.lua_front_end_axioms)
  show "lua_vm_laws (ref_vm clock) rl_globals ref_reading"
    by unfold_locales (auto simp: ref_vm_def modifyS_def returnS_def ref_reading_def fun_eq_iff)
  show "lua_laws ref_api rl_view decimal_int (\<lambda>i. i)"
    unfolding ref_api_def by (rule lift_machine_laws) simp
  show "lua_engine_env_axioms timeout_checker_vt ref_control"
    by (simp add: lua_engine_env_axioms_def ref_control_def)
qed

section \<open>Samples\<close>

definition sample_script :: "string \<Rightarrow> string lua_script" where
  "sample_script code = \<lparr>sb_language = LuaLanguage, sb_project_id = 1, sb_script_id = 7, lua_snippet = code\<rparr>"

lemma ref_push_globals:
  "\<exists>L'. push_globals (ref_vm clock) env L = (Ret (), L') \<and> rl_code L' = rl_code L \<and> rl_memory L' = rl_memory L"
proof (induction env arbitrary: L)
  case (Cons p env)
  obtain name v where "p = (name, v)" by (cases p)
  with Cons.IH [of "L\<lparr>rl_globals := (rl_globals L)(name := v)\<rparr>"] show ?case
    by (auto simp: ref_vm_def outcome_simps)
qed (auto simp: outcome_simps)

text \<open>Every script starts in the small interpreter.\<close>

lemma ref_starts:
  fixes clock :: "'w \<Rightarrow> int" and w :: 'w and deps :: "((string \<times> string) list, 'w) extra_params"
  assumes c: "context_ok ref_headers lower c"
  obtains t L0 where "starts ndebug ref_luacpp ref_headers ref_http (\<lambda>m. m) ref_api (ref_vm clock) ref_control deps
      (sample_script code) c w (new_timeout_checker (eo_timeout (ec_options c))) t"
    "create_lua_state ref_api (ref_vm clock) (lua_allocator (ep_memory_vt ref_control)) (CreateMemoryChecker (ep_memory_factory ref_control) (eo_memory_limit (ec_options c))) = Ret L0"
    "rl_globals L0 ''require'' = RString ''lib''" "rl_code (rs_lua t) = code" "rs_world t = w"
    "rl_memory (rs_lua t) = (lua_allocator memory_limit_checker_vt, new_memory_limit_checker (eo_memory_limit (ec_options c)), [])"
proof -
  let ?L = "\<lparr>rl_view = \<lparr>stk = [], tabs = [], slots = 40\<rparr>,
      rl_globals = (\<lambda>_. RNil)(''os'' := RString ''lib'', ''require'' := RString ''lib'', ''_luacppversion'' := RString ''1''),
      rl_pointer = [], rl_code = [],
      rl_memory = (lua_allocator memory_limit_checker_vt, new_memory_limit_checker (eo_memory_limit (ec_options c)), [])\<rparr>"
  have L0: "create_lua_state ref_api (ref_vm clock) (lua_allocator (ep_memory_vt ref_control))
      (CreateMemoryChecker (ep_memory_factory ref_control) (eo_memory_limit (ec_options c))) = Ret ?L"
    by (simp add: create_lua_state_def ref_vm_def runO_def outcome_simps thenS_def bindS_def ref_api_def lift_api_def liftA_def
        m_push_def fun_upd_twist ref_control_def memory_limit_checkers_factory_def)
  define env where "env = remove_unsafe_objects ndebug ref_luacpp (\<lambda>m. m)
    (modules_env ref_luacpp (\<lambda>m. m) deps 1)"
  let ?L1 = "?L\<lparr>rl_code := code, rl_pointer := [kTimeoutCheckerVariableName]\<rparr>"
  have prep: "prepare ndebug ref_luacpp (\<lambda>m. m) ref_api (ref_vm clock) ref_control deps (sample_script code) c
      = Ret (?L1, env, new_timeout_checker (eo_timeout (ec_options c)))"
    unfolding prepare_def Let_def L0 bindO.simps
    by (simp add: runO_def ref_vm_def outcome_simps sample_script_def attach_checker_def env_def
        ref_control_def timeout_checkers_factory_def)
  have env: "um_ok env" "map_of env = environment ndebug ref_luacpp deps 1"
    unfolding env_def by (simp_all add: environment_map permutes_entries_def)
  have fresh: "kRequestVariableName \<notin> fst ` set env" "kResponseVariableName \<notin> fst ` set env"
    using env(2) by (auto simp: environment_def simp flip: map_of_eq_None_iff)
  obtain env' where env': "context_open ref_luacpp ref_headers ref_http (\<lambda>m. m) c env = Ret env'"
    by (rule rx.context_open_close [OF c env(1) fresh])
  obtain L2 where L2: "push_globals (ref_vm clock) env' ?L1 = (Ret (), L2)" "rl_code L2 = rl_code ?L1" "rl_memory L2 = rl_memory ?L1"
    using ref_push_globals by blast
  let ?t = "\<lparr>rs_lua = L2, rs_env = env', rs_context = c, rs_world = w\<rparr>"
  have "guard_enter ref_luacpp ref_headers ref_http (\<lambda>m. m) (ref_vm clock)
      \<lparr>rs_lua = ?L1, rs_env = env, rs_context = c, rs_world = w\<rparr> = (Ret (), ?t)"
    using env' L2(1)
    by (simp add: guard_enter_def open_context_def bindS_def thenS_def modifyS_def leavingS_def onL_def destructS_def returnS_def)
  then show thesis using prep L0 L2(2,3) by (intro that [of ?t ?L]) (simp_all add: starts_def)
qed

lemma sample_starts:
  fixes clock :: "'w \<Rightarrow> int" and w :: 'w
  obtains t L0 where "starts ndebug ref_luacpp ref_headers ref_http (\<lambda>m. m) ref_api (ref_vm clock) ref_control ref_deps
      (sample_script code) sample_context w (new_timeout_checker 0) t"
    "create_lua_state ref_api (ref_vm clock) (lua_allocator (ep_memory_vt ref_control)) (CreateMemoryChecker (ep_memory_factory ref_control) (eo_memory_limit (ec_options sample_context))) = Ret L0"
    "rl_globals L0 ''require'' = RString ''lib''" "rl_code (rs_lua t) = code" "rs_world t = w"
proof -
  have "eo_timeout (ec_options sample_context) = 0" by (simp add: sample_context_def new_execution_context_def)
  then show thesis using ref_starts [OF sample_context_ok, of ndebug clock ref_deps code w] that by auto
qed

lemmas sample_setting = re.lua_executor_env_axioms

lemma engine_simps:
  "sb_language (sample_script code) = LuaLanguage" "ep_timeout_vt ref_control = timeout_checker_vt"
  "sb_project_id (sample_script code) = 1" "Steps (ref_vm clock) = ref_steps clock" "Clock (ref_vm clock) = clock"
  by (simp_all add: sample_script_def ref_control_def ref_vm_def)

section \<open>What a script runs in\<close>

text \<open>
  C12. A script starts with exactly these changes to the standard library of Lua: the unsafe
  objects are nil, the HTTP client is there if the executor has one, the storage if it has one,
  and it is the storage of the project of the script, and the two tables of the request and of
  the response. Every other global is as \<open>luaL_openlibs\<close> left it, \<open>require\<close> among them.
\<close>

theorem script_environment:
  assumes "lua_executor_env js num_ok hl canon ht qreh lc entry named reh vm gval reading api view num_text int_num vt allowance"
    and "starts ndebug lc hl ht reh api vm ctl deps s c w checker t" and "context_ok hl canon c"
    and "create_lua_state api vm (lua_allocator (ep_memory_vt ctl)) (CreateMemoryChecker (ep_memory_factory ctl) (eo_memory_limit (ec_options c))) = Ret L0"
  shows "\<exists>request response. isTable lc request \<and> isTable lc response \<and>
    gval (rs_lua t) = (\<lambda>name.
      if name = kRequestVariableName then request
      else if name = kResponseVariableName then response
      else if name = kHttpClientVariableName \<and> ep_http_client deps \<noteq> None then LuaMetaObject lc HttpClientModule
      else if name = kStorageVariableName \<and> ep_storage deps \<noteq> None then LuaMetaObject lc (KvStorageModule (sb_project_id s))
      else if name \<in> set (unsafe_objects ndebug) then LuaTNil lc
      else gval L0 name)"
proof (rule lua_executor_env.starts_cases [OF assms(1-3)])
  fix L1 request response
  assume "create_lua_state api vm (lua_allocator (ep_memory_vt ctl)) (CreateMemoryChecker (ep_memory_factory ctl) (eo_memory_limit (ec_options c))) = Ret L1"
    and env: "map_of (rs_env t) = (environment ndebug lc deps (sb_project_id s))
      (kRequestVariableName \<mapsto> request, kResponseVariableName \<mapsto> response)"
    and g: "gval (rs_lua t) = (\<lambda>name. case map_of (rs_env t) name of Some v \<Rightarrow> v | None \<Rightarrow> gval L1 name)"
    and tables: "isTable lc request" "isTable lc response"
  then have "L1 = L0" using assms(4) by simp
  then show ?thesis
    using tables unfolding g env
    by - (rule exI [of _ request], rule exI [of _ response], auto simp: fun_eq_iff environment_def)
qed

theorem script_environment_witness:
  "\<exists>t. starts True ref_luacpp ref_headers ref_http (\<lambda>m. m) ref_api (ref_vm (\<lambda>w. w :: int)) ref_control ref_deps
      (sample_script ''ok'') sample_context 5 (new_timeout_checker 0) t
    \<and> rl_globals (rs_lua t) ''os'' = RNil \<and> rl_globals (rs_lua t) ''require'' = RString ''lib''"
proof (rule sample_starts [where ndebug = True and code = "''ok''" and clock = "\<lambda>w. w :: int" and w = 5])
  fix t L0
  assume start: "starts True ref_luacpp ref_headers ref_http (\<lambda>m. m) ref_api (ref_vm (\<lambda>w. w :: int)) ref_control ref_deps
      (sample_script ''ok'') sample_context 5 (new_timeout_checker 0) t"
    and L0: "create_lua_state ref_api (ref_vm (\<lambda>w. w :: int)) (lua_allocator (ep_memory_vt ref_control)) (CreateMemoryChecker (ep_memory_factory ref_control)
      (eo_memory_limit (ec_options sample_context))) = Ret L0" and req: "rl_globals L0 ''require'' = RString ''lib''"
  from script_environment [OF sample_setting start sample_context_ok L0] start req show ?thesis
    by (auto simp: unsafe_objects_def ref_luacpp_def ref_deps_def kRequestVariableName_def kResponseVariableName_def)
qed

section \<open>What becomes of a script\<close>

lemma response_of_set_body:
  assumes "response_of ref_luacpp ref_entry u status items body"
  shows "response_of ref_luacpp ref_entry (ref_set ''body'' (RString x) u) status items x"
proof -
  obtain es where u: "u = RTable es" using assms by (cases u) (auto simp: response_of_def ref_luacpp_def)
  have "ref_entry (ref_set ''body'' v t) = (ref_entry t)(''body'' \<mapsto> v)" "isTable ref_luacpp (ref_set ''body'' v t)"
    if "isTable ref_luacpp t" for v t
    using rv.setValue_table [OF that, of "''body''" v] by (simp_all add: ref_luacpp_def)
  with assms show ?thesis by (auto simp: response_of_def) (auto simp: ref_luacpp_def)
qed

lemma ref_readings:
  assumes "starts ndebug ref_luacpp ref_headers ref_http (\<lambda>m. m) ref_api (ref_vm clock) ref_control deps
      (sample_script code) c w checker t" and "context_ok ref_headers lower c"
  obtains u items where "map_of (rs_env t) kResponseVariableName = Some u" "rl_globals (rs_lua t) kResponseVariableName = u"
    "response_of ref_luacpp ref_entry u (resp_status (ec_response c)) items (c_str (msg_body (ec_response c)))"
    "\<And>name v. map_of (rs_env t) name = Some v \<Longrightarrow> rl_globals (rs_lua t) name = v"
  by (rule re.starts_cases [OF assms]) auto

lemmas sample_readings = ref_readings [OF _ sample_context_ok, unfolded sample_context_simps]

text \<open>A text that is no keyword becomes the body of the response.\<close>

lemma ref_script_ends:
  assumes "starts ndebug ref_luacpp ref_headers ref_http (\<lambda>m. m) ref_api (ref_vm clock) ref_control deps
      (sample_script code) c w checker t" and "context_ok ref_headers lower c"
    and "rl_code (rs_lua t) = code" and "code \<notin> {''hog'', ''loop'', ''fail'', ''assert'', ''nil''}"
  obtains u x L items where "map_of (rs_env t) kResponseVariableName = Some u"
    "ends (ref_vm clock) (Steps (ref_vm clock) (rs_lua t) w) stop 0 (Ret LUA_OK) L w"
    "\<forall>name v. map_of (rs_env t) name = Some v \<longrightarrow> (\<exists>x. ref_reading L name v = Ret x)"
    "ref_reading L kResponseVariableName u = Ret x"
    "response_of ref_luacpp ref_entry x (resp_status (ec_response c)) items code"
proof -
  obtain u items where u: "map_of (rs_env t) kResponseVariableName = Some u" "rl_globals (rs_lua t) kResponseVariableName = u"
    "response_of ref_luacpp ref_entry u (resp_status (ec_response c)) items (c_str (msg_body (ec_response c)))"
    and g: "\<And>name v. map_of (rs_env t) name = Some v \<Longrightarrow> rl_globals (rs_lua t) name = v"
    by (rule ref_readings [OF assms(1,2)]) blast
  let ?x = "ref_set ''body'' (RString code) u"
  let ?L = "(rs_lua t)\<lparr>rl_globals := (rl_globals (rs_lua t))(kResponseVariableName := ?x)\<rparr>"
  have x: "response_of ref_luacpp ref_entry ?x (resp_status (ec_response c)) items code"
    by (rule response_of_set_body [OF u(3)])
  show thesis
  proof (rule that [OF u(1) _ _ _ x])
    show "ends (ref_vm clock) (Steps (ref_vm clock) (rs_lua t) w) stop 0 (Ret LUA_OK) ?L w"
      using assms(3,4) by (simp add: ends_def in_time_def engine_simps ref_steps_def u(2))
    show "\<forall>name v. map_of (rs_env t) name = Some v \<longrightarrow> (\<exists>x. ref_reading ?L name v = Ret x)"
      using g x by (auto simp: ref_reading_def response_of_def)
    show "ref_reading ?L kResponseVariableName u = Ret ?x"
      using x by (simp add: ref_reading_def response_of_def)
  qed
qed

text \<open>
  C5. A script that returns in time answers with the response table it leaves: status, headers
  and body of the table become the response of the context, and nothing else of the context
  changes.
\<close>

theorem script_response_is_returned:
  assumes "lua_executor_env js num_ok hl canon ht qreh lc entry named reh vm gval reading api view num_text int_num vt allowance"
    and "starts ndebug lc hl ht reh api vm ctl deps s c w checker t" and "context_ok hl canon c" and "sb_language s = LuaLanguage"
    and "ep_timeout_vt ctl = vt" and "ends vm (Steps vm (rs_lua t) w) (Clock vm w + allowance checker) n (Ret LUA_OK) L w'"
    and "n < fuel" and "\<forall>name v. map_of (rs_env t) name = Some v \<longrightarrow> (\<exists>x. reading L name v = Ret x)"
    and "map_of (rs_env t) kResponseVariableName = Some u" and "reading L kResponseVariableName u = Ret x"
    and "response_of lc entry x status items body"
  shows "lua_execute fuel ndebug lc hl ht reh api vm ctl deps (Some s) (c, w) = (Ret (), (set_response
    \<lparr>msg_headers = Some (fold (\<lambda>(k, x). HmEmplace hl k x) items (HmEmpty hl)), msg_body = body, resp_status = status\<rparr> c, w'))"
  using assms by (rule lua_executor_env.execute_returns)

theorem script_response_is_returned_witness:
  "\<exists>r. lua_execute 1 True ref_luacpp ref_headers ref_http (\<lambda>m. m) ref_api (ref_vm (\<lambda>w. w :: int)) ref_control ref_deps
      (Some (sample_script ''hi'')) (sample_context, 5) = (Ret (), (set_response r sample_context, 5))
    \<and> msg_body r = ''hi'' \<and> resp_status r = 200"
proof (rule sample_starts [where ndebug = True and code = "''hi''" and clock = "\<lambda>w. w :: int" and w = 5])
  fix t L0
  assume start: "starts True ref_luacpp ref_headers ref_http (\<lambda>m. m) ref_api (ref_vm (\<lambda>w. w :: int)) ref_control ref_deps
      (sample_script ''hi'') sample_context 5 (new_timeout_checker 0) t" and t: "rl_code (rs_lua t) = ''hi''"
  obtain u x L items where "map_of (rs_env t) kResponseVariableName = Some u"
    "ends (ref_vm (\<lambda>w. w :: int)) (Steps (ref_vm (\<lambda>w. w)) (rs_lua t) 5)
      (Clock (ref_vm (\<lambda>w. w)) 5 + 1000000 * timeout (new_timeout_checker 0)) 0 (Ret LUA_OK) L 5"
    "\<forall>name v. map_of (rs_env t) name = Some v \<longrightarrow> (\<exists>x. ref_reading L name v = Ret x)"
    "ref_reading L kResponseVariableName u = Ret x" "response_of ref_luacpp ref_entry x 200 items ''hi''"
    by (rule ref_script_ends [where stop = "Clock (ref_vm (\<lambda>w. w :: int)) 5 + 1000000 * timeout (new_timeout_checker 0)",
        OF start sample_context_ok t, unfolded sample_context_simps]) simp_all
  then show ?thesis
    using script_response_is_returned [OF sample_setting start sample_context_ok, of 0 L 5 1 u x 200 items "''hi''"]
    by (auto simp: engine_simps)
qed

text \<open>
  C18. A script that ends in an error of Lua with a message is answered by an exception with
  that message, \<open>OutOfMemoryLimit\<close> when Lua ran out of memory and \<open>ExecutionError\<close>
  otherwise, and the context keeps the response it had.
\<close>

theorem script_error_is_reported:
  assumes "lua_executor_env js num_ok hl canon ht qreh lc entry named reh vm gval reading api view num_text int_num vt allowance"
    and "starts ndebug lc hl ht reh api vm ctl deps s c w checker t" and "context_ok hl canon c" and "sb_language s = LuaLanguage"
    and "ep_timeout_vt ctl = vt" and "ends vm (Steps vm (rs_lua t) w) (Clock vm w + allowance checker) n (Ret status) L w'"
    and "n < fuel" and "status \<noteq> LUA_OK" and "at 1 (stk (view L)) = Some (LStr m)"
  shows "\<exists>r. lua_execute fuel ndebug lc hl ht reh api vm ctl deps (Some s) (c, w)
      = (Throw (if status = LUA_ERRMEM then OutOfMemoryLimit (c_str m) else ExecutionError (c_str m)), (set_response r c, w'))
    \<and> same_response hl canon r (ec_response c)"
  using assms by (rule lua_executor_env.execute_error)

theorem script_error_is_reported_witness:
  "fst (lua_execute 1 True ref_luacpp ref_headers ref_http (\<lambda>m. m) ref_api (ref_vm (\<lambda>w. w :: int)) ref_control ref_deps
      (Some (sample_script ''fail'')) (sample_context, 5)) = Throw (ExecutionError ''boom'')"
proof (rule sample_starts [where ndebug = True and code = "''fail''" and clock = "\<lambda>w. w :: int" and w = 5])
  fix t L0
  assume start: "starts True ref_luacpp ref_headers ref_http (\<lambda>m. m) ref_api (ref_vm (\<lambda>w. w :: int)) ref_control ref_deps
      (sample_script ''fail'') sample_context 5 (new_timeout_checker 0) t" and t: "rl_code (rs_lua t) = ''fail''"
  have "ends (ref_vm (\<lambda>w. w :: int)) (Steps (ref_vm (\<lambda>w. w :: int)) (rs_lua t) 5) (Clock (ref_vm (\<lambda>w. w :: int)) 5 + 1000000 * timeout (new_timeout_checker 0)) 0
      (Ret LUA_ERRRUN) (ref_error (LStr ''boom'') (rs_lua t)) 5"
    by (simp add: ends_def in_time_def engine_simps ref_steps_def t)
  moreover have "at 1 (stk (rl_view (ref_error (LStr ''boom'') (rs_lua t)))) = Some (LStr ''boom'')" "c_str ''boom'' = ''boom''"
    by (simp_all add: ref_error_def at_def position_def c_str_def)
  ultimately show ?thesis
    using script_error_is_reported [OF sample_setting start sample_context_ok, of 0 LUA_ERRRUN
        "ref_error (LStr ''boom'') (rs_lua t)" 5 1 "''boom''"]
    by (auto simp: engine_simps)
qed

text \<open>
  C10. A script that never ends is stopped: if the hook goes on being called at later and later
  times, then from some amount of fuel on \<open>Execute\<close> throws \<open>ExecutionTimeout\<close>, and the
  context keeps the response it had.
\<close>

theorem endless_script_is_stopped:
  assumes "lua_executor_env js num_ok hl canon ht qreh lc entry named reh vm gval reading api view num_text int_num vt allowance"
    and "starts ndebug lc hl ht reh api vm ctl deps s c w checker t" and "context_ok hl canon c" and "sb_language s = LuaLanguage"
    and "ep_timeout_vt ctl = vt"
    and "\<forall>k. \<exists>L u. Steps vm (rs_lua t) w k = AtHook (f k) L u \<and> RegistryHasPointer vm kTimeoutCheckerVariableName L"
    and "\<forall>k. f k < f (Suc k)"
  shows "\<exists>n. \<forall>fuel>n. \<exists>r w'. lua_execute fuel ndebug lc hl ht reh api vm ctl deps (Some s) (c, w)
      = (Throw (ExecutionTimeout ''Execution timeout is expired''), (set_response r c, w'))
    \<and> same_response hl canon r (ec_response c)"
proof -
  obtain n L w' where "expires vm (Steps vm (rs_lua t) w) (Clock vm w + allowance checker) n L w'"
    using lua_executor_env.endless_expires [OF assms(1,6,7)] by blast
  with lua_executor_env.execute_times_out [OF assms(1-5) this] show ?thesis by blast
qed

theorem endless_script_is_stopped_witness:
  "\<exists>n. \<forall>fuel>n. fst (lua_execute fuel True ref_luacpp ref_headers ref_http (\<lambda>m. m) ref_api (ref_vm (\<lambda>w. w :: int)) ref_control ref_deps
      (Some (sample_script ''loop'')) (sample_context, 5)) = Throw (ExecutionTimeout ''Execution timeout is expired'')"
proof (rule sample_starts [where ndebug = True and code = "''loop''" and clock = "\<lambda>w. w :: int" and w = 5])
  fix t L0
  assume start: "starts True ref_luacpp ref_headers ref_http (\<lambda>m. m) ref_api (ref_vm (\<lambda>w. w :: int)) ref_control ref_deps
      (sample_script ''loop'') sample_context 5 (new_timeout_checker 0) t" and t: "rl_code (rs_lua t) = ''loop''"
  have "RegistryHasPointer (ref_vm (\<lambda>w. w :: int)) kTimeoutCheckerVariableName (rs_lua t)"
    by (rule re.starts_cases [OF start sample_context_ok])
  then have "\<forall>k. \<exists>L u. Steps (ref_vm (\<lambda>w. w :: int)) (rs_lua t) 5 k = AtHook (5 + 400000 * (int k + 1)) L u
      \<and> RegistryHasPointer (ref_vm (\<lambda>w. w :: int)) kTimeoutCheckerVariableName L"
    by (simp add: engine_simps ref_steps_def t)
  from endless_script_is_stopped [OF sample_setting start sample_context_ok _ _ this]
  show ?thesis by (auto simp: engine_simps) (metis fst_conv)
qed

text \<open>
  C9. The timeout holds for the running script. If the hook is called at later and later times, at
  most \<open>gap\<close> apart, the script ends by itself while no call of the hook was past the timeout, or
  \<open>Execute\<close> throws \<open>ExecutionTimeout\<close> at the first call that is past it: after the timeout, by at most
  \<open>gap\<close>, and with the response the context had.
\<close>

theorem script_time_is_limited:
  assumes "lua_executor_env js num_ok hl canon ht qreh lc entry named reh vm gval reading api view num_text int_num
      timeout_checker_vt (\<lambda>c. 1000000 * timeout c)"
    and "starts ndebug lc hl ht reh api vm ctl deps s c w checker t" and "context_ok hl canon c" and "sb_language s = LuaLanguage"
    and "ep_timeout_vt ctl = timeout_checker_vt" and "ep_timeout_factory ctl = timeout_checkers_factory"
    and "0 \<le> eo_timeout (ec_options c)" and "paced_steps vm (Steps vm (rs_lua t) w) (Clock vm w) gap"
  shows "\<exists>n. (\<exists>r L u. ends vm (Steps vm (rs_lua t) w) (Clock vm w + 1000000 * eo_timeout (ec_options c)) n r L u)
    \<or> (\<exists>now L u. Steps vm (rs_lua t) w n = AtHook now L u
        \<and> Clock vm w + 1000000 * eo_timeout (ec_options c) < now \<and> now \<le> Clock vm w + 1000000 * eo_timeout (ec_options c) + gap
        \<and> (\<forall>fuel>n. \<exists>r. lua_execute fuel ndebug lc hl ht reh api vm ctl deps (Some s) (c, w)
              = (Throw (ExecutionTimeout ''Execution timeout is expired''), (set_response r c, u))
            \<and> same_response hl canon r (ec_response c)))"
proof -
  have "checker = CreateTimeoutChecker (ep_timeout_factory ctl) (eo_timeout (ec_options c))"
    by (rule lua_executor_env.starts_cases [OF assms(1-3)])
  then have timeout: "timeout checker = eo_timeout (ec_options c)"
    by (simp add: assms(6) timeout_checkers_factory_def new_timeout_checker_def)
  let ?stop = "Clock vm w + 1000000 * eo_timeout (ec_options c)"
  from assms(7) have "Clock vm w \<le> ?stop" by simp
  with assms(8) show ?thesis
  proof (cases rule: lua_executor_env.paced_run_is_over [OF assms(1), where stop = ?stop, consumes 2, case_names ends expires])
    case (ends n r L u)
    then show ?thesis by blast
  next
    case (expires n now L u)
    with lua_executor_env.execute_times_out [OF assms(1-5), of n L u] show ?thesis unfolding timeout by blast
  qed
qed

lemma ref_loop_paced:
  assumes "rl_code L = ''loop''" and "RegistryHasPointer (ref_vm clock) kTimeoutCheckerVariableName L"
  shows "paced_steps (ref_vm clock) (ref_steps clock L w) (clock w) 400000"
  using assms by (auto simp: paced_steps_def ref_steps_def)

theorem script_time_is_limited_witness:
  "\<exists>now :: int. 5 < now \<and> now \<le> 5 + 400000 \<and> (\<exists>n. \<forall>fuel>n. fst (lua_execute fuel True ref_luacpp ref_headers ref_http (\<lambda>m. m) ref_api
      (ref_vm (\<lambda>w. w :: int)) ref_control ref_deps (Some (sample_script ''loop'')) (sample_context, 5))
    = Throw (ExecutionTimeout ''Execution timeout is expired''))"
proof (rule sample_starts [where ndebug = True and code = "''loop''" and clock = "\<lambda>w. w :: int" and w = 5])
  fix t L0
  assume start: "starts True ref_luacpp ref_headers ref_http (\<lambda>m. m) ref_api (ref_vm (\<lambda>w. w :: int)) ref_control ref_deps
      (sample_script ''loop'') sample_context 5 (new_timeout_checker 0) t" and t: "rl_code (rs_lua t) = ''loop''"
  have pointer: "RegistryHasPointer (ref_vm (\<lambda>w. w :: int)) kTimeoutCheckerVariableName (rs_lua t)"
    by (rule re.starts_cases [OF start sample_context_ok])
  have timeout: "eo_timeout (ec_options sample_context) = 0" by (simp add: sample_context_def new_execution_context_def)
  have never: "\<not> ends (ref_vm (\<lambda>w. w :: int)) (ref_steps (\<lambda>w. w :: int) (rs_lua t) 5) stop n r L u" for stop n r L u
    using t by (simp add: ends_def ref_steps_def)
  have factory: "ep_timeout_factory ref_control = timeout_checkers_factory" by (simp add: ref_control_def)
  obtain n L u and now :: int where "5 < now" "now \<le> 5 + 400000" and
    run: "\<forall>fuel>n. \<exists>r. lua_execute fuel True ref_luacpp ref_headers ref_http (\<lambda>m. m) ref_api
      (ref_vm (\<lambda>w. w :: int)) ref_control ref_deps (Some (sample_script ''loop'')) (sample_context, 5)
    = (Throw (ExecutionTimeout ''Execution timeout is expired''), (set_response r sample_context, u))
    \<and> same_response ref_headers lower r (ec_response sample_context)"
    using script_time_is_limited [OF sample_setting start sample_context_ok _ _ factory, of 400000]
      ref_loop_paced [OF t pointer, of 5] never by (auto simp: engine_simps timeout)
  moreover have "\<forall>fuel>n. fst (lua_execute fuel True ref_luacpp ref_headers ref_http (\<lambda>m. m) ref_api
      (ref_vm (\<lambda>w. w :: int)) ref_control ref_deps (Some (sample_script ''loop'')) (sample_context, 5))
    = Throw (ExecutionTimeout ''Execution timeout is expired'')"
    using run by (metis fst_conv)
  ultimately show ?thesis by blast
qed

text \<open>
  C25. The scripts for which \<open>Execute\<close> neither returns nor throws, as its contract wants. When a
  global cannot be read back as the table it was, or when the status of the response is not a
  number, a destructor of the guard throws, and the whole process ends by \<open>std::terminate\<close>. When a
  script raises an error whose value is neither a string nor a number, \<open>lua_tostring\<close> returns a
  null pointer and the exception is made from it: this is undefined behaviour, not necessarily the
  end of the process.
\<close>

theorem scripts_outside_the_contract:
  assumes "lua_executor_env js num_ok hl canon ht qreh lc entry named reh vm gval reading api view num_text int_num vt allowance"
    and "starts ndebug lc hl ht reh api vm ctl deps s c w checker t" and "context_ok hl canon c" and "sb_language s = LuaLanguage"
    and "ep_timeout_vt ctl = vt" and "ends vm (Steps vm (rs_lua t) w) (Clock vm w + allowance checker) n (Ret status) L w'"
    and "n < fuel"
    and "\<forall>name v. map_of (rs_env t) name = Some v \<longrightarrow> (\<exists>x. reading L name v = Ret x) \<or> (\<exists>e. reading L name v = Throw e)"
  shows "(status = LUA_OK \<and> (\<exists>name u e. map_of (rs_env t) name = Some u \<and> reading L name u = Throw e)
      \<longrightarrow> fst (lua_execute fuel ndebug lc hl ht reh api vm ctl deps (Some s) (c, w)) = Crash StdTerminate)
    \<and> (status = LUA_OK \<and> (\<exists>u x sv. map_of (rs_env t) kResponseVariableName = Some u \<and> reading L kResponseVariableName u = Ret x
        \<and> isTable lc x \<and> getValue lc x ''status'' = Ret sv \<and> asNumber lc sv = None)
      \<longrightarrow> fst (lua_execute fuel ndebug lc hl ht reh api vm ctl deps (Some s) (c, w)) = Crash StdTerminate)
    \<and> (status \<noteq> LUA_OK \<and> (\<exists>x. at 1 (stk (view L)) = Some x \<and> value_type x \<notin> {LUA_TSTRING, LUA_TNUMBER})
      \<longrightarrow> fst (lua_execute fuel ndebug lc hl ht reh api vm ctl deps (Some s) (c, w)) = Crash NullCString)"
proof (intro conjI impI)
  assume "status = LUA_OK \<and> (\<exists>name u e. map_of (rs_env t) name = Some u \<and> reading L name u = Throw e)"
  then show "fst (lua_execute fuel ndebug lc hl ht reh api vm ctl deps (Some s) (c, w)) = Crash StdTerminate"
    using lua_executor_env.execute_terminates_the_process [OF assms(1-5) _ assms(7,8)] assms(6) by blast
next
  assume "status = LUA_OK \<and> (\<exists>u x sv. map_of (rs_env t) kResponseVariableName = Some u \<and> reading L kResponseVariableName u = Ret x
        \<and> isTable lc x \<and> getValue lc x ''status'' = Ret sv \<and> asNumber lc sv = None)"
  then show "fst (lua_execute fuel ndebug lc hl ht reh api vm ctl deps (Some s) (c, w)) = Crash StdTerminate"
    using lua_executor_env.execute_terminates_the_process [OF assms(1-5) _ assms(7,8)]
      lua_executor_env.execute_malformed [OF assms(1-5) _ assms(7)] assms(6,8) by metis
next
  assume "status \<noteq> LUA_OK \<and> (\<exists>x. at 1 (stk (view L)) = Some x \<and> value_type x \<notin> {LUA_TSTRING, LUA_TNUMBER})"
  then show "fst (lua_execute fuel ndebug lc hl ht reh api vm ctl deps (Some s) (c, w)) = Crash NullCString"
    using lua_executor_env.execute_without_message [OF assms(1-7)] by blast
qed

theorem scripts_outside_the_contract_witness:
  "fst (lua_execute 1 True ref_luacpp ref_headers ref_http (\<lambda>m. m) ref_api (ref_vm (\<lambda>w. w :: int)) ref_control ref_deps
      (Some (sample_script ''nil'')) (sample_context, 5)) = Crash StdTerminate
   \<and> fst (lua_execute 1 True ref_luacpp ref_headers ref_http (\<lambda>m. m) ref_api (ref_vm (\<lambda>w. w :: int)) ref_control ref_deps
      (Some (sample_script ''assert'')) (sample_context, 5)) = Crash NullCString"
proof (rule sample_starts [where ndebug = True and code = "''nil''" and clock = "\<lambda>w. w :: int" and w = 5];
    rule sample_starts [where ndebug = True and code = "''assert''" and clock = "\<lambda>w. w :: int" and w = 5])
  let ?vm = "ref_vm (\<lambda>w. w :: int)"
  have readings: "\<exists>x. ref_reading L name v = Ret x \<or> (\<exists>e. ref_reading L name v = Throw e)" for L name v
    by (simp add: ref_reading_def)
  fix t L0 v K0
  assume start: "starts True ref_luacpp ref_headers ref_http (\<lambda>m. m) ref_api ?vm ref_control ref_deps
      (sample_script ''nil'') sample_context 5 (new_timeout_checker 0) t" and t: "rl_code (rs_lua t) = ''nil''"
    and start': "starts True ref_luacpp ref_headers ref_http (\<lambda>m. m) ref_api ?vm ref_control ref_deps
      (sample_script ''assert'') sample_context 5 (new_timeout_checker 0) v" and v: "rl_code (rs_lua v) = ''assert''"
  obtain u items where u: "map_of (rs_env t) kResponseVariableName = Some u"
    "response_of ref_luacpp ref_entry u 200 items (c_str [])"
    by (rule sample_readings [OF start]) blast
  let ?L = "(rs_lua t)\<lparr>rl_globals := (rl_globals (rs_lua t))(kResponseVariableName := RNil)\<rparr>"
  let ?K = "ref_error (LTab 0) (rs_lua v)"
  have "ends ?vm (Steps ?vm (rs_lua t) 5) (Clock ?vm 5 + 1000000 * timeout (new_timeout_checker 0)) 0 (Ret LUA_OK) ?L 5"
    "ends ?vm (Steps ?vm (rs_lua v) 5) (Clock ?vm 5 + 1000000 * timeout (new_timeout_checker 0)) 0 (Ret LUA_ERRRUN) ?K 5"
    by (simp_all add: ends_def in_time_def engine_simps ref_steps_def t v)
  moreover have "\<exists>e. ref_reading ?L kResponseVariableName u = Throw e"
    using u(2) by (simp add: ref_reading_def response_of_def) (simp add: ref_luacpp_def)
  moreover have "at 1 (stk (rl_view ?K)) = Some (LTab 0)" by (simp add: ref_error_def at_def position_def)
  ultimately show ?thesis
    using scripts_outside_the_contract [OF sample_setting start sample_context_ok, of 0 LUA_OK ?L 5 1] u(1) readings
      scripts_outside_the_contract [OF sample_setting start' sample_context_ok, of 0 LUA_ERRRUN ?K 5 1]
    by (auto simp: engine_simps)
qed

end
