(* ===== verification/Lua_Memory.thy ===== *)
theory Lua_Memory
  imports Lua_Engine
begin

text \<open>
  The memory of a script: the interpreter takes its memory from the allocator that \<open>CreateLuaState\<close>
  gives it, so the guarantee of the allocator (\<open>Memory_Limit\<close>) is one of the running script.
\<close>

section \<open>An interpreter and its allocator\<close>

fun step_state :: "('L, 'w) script_step \<Rightarrow> 'L" where
  "step_state (AtHook now L w) = L"
| "step_state (Ended r L w) = L"

text \<open>
  \<open>memory L\<close> is the allocator a state was made with, the user data it was made with, and the
  requests it has sent to that allocator since. They are in order if Lua passed the original
  size of every block, and the C heap never handed out a live one.
\<close>

type_synonym 'm memory_history = "'m allocator \<times> 'm \<times> alloc_request list"

definition memory_in_order :: "'m memory_history \<Rightarrow> 'm allocator \<Rightarrow> 'm \<Rightarrow> bool" where
  "memory_in_order history alloc ud \<longleftrightarrow>
     (\<exists>rs. history = (alloc, ud, rs) \<and> run_ok alloc rs (ud, Map.empty))"

definition memory_refused :: "'m memory_history \<Rightarrow> bool" where
  "memory_refused history = (case history of (alloc, ud, rs) \<Rightarrow> run_refused alloc rs (ud, Map.empty))"

text \<open>
  What the manual of Lua says of allocators: a state uses the one it was made with and no other,
  as described above, whatever it is asked to do, and \<open>LUA_ERRMEM\<close> is the status of a run in
  which a request was refused.
\<close>

locale lua_memory_laws =
  fixes vm :: "('v, 'L, 'm, 'snip, 'w) lua_vm" and api :: "('e, 'L) lua_api" and memory :: "'L \<Rightarrow> 'm memory_history"
  assumes new_state: "NewState vm alloc ud = Ret L \<Longrightarrow> memory_in_order (memory L) alloc ud"
    and openlibs: "memory_in_order (memory L) alloc ud \<Longrightarrow> memory_in_order (memory (snd (luaL_openlibs vm L))) alloc ud"
    and pushstring_memory:
      "memory_in_order (memory L) alloc ud \<Longrightarrow> memory_in_order (memory (snd (lua_pushstring api s L))) alloc ud"
    and setglobal: "memory_in_order (memory L) alloc ud \<Longrightarrow> memory_in_order (memory (snd (lua_setglobal vm name L))) alloc ud"
    and upload_memory: "memory_in_order (memory L) alloc ud \<Longrightarrow> memory_in_order (memory (snd (UploadCode vm code L))) alloc ud"
    and set_pointer_memory:
      "memory_in_order (memory L) alloc ud \<Longrightarrow> memory_in_order (memory (snd (RegistrySetPointer vm name L))) alloc ud"
    and sethook_memory: "memory_in_order (memory L) alloc ud \<Longrightarrow> memory_in_order (memory (snd (lua_sethook vm n L))) alloc ud"
    and push_global_memory:
      "memory_in_order (memory L) alloc ud \<Longrightarrow> memory_in_order (memory (snd (PushGlobal vm v name L))) alloc ud"
    and running: "memory_in_order (memory L) alloc ud \<Longrightarrow> memory_in_order (memory (step_state (Steps vm L w k))) alloc ud"
    and out_of_memory: "Steps vm L w k = Ended (Ret LUA_ERRMEM) L' w' \<Longrightarrow> memory_refused (memory L')"
begin

lemma runO_memory:
  assumes "runO m L = Ret L'" and "memory_in_order (memory L) alloc ud"
    and "\<And>L. memory_in_order (memory L) alloc ud \<Longrightarrow> memory_in_order (memory (snd (m L))) alloc ud"
  shows "memory_in_order (memory L') alloc ud"
  using assms(3) [OF assms(2)] assms(1) by (simp add: runO_Ret)

lemma thenS_memory:
  assumes "\<And>L. memory_in_order (memory L) alloc ud \<Longrightarrow> memory_in_order (memory (snd (m L))) alloc ud"
    and "\<And>L. memory_in_order (memory L) alloc ud \<Longrightarrow> memory_in_order (memory (snd (k L))) alloc ud"
    and "memory_in_order (memory L) alloc ud"
  shows "memory_in_order (memory (snd (thenS m k L))) alloc ud"
  using assms(1) [OF assms(3)] assms(2) by (auto simp: thenS_def bindS_def split: prod.split outcome.split)

lemma create_lua_state_memory:
  assumes "create_lua_state api vm alloc ud = Ret L"
  shows "memory_in_order (memory L) alloc ud"
proof -
  obtain L0 where L0: "NewState vm alloc ud = Ret L0"
    "runO (thenS (luaL_openlibs vm) (thenS (lua_pushstring api (LuaCppVersion vm)) (lua_setglobal vm ''_luacppversion''))) L0 = Ret L"
    using assms by (auto simp: create_lua_state_def bindO_Ret_iff)
  show ?thesis
    by (rule runO_memory [OF L0(2) new_state [OF L0(1)]]) (intro thenS_memory openlibs pushstring_memory setglobal)
qed

lemma push_globals_memory:
  "memory_in_order (memory L) alloc ud \<Longrightarrow> memory_in_order (memory (snd (push_globals vm env L))) alloc ud"
proof (induction env arbitrary: L)
  case (Cons p env)
  then show ?case by (cases p) (auto intro!: thenS_memory push_global_memory)
qed (simp add: returnS_def)

lemma prepare_memory:
  assumes "prepare ndebug lc reh api vm ctl deps s c = Ret (L, env, checker)"
  shows "memory_in_order (memory L) (lua_allocator (ep_memory_vt ctl))
    (CreateMemoryChecker (ep_memory_factory ctl) (eo_memory_limit (ec_options c)))"
proof -
  obtain L0 L1 where L: "create_lua_state api vm (lua_allocator (ep_memory_vt ctl))
      (CreateMemoryChecker (ep_memory_factory ctl) (eo_memory_limit (ec_options c))) = Ret L0"
    "runO (UploadCode vm (lua_snippet s)) L0 = Ret L1" "runO (attach_checker vm) L1 = Ret L"
    using assms by (auto simp: prepare_def Let_def bindO_Ret_iff)
  show ?thesis
    unfolding attach_checker_def
    by (rule runO_memory [OF L(3) runO_memory [OF L(2) create_lua_state_memory [OF L(1)]]])
      (auto simp: attach_checker_def intro!: upload_memory thenS_memory set_pointer_memory sethook_memory)
qed

lemma guard_enter_pushes:
  assumes "guard_enter lc hl ht reh vm s = (Ret (), t)"
  obtains env where "push_globals vm env (rs_lua s) = (Ret (), rs_lua t)"
proof -
  obtain u where u: "open_context lc hl ht reh s = (Ret (), u)"
    and body: "leavingS (\<lambda>s. onL (push_globals vm (rs_env s)) s) (returnS ()) (close_context lc hl) u = (Ret (), t)"
    using assms by (auto simp: guard_enter_def thenS_Ret_iff)
  have "rs_lua u = rs_lua s"
    using u by (auto simp: open_context_def bindS_def modifyS_def split: outcome.splits)
  with body show thesis
    by (intro that [of "rs_env u"])
      (auto simp: leavingS_def onL_def destructS_def outcome_simps thenS_Ret_iff throwS_def split: prod.splits outcome.splits)
qed

lemma starts_memory:
  assumes "starts ndebug lc hl ht reh api vm ctl deps s c w checker t"
  shows "memory_in_order (memory (rs_lua t)) (lua_allocator (ep_memory_vt ctl))
    (CreateMemoryChecker (ep_memory_factory ctl) (eo_memory_limit (ec_options c)))"
proof -
  obtain L env where L: "prepare ndebug lc reh api vm ctl deps s c = Ret (L, env, checker)"
    "guard_enter lc hl ht reh vm \<lparr>rs_lua = L, rs_env = env, rs_context = c, rs_world = w\<rparr> = (Ret (), t)"
    using assms by (auto simp: starts_def split: outcome.splits)
  obtain env' where "push_globals vm env' L = (Ret (), rs_lua t)"
    by (rule guard_enter_pushes [OF L(2)]) auto
  with push_globals_memory [OF prepare_memory [OF L(1)], of env'] show ?thesis by simp
qed

text \<open>Whatever the script does, its requests are those of a run of \<open>LuaAllocator\<close>.\<close>

lemma script_requests:
  assumes "starts ndebug lc hl ht reh api vm ctl deps s c w checker t"
  obtains rs where "memory (step_state (Steps vm (rs_lua t) w' k)) = (lua_allocator (ep_memory_vt ctl),
      CreateMemoryChecker (ep_memory_factory ctl) (eo_memory_limit (ec_options c)), rs)"
    "run_ok (lua_allocator (ep_memory_vt ctl)) rs
      (CreateMemoryChecker (ep_memory_factory ctl) (eo_memory_limit (ec_options c)), Map.empty)"
  using running [OF starts_memory [OF assms], of w' k] by (auto simp: memory_in_order_def)

end

section \<open>The small interpreter\<close>

lemma ref_request_memory:
  "memory_in_order (rl_memory L) alloc ud \<Longrightarrow> memory_in_order (rl_memory (ref_request n L)) alloc ud"
  by (auto simp: ref_request_def memory_in_order_def Let_def)

interpretation rmem: lua_memory_laws "ref_vm clock" ref_api rl_memory for clock :: "'a \<Rightarrow> int"
proof
  fix alloc ud and L :: ref_lua and w :: 'a and k
  assume L: "memory_in_order (rl_memory L) alloc ud"
  show "memory_in_order (rl_memory (step_state (Steps (ref_vm clock) L w k))) alloc ud"
    using L ref_request_memory [OF L, of 4096]
      ref_request_memory [OF ref_request_memory [OF L, of 4096], of 1099511627776]
    by (simp add: engine_simps ref_steps_def ref_hog_def ref_error_def Let_def)
next
  fix L L' :: ref_lua and w w' :: 'a and k
  assume "Steps (ref_vm clock) L w k = Ended (Ret LUA_ERRMEM) L' w'"
  then show "memory_refused (rl_memory L')"
    by (auto simp: engine_simps ref_steps_def ref_hog_def ref_error_def Let_def ref_refused_def memory_refused_def
        split: if_splits)
qed (auto simp: ref_vm_def ref_api_def lift_api_def liftA_def memory_in_order_def outcome_simps split: prod.split)

section \<open>What the limit means for a script\<close>

text \<open>
  C7. As long as the bytes that its run is charged for stay below \<open>2^64\<close>, the memory limit holds
  for the running script: at every call of the hook and when the run ends, the blocks that the
  interpreter holds are those of a run \<open>rs\<close> of \<open>LuaAllocator\<close> over a checker with the limit of the
  context, and if \<open>run_charge rs\<close>, which counts refused requests and shrunk blocks too, is below
  \<open>2^64\<close>, they have no more bytes than this limit. Past that the count wraps and the limit does not
  hold (see the end of \<open>Memory_Limit\<close>).
\<close>

theorem script_memory_is_limited:
  assumes "lua_memory_laws vm api memory"
    and "starts ndebug lc hl ht reh api vm ctl deps s c w checker t"
    and "ep_memory_factory ctl = memory_limit_checkers_factory" and "ep_memory_vt ctl = memory_limit_checker_vt"
  shows "\<exists>rs. memory (step_state (Steps vm (rs_lua t) w k))
      = (lua_allocator memory_limit_checker_vt, new_memory_limit_checker (eo_memory_limit (ec_options c)), rs)
    \<and> (run_charge rs < 2 ^ 64 \<longrightarrow> (\<exists>count h.
        alloc_run (lua_allocator memory_limit_checker_vt) rs
          (new_memory_limit_checker (eo_memory_limit (ec_options c)), Map.empty) = Ret (count, h)
      \<and> live_bytes h \<le> unat (eo_memory_limit (ec_options c))))"
proof -
  let ?lim = "eo_memory_limit (ec_options c)"
  have start: "mlc.accounted (new_memory_limit_checker ?lim) Map.empty" by (simp add: mlc.accounted_def)
  have limit: "CreateMemoryChecker (ep_memory_factory ctl) ?lim = new_memory_limit_checker ?lim"
    by (simp add: assms(3) memory_limit_checkers_factory_def)
  obtain rs where rs: "memory (step_state (Steps vm (rs_lua t) w k))
      = (lua_allocator memory_limit_checker_vt, new_memory_limit_checker ?lim, rs)"
    "run_ok (lua_allocator memory_limit_checker_vt) rs (new_memory_limit_checker ?lim, Map.empty)"
    by (rule lua_memory_laws.script_requests [OF assms(1,2), of w k, unfolded limit assms(4)])
  have "\<exists>count h. alloc_run (lua_allocator memory_limit_checker_vt) rs (new_memory_limit_checker ?lim, Map.empty) = Ret (count, h)
      \<and> live_bytes h \<le> unat ?lim" if "run_charge rs < 2 ^ 64"
    using mlc.allocator_run [OF rs(2) start] that by (auto simp: mlc.accounted_def new_memory_limit_checker_def)
  with rs(1) show ?thesis by blast
qed

text \<open>A context with 10000 bytes, and the script that asks for 4096 of them and then for much more.\<close>

definition small_context :: "(string \<times> string) list execution_context" where
  "small_context = set_options \<lparr>eo_timeout = 1, eo_memory_limit = 10000\<rparr> sample_context"

lemma small_context_ok: "context_ok ref_headers lower small_context"
  using sample_context_ok by (simp add: small_context_def set_options_def context_ok_def)

lemma small_context_options: "ec_options small_context = \<lparr>eo_timeout = 1, eo_memory_limit = 10000\<rparr>"
  by (simp add: small_context_def set_options_def)

lemmas ref_hog_simps = ref_hog_def ref_request_def ref_refused_def ref_error_def Let_def request_ok_def allocator_defs

lemma hog_first_step:
  assumes "rl_code L = ''hog''" and "rl_memory L = (lua_allocator memory_limit_checker_vt, new_memory_limit_checker 10000, [])"
  shows "rl_memory (step_state (ref_steps clock L w 0)) = (lua_allocator memory_limit_checker_vt, new_memory_limit_checker 10000,
      [\<lparr>rq_ptr = None, rq_osize = 0, rq_nsize = 4096, rq_answer = Some 1\<rparr>])"
    and "ref_steps clock L w 0 = AtHook (clock w) (step_state (ref_steps clock L w 0)) w"
    and "rl_pointer (step_state (ref_steps clock L w 0)) = rl_pointer L"
  using assms by (simp_all add: ref_steps_def ref_hog_simps)

theorem script_memory_is_limited_witness:
  "\<exists>t count h. starts True ref_luacpp ref_headers ref_http (\<lambda>m. m) ref_api (ref_vm (\<lambda>w. w :: int)) ref_control ref_deps
      (sample_script ''hog'') small_context 5 (new_timeout_checker 1) t
    \<and> alloc_run (lua_allocator memory_limit_checker_vt) [\<lparr>rq_ptr = None, rq_osize = 0, rq_nsize = 4096, rq_answer = Some 1\<rparr>]
        (new_memory_limit_checker 10000, Map.empty) = Ret (count, h)
    \<and> live_bytes h \<le> unat (10000 :: size_t)"
proof (rule ref_starts [OF small_context_ok, where ndebug = True and deps = ref_deps and clock = "\<lambda>w. w :: int" and code = "''hog''" and w = 5,
      unfolded small_context_options execute_options.simps])
  fix t L0
  assume start: "starts True ref_luacpp ref_headers ref_http (\<lambda>m. m) ref_api (ref_vm (\<lambda>w. w :: int)) ref_control ref_deps
      (sample_script ''hog'') small_context 5 (new_timeout_checker 1) t"
    and "rl_code (rs_lua t) = ''hog''"
    and "rl_memory (rs_lua t) = (lua_allocator memory_limit_checker_vt, new_memory_limit_checker 10000, [])"
  note first = hog_first_step(1) [OF this(2,3), of "\<lambda>w. w :: int" 5]
  show ?thesis
    using script_memory_is_limited [OF rmem.lua_memory_laws_axioms start, of 0] start first
    by (auto simp: ref_control_def ref_vm_def small_context_options request_charge_def)
qed

text \<open>
  C19. A script that runs out of memory is answered by \<open>OutOfMemoryLimit\<close> with the message of Lua;
  and unless the C heap itself failed, it has asked for more bytes than the limit of the context.
\<close>

theorem out_of_memory_is_reported:
  assumes "lua_executor_env js num_ok hl canon ht qreh lc entry named reh vm gval reading api view num_text int_num vt allowance"
    and "lua_memory_laws vm api memory"
    and "starts ndebug lc hl ht reh api vm ctl deps s c w checker t" and "context_ok hl canon c" and "sb_language s = LuaLanguage"
    and "ep_timeout_vt ctl = vt" and "ep_memory_factory ctl = memory_limit_checkers_factory"
    and "ep_memory_vt ctl = memory_limit_checker_vt"
    and "ends vm (Steps vm (rs_lua t) w) (Clock vm w + allowance checker) n (Ret LUA_ERRMEM) L w'" and "n < fuel"
    and "at 1 (stk (view L)) = Some (LStr m)"
  shows "(\<exists>r. lua_execute fuel ndebug lc hl ht reh api vm ctl deps (Some s) (c, w)
        = (Throw (OutOfMemoryLimit (c_str m)), (set_response r c, w')) \<and> same_response hl canon r (ec_response c))
    \<and> (\<exists>alloc ud rs. memory L = (alloc, ud, rs)
      \<and> ((\<forall>r\<in>set rs. rq_answer r \<noteq> None) \<longrightarrow> unat (eo_memory_limit (ec_options c)) < run_charge rs))"
proof
  show "\<exists>r. lua_execute fuel ndebug lc hl ht reh api vm ctl deps (Some s) (c, w)
        = (Throw (OutOfMemoryLimit (c_str m)), (set_response r c, w')) \<and> same_response hl canon r (ec_response c)"
    using lua_executor_env.execute_error [OF assms(1,3-6,9,10) _ assms(11)] by simp
  let ?lim = "eo_memory_limit (ec_options c)"
  have limit: "CreateMemoryChecker (ep_memory_factory ctl) ?lim = new_memory_limit_checker ?lim"
    by (simp add: assms(7) memory_limit_checkers_factory_def)
  have ended: "Steps vm (rs_lua t) w n = Ended (Ret LUA_ERRMEM) L w'" using assms(9) by (simp add: ends_def)
  obtain rs where rs: "memory L = (lua_allocator memory_limit_checker_vt, new_memory_limit_checker ?lim, rs)"
    using lua_memory_laws.script_requests [OF assms(2,3), of w n, unfolded limit assms(8) ended] by auto
  moreover from lua_memory_laws.out_of_memory [OF assms(2) ended] rs
  have "run_refused (lua_allocator memory_limit_checker_vt) rs (new_memory_limit_checker ?lim, Map.empty)"
    by (simp add: memory_refused_def)
  from mlc.refused_charge [OF this]
  have "(\<forall>r\<in>set rs. rq_answer r \<noteq> None) \<longrightarrow> unat ?lim < run_charge rs" by (simp add: new_memory_limit_checker_def)
  ultimately show "\<exists>alloc ud rs. memory L = (alloc, ud, rs)
      \<and> ((\<forall>r\<in>set rs. rq_answer r \<noteq> None) \<longrightarrow> unat ?lim < run_charge rs)" by blast
qed

theorem out_of_memory_is_reported_witness:
  "fst (lua_execute 2 True ref_luacpp ref_headers ref_http (\<lambda>m. m) ref_api (ref_vm (\<lambda>w. w :: int)) ref_control ref_deps
      (Some (sample_script ''hog'')) (small_context, 5)) = Throw (OutOfMemoryLimit ''not enough memory'')"
proof (rule ref_starts [OF small_context_ok, where ndebug = True and deps = ref_deps and clock = "\<lambda>w. w :: int" and code = "''hog''" and w = 5,
      unfolded small_context_options execute_options.simps])
  fix t L0
  assume start: "starts True ref_luacpp ref_headers ref_http (\<lambda>m. m) ref_api (ref_vm (\<lambda>w. w :: int)) ref_control ref_deps
      (sample_script ''hog'') small_context 5 (new_timeout_checker 1) t"
    and hog: "rl_code (rs_lua t) = ''hog''"
      "rl_memory (rs_lua t) = (lua_allocator memory_limit_checker_vt, new_memory_limit_checker 10000, [])"
  let ?L = "step_state (ref_steps (\<lambda>w. w :: int) (rs_lua t) 5 1)"
  have pointer: "RegistryHasPointer (ref_vm (\<lambda>w. w :: int)) kTimeoutCheckerVariableName (rs_lua t)"
    by (rule re.starts_cases [OF start small_context_ok])
  have first: "ref_steps (\<lambda>w. w :: int) (rs_lua t) 5 0 = AtHook 5 (step_state (ref_steps (\<lambda>w. w :: int) (rs_lua t) 5 0)) 5"
    by (rule hog_first_step(2) [OF hog])
  have "RegistryHasPointer (ref_vm (\<lambda>w. w :: int)) kTimeoutCheckerVariableName (step_state (ref_steps (\<lambda>w. w :: int) (rs_lua t) 5 0))"
    using pointer hog_first_step(3) [OF hog, of "\<lambda>w. w :: int" 5] by (simp add: ref_vm_def)
  moreover have second: "ref_steps (\<lambda>w. w :: int) (rs_lua t) 5 1 = Ended (Ret LUA_ERRMEM) ?L 5"
    "stk (rl_view ?L) = [LStr ''not enough memory'']"
    using hog by (simp_all add: ref_steps_def ref_hog_simps)
  ultimately have "in_time (ref_vm (\<lambda>w. w :: int)) (ref_steps (\<lambda>w. w) (rs_lua t) 5) (5 + 1000000) 1"
    unfolding in_time_def less_one using first by (intro allI impI exI [of _ 5] exI) simp
  with second(1) have "ends (ref_vm (\<lambda>w. w :: int)) (Steps (ref_vm (\<lambda>w. w)) (rs_lua t) 5)
      (Clock (ref_vm (\<lambda>w. w)) 5 + 1000000 * timeout (new_timeout_checker 1)) 1 (Ret LUA_ERRMEM) ?L 5"
    by (simp add: ends_def engine_simps new_timeout_checker_def)
  moreover have "at 1 (stk (rl_view ?L)) = Some (LStr ''not enough memory'')"
    "c_str ''not enough memory'' = ''not enough memory''"
    using second(2) by (simp_all add: at_def position_def c_str_def)
  ultimately show ?thesis
    using out_of_memory_is_reported [OF sample_setting rmem.lua_memory_laws_axioms start small_context_ok, of 1 ?L 5 2
        "''not enough memory''"]
    by (auto simp: engine_simps ref_control_def)
qed

end
