(* ===== verification/Lua_Wrappers.thy ===== *)
theory Lua_Wrappers
  imports Lua_Engine Lua_Http_Client
begin

text \<open>
  The Lua side of the modules, \<open>src/lua/miet\<close>: the files a script loads with \<open>require\<close>. They find
  the objects of the executor under the names of its globals and add a method per HTTP method to
  the client. A method is the list of values it hands to the C++ code.
\<close>

section \<open>\<open>miet.http.client\<close>\<close>

text \<open>A call of Lua adjusts its arguments to the parameters of the function: missing ones are nil.\<close>

definition adjust_args :: "nat \<Rightarrow> 'd lval list \<Rightarrow> 'd lval list" where
  "adjust_args n xs = take n (xs @ replicate n LNil)"

definition client_aliases :: "(string \<times> string) list" where
  "client_aliases =
     [(''delete'', ''DELETE''), (''put'', ''PUT''), (''patch'', ''PATCH''), (''options'', ''OPTIONS''),
      (''get'', ''GET''), (''post'', ''POST''), (''head'', ''HEAD'')]"

text \<open>
  The arguments of \<open>self._impl:send\<close> in the method \<open>name\<close> of the extended client, which was called
  with \<open>args\<close> after \<open>self\<close>.
\<close>

definition extended_client_send :: "string \<Rightarrow> 'd lval list \<Rightarrow> 'd lval list option" where
  "extended_client_send name args =
     (if name = ''send'' then Some (adjust_args 3 args)
      else map_option (\<lambda>verb. LStr verb # adjust_args 2 args) (map_of client_aliases name))"

text \<open>\<open>_impl:send(...)\<close>: the stack of the C++ function, the object of the method and \<open>_impl\<close> below the arguments.\<close>

definition send_stack :: "'d lval \<Rightarrow> 'd lval \<Rightarrow> 'd lval list \<Rightarrow> 'd lval list" where
  "send_stack object impl args = rev (object # impl # args)"

section \<open>The globals of the modules\<close>

definition client_impl :: string where
  "client_impl = ''miet_http_client''"

definition context_request :: string where
  "context_request = ''miet_http_context_incoming_request''"

definition context_response :: string where
  "context_response = ''miet_http_context_outgoing_response''"

definition kv_module_get :: string where
  "kv_module_get = ''miet_kv_storage''"

lemma wrapper_names:
  "client_impl = kHttpClientVariableName" "context_request = kRequestVariableName"
  "context_response = kResponseVariableName" "kv_module_get = kStorageVariableName"
  by (simp_all add: client_impl_def context_request_def context_response_def kv_module_get_def kHttpClientVariableName_def
      kRequestVariableName_def kResponseVariableName_def kStorageVariableName_def)

text \<open>The wrappers find what the executor has put there.\<close>

lemma wrappers_reach_the_modules:
  assumes "lua_executor_env js num_ok hl canon ht qreh lc entry named reh vm gval reading api view num_text int_num vt allowance"
    and "starts ndebug lc hl ht reh api vm ctl deps s c w checker t" and "context_ok hl canon c"
  shows "isTable lc (gval (rs_lua t) context_request) \<and> isTable lc (gval (rs_lua t) context_response)
    \<and> (ep_http_client deps \<noteq> None \<longrightarrow> gval (rs_lua t) client_impl = LuaMetaObject lc HttpClientModule)
    \<and> (ep_storage deps \<noteq> None \<longrightarrow> gval (rs_lua t) kv_module_get = LuaMetaObject lc (KvStorageModule (sb_project_id s)))"
proof (rule lua_executor_env.starts_cases [OF assms])
  fix L0 request response
  assume env: "map_of (rs_env t) = (environment ndebug lc deps (sb_project_id s))
      (kRequestVariableName \<mapsto> request, kResponseVariableName \<mapsto> response)" and "isTable lc request" "isTable lc response"
    and g: "gval (rs_lua t) = (\<lambda>name. case map_of (rs_env t) name of Some v \<Rightarrow> v | None \<Rightarrow> gval L0 name)"
  then show ?thesis by (auto simp: wrapper_names g env environment_def)
qed

section \<open>What the methods of the client send\<close>

lemma adjust_args_simps [simp]:
  "adjust_args 2 [x] = [x, LNil]" "adjust_args 2 [x, y] = [x, y]" "adjust_args 2 (x # y # z # zs) = [x, y]"
  by (simp_all add: adjust_args_def numeral_2_eq_2)

lemma alias_calls_send:
  assumes "map_of client_aliases name = Some verb" and "extra \<in> {[], [LNil]}"
  shows "extended_client_send name (LStr url # extra) = Some [LStr verb, LStr url, LNil]"
proof -
  have "name \<noteq> ''send''" using assms(1) by (auto simp: client_aliases_def)
  with assms show ?thesis by (auto simp: extended_client_send_def)
qed

text \<open>
  C23. The seven methods of the extended client, called with a URL alone, send exactly one request:
  \<open>delete\<close> a \<open>kDelete\<close>, \<open>put\<close> a \<open>kPut\<close> and so on, as the list in the statement says, with that URL
  and no query, headers or body. The script gets the response and nil, or nil and the message of
  the client. The hypotheses on \<open>HttpMethodFromString\<close> are userver's table of names.
\<close>

theorem wrapped_call_is_sent:
  assumes "lua_http_env api view num_text int_num js num_ok hl canon ht reh client"
    and "HttpMethodFromString ht ''DELETE'' = Ret kDelete" and "HttpMethodFromString ht ''PUT'' = Ret kPut"
    and "HttpMethodFromString ht ''PATCH'' = Ret kPatch" and "HttpMethodFromString ht ''OPTIONS'' = Ret kOptions"
    and "HttpMethodFromString ht ''GET'' = Ret kGet" and "HttpMethodFromString ht ''POST'' = Ret kPost"
    and "HttpMethodFromString ht ''HEAD'' = Ret kHead"
    and name: "(name, m) \<in> {(''delete'', kDelete), (''put'', kPut), (''patch'', kPatch), (''options'', kOptions),
      (''get'', kGet), (''post'', kPost), (''head'', kHead)}"
    and extra: "extra \<in> {[], [LNil]}"
  shows "\<exists>args. extended_client_send name (LStr url # extra) = Some args
    \<and> (\<forall>L w object impl. stk (view L) = send_stack object impl args \<and> 4 \<le> slots (view L) \<longrightarrow>
        (\<exists>L' w'. client_method n js api hl ht reh client (L, w) = (Ret 2, (L', w'))
          \<and> (case Send client ((request_default hl)\<lparr>req_method := m, req_url := c_str url\<rparr>) w of
              (Ret r, w1) \<Rightarrow> w' = w1 \<and> (\<exists>a. stk (view L') = [LNil, LTab a] \<and> shows_response int_num (view L') a hl r)
            | (Throw e, w1) \<Rightarrow> w' = w1 \<and> stk (view L') = [LStr (c_str (what e)), LNil]
            | _ \<Rightarrow> False)))"
proof -
  obtain verb where verb: "map_of client_aliases name = Some verb" "HttpMethodFromString ht (c_str verb) = Ret m"
    using name assms(2-8) by (auto simp: client_aliases_def c_str_def)
  show ?thesis
  proof (intro exI [of _ "[LStr verb, LStr url, LNil]"] conjI allI impI; (elim conjE)?)
    show "extended_client_send name (LStr url # extra) = Some [LStr verb, LStr url, LNil]"
      by (rule alias_calls_send [OF verb(1) extra])
    fix L w object impl
    assume "stk (view L) = send_stack object impl [LStr verb, LStr url, LNil]" "4 \<le> slots (view L)"
    then have "calls_send_plain (view L) verb url" by (simp add: calls_send_plain_def send_stack_def)
    from lua_http_env.plain_request_is_sent [OF assms(1) this verb(2)]
    show "\<exists>L' w'. client_method n js api hl ht reh client (L, w) = (Ret 2, (L', w'))
          \<and> (case Send client ((request_default hl)\<lparr>req_method := m, req_url := c_str url\<rparr>) w of
              (Ret r, w1) \<Rightarrow> w' = w1 \<and> (\<exists>a. stk (view L') = [LNil, LTab a] \<and> shows_response int_num (view L') a hl r)
            | (Throw e, w1) \<Rightarrow> w' = w1 \<and> stk (view L') = [LStr (c_str (what e)), LNil]
            | _ \<Rightarrow> False)" .
  qed
qed

theorem wrapped_call_is_sent_witness:
  "\<exists>args L' w'. extended_client_send ''put'' [LStr ''/u''] = Some args
    \<and> client_method 1 ref_json int_machine ref_headers ref_http (\<lambda>m. m) (client_vt ref_http ref_perform)
        (\<lparr>stk = send_stack (LOther ''userdata'') (LOther ''userdata'') args, tabs = [], slots = 25\<rparr>, []) = (Ret 2, (L', w'))"
proof -
  have methods: "HttpMethodFromString ref_http ''DELETE'' = Ret kDelete" "HttpMethodFromString ref_http ''PUT'' = Ret kPut"
    "HttpMethodFromString ref_http ''PATCH'' = Ret kPatch" "HttpMethodFromString ref_http ''OPTIONS'' = Ret kOptions"
    "HttpMethodFromString ref_http ''GET'' = Ret kGet" "HttpMethodFromString ref_http ''POST'' = Ret kPost"
    "HttpMethodFromString ref_http ''HEAD'' = Ret kHead"
    by (simp_all add: ref_http_def ref_methods_def)
  have put: "(''put'', kPut) \<in> {(''delete'', kDelete), (''put'', kPut), (''patch'', kPatch), (''options'', kOptions),
      (''get'', kGet), (''post'', kPost), (''head'', kHead)}" by simp
  have none: "[] \<in> {[], [LNil :: int lval]}" by simp
  obtain args where "extended_client_send ''put'' [LStr ''/u''] = Some args"
    and sent: "\<And>L w object impl. stk L = send_stack object impl args \<and> 4 \<le> slots L
      \<Longrightarrow> \<exists>L' w'. client_method 1 ref_json int_machine ref_headers ref_http (\<lambda>m. m) (client_vt ref_http ref_perform) (L, w) = (Ret 2, (L', w'))"
    using wrapped_call_is_sent [OF rh.lua_http_env_axioms methods put none, of "''/u''" 1] by blast
  moreover have "\<exists>L' w'. client_method 1 ref_json int_machine ref_headers ref_http (\<lambda>m. m) (client_vt ref_http ref_perform)
      (\<lparr>stk = send_stack (LOther ''userdata'') (LOther ''userdata'') args, tabs = [], slots = 25\<rparr>, []) = (Ret 2, (L', w'))"
    by (rule sent [of _ "LOther ''userdata''" "LOther ''userdata''"]) simp
  ultimately show ?thesis by blast
qed

end
