(* ===== verification/Startup.thy ===== *)
theory Startup
  imports Exceptions
begin

text \<open>
  How a process of the framework starts: every registered component is constructed in a task of
  its own, and a constructor that asks for another component waits until that one is constructed.
  The constructors themselves are in the theory \<open>Service\<close>.
\<close>

section \<open>Constructors and their tasks\<close>

text \<open>
  A constructor is what it asks \<open>ComponentContext::FindComponent\<close> for, one after the other, and
  the object it makes of the answers, or its exception. \<open>'i\<close> are names and \<open>'o\<close> objects.
\<close>

datatype ('i, 'o) constructor =
    FindComponent 'i "'o \<Rightarrow> ('i, 'o) constructor"
  | Construct "'o outcome"

text \<open>Go on with the result of a call that the constructor makes itself.\<close>

definition constructO :: "'a outcome \<Rightarrow> ('a \<Rightarrow> ('i, 'o) constructor) \<Rightarrow> ('i, 'o) constructor" where
  "constructO r k =
     (case r of
        Ret x \<Rightarrow> k x
      | Throw e \<Rightarrow> Construct (Throw e)
      | LuaJump m \<Rightarrow> Construct (LuaJump m)
      | Crash c \<Rightarrow> Construct (Crash c)
      | NoFuel \<Rightarrow> Construct NoFuel)"

datatype ('i, 'o) component_status =
    Constructing "('i, 'o) constructor"
  | Ready 'o
  | Failed cpp_exn
  | Cancelled

text \<open>
  The tasks run in any order. Asking for a component that is not registered, or one that will
  never be constructed, is an exception in the constructor that asks.
\<close>

type_synonym ('i, 'o) component_map = "'i \<Rightarrow> ('i, 'o) component_status option"

inductive start_step :: "('i, 'o) component_map \<Rightarrow> ('i, 'o) component_map \<Rightarrow> bool" where
  found: "st i = Some (Constructing (FindComponent j k)) \<Longrightarrow> st j = Some (Ready x)
    \<Longrightarrow> start_step st (st(i \<mapsto> Constructing (k x)))"
| missing: "st i = Some (Constructing (FindComponent j k)) \<Longrightarrow> st j = None \<Longrightarrow> start_step st (st(i \<mapsto> Cancelled))"
| broken: "st i = Some (Constructing (FindComponent j k)) \<Longrightarrow> st j = Some (Failed e) \<or> st j = Some Cancelled
    \<Longrightarrow> start_step st (st(i \<mapsto> Cancelled))"
| constructed: "st i = Some (Constructing (Construct (Ret x))) \<Longrightarrow> start_step st (st(i \<mapsto> Ready x))"
| thrown: "st i = Some (Constructing (Construct (Throw e))) \<Longrightarrow> start_step st (st(i \<mapsto> Failed e))"

inductive_cases start_stepE: "start_step st st'"

definition start_state :: "'i list \<Rightarrow> ('i \<Rightarrow> ('i, 'o) constructor) \<Rightarrow> ('i, 'o) component_map" where
  "start_state registered ctor i = (if i \<in> set registered then Some (Constructing (ctor i)) else None)"

abbreviation start_reach :: "nat \<Rightarrow> ('i, 'o) component_map \<Rightarrow> ('i, 'o) component_map \<Rightarrow> bool" where
  "start_reach n \<equiv> start_step ^^ n"

text \<open>If every run is bounded, some run goes on until no task can.\<close>

lemma bounded_run_ends:
  assumes "\<And>n st. start_reach n s st \<Longrightarrow> n \<le> bound"
  shows "\<exists>n st. start_reach n s st \<and> (\<nexists>st'. start_step st st')"
proof (rule ccontr)
  assume "\<not> ?thesis"
  then have go: "start_reach n s st \<Longrightarrow> \<exists>st'. start_step st st'" for n st by blast
  have "\<exists>st. start_reach n s st" for n
  proof (induction n)
    case (Suc n)
    then obtain st where "start_reach n s st" by blast
    with go [OF this] show ?case by (auto intro!: relcomppI)
  qed auto
  from this [of "Suc bound"] assms show False by fastforce
qed

section \<open>Constructors that succeed\<close>

text \<open>
  \<open>builds obj S c x n\<close>: if every component is the object \<open>obj\<close> says, the constructor \<open>c\<close> asks
  \<open>n\<close> times for components of \<open>S\<close> and makes \<open>x\<close>.
\<close>

inductive builds :: "('i \<Rightarrow> 'o) \<Rightarrow> 'i set \<Rightarrow> ('i, 'o) constructor \<Rightarrow> 'o \<Rightarrow> nat \<Rightarrow> bool" for obj S where
  builds_object: "builds obj S (Construct (Ret x)) x 0"
| builds_find: "j \<in> S \<Longrightarrow> builds obj S (k (obj j)) x n \<Longrightarrow> builds obj S (FindComponent j k) x (Suc n)"

inductive_simps builds_simps: "builds obj S (Construct r) x n" "builds obj S (FindComponent j k) x n"

lemma builds_mono: "builds obj S c x n \<Longrightarrow> S \<subseteq> T \<Longrightarrow> builds obj T c x n"
  by (induction rule: builds.induct) (auto intro: builds.intros)

text \<open>\<open>needs S c\<close>: whatever the answers are, \<open>c\<close> asks for components of \<open>S\<close> only, and it ends.\<close>

inductive needs :: "'i set \<Rightarrow> ('i, 'o) constructor \<Rightarrow> bool" for S where
  needs_object: "answersO r \<Longrightarrow> needs S (Construct r)"
| needs_find: "j \<in> S \<Longrightarrow> (\<And>x. needs S (k x)) \<Longrightarrow> needs S (FindComponent j k)"

inductive_simps needs_simps: "needs S (Construct r)" "needs S (FindComponent j k)"

lemma needs_constructO: "answersO r \<Longrightarrow> (\<And>x. r = Ret x \<Longrightarrow> needs S (k x)) \<Longrightarrow> needs S (constructO r k)"
  by (auto simp: constructO_def answersO_def needs_simps)

lemma needs_mono: "needs S c \<Longrightarrow> S \<subseteq> T \<Longrightarrow> needs T c"
  by (induction rule: needs.induct) (auto intro: needs.intros)

section \<open>No deadlock\<close>

text \<open>Components that need only components of a smaller rank never wait for each other.\<close>

locale ranked_components =
  fixes registered :: "'i list" and ctor :: "'i \<Rightarrow> ('i, 'o) constructor" and rank :: "'i \<Rightarrow> nat"
  assumes ctor_needs: "i \<in> set registered \<Longrightarrow> needs {j. rank j < rank i} (ctor i)"
begin

definition waits_down :: "('i, 'o) component_map \<Rightarrow> bool" where
  "waits_down st \<longleftrightarrow> dom st = set registered \<and>
     (\<forall>i c. st i = Some (Constructing c) \<longrightarrow> needs {j. rank j < rank i} c)"

lemma waits_down_start: "waits_down (start_state registered ctor)"
  by (auto simp: waits_down_def start_state_def ctor_needs split: if_splits)

lemma waits_down_update:
  assumes "waits_down st" and "st i = Some (Constructing c)"
    and "\<And>d. s = Constructing d \<Longrightarrow> needs {j. rank j < rank i} d"
  shows "waits_down (st(i \<mapsto> s))"
  using assms by (auto simp: waits_down_def)

lemma waits_down_step:
  assumes "start_step st st'" and "waits_down st"
  shows "waits_down st'"
  using assms(1)
proof cases
  case (found i j k x)
  have "needs {j. rank j < rank i} (FindComponent j k)"
    using assms(2) found(2) by (simp add: waits_down_def)
  then show ?thesis
    unfolding found(1) by (intro waits_down_update [OF assms(2) found(2)]) (auto simp: needs_simps)
qed (auto intro: waits_down_update [OF assms(2)])

lemma waits_down_reach: "start_reach n (start_state registered ctor) st \<Longrightarrow> waits_down st"
  by (induction n arbitrary: st) (auto simp: waits_down_start intro: waits_down_step)

lemma stuck_is_over:
  assumes "waits_down st" and stuck: "\<nexists>st'. start_step st st'"
  shows "st i \<noteq> Some (Constructing c)"
proof (induction "rank i" arbitrary: i c rule: less_induct)
  case less
  show ?case
  proof
    assume i: "st i = Some (Constructing c)"
    with assms(1) have c: "needs {j. rank j < rank i} c" by (simp add: waits_down_def)
    show False
    proof (cases c)
      case (FindComponent j k)
      with c have "rank j < rank i" by (simp add: needs_simps)
      from less [OF this] have j: "\<And>d. st j \<noteq> Some (Constructing d)" .
      show False
      proof (cases "st j")
        case None
        with i FindComponent stuck show False by (blast intro: missing)
      next
        case (Some s)
        with i j FindComponent stuck show False by (cases s) (blast intro: found broken)+
      qed
    next
      case (Construct r)
      with c i stuck show False
        by (cases r) (auto simp: needs_simps intro: constructed thrown)
    qed
  qed
qed

end

section \<open>Every component comes up\<close>

text \<open>
  \<open>obj\<close> is the object each component becomes, and \<open>finds\<close> how often it asks for another one.
\<close>

locale startable_components = ranked_components registered ctor rank
  for registered :: "'i list" and ctor :: "'i \<Rightarrow> ('i, 'o) constructor" and rank +
  fixes obj :: "'i \<Rightarrow> 'o" and finds :: "'i \<Rightarrow> nat"
  assumes ctor_builds: "i \<in> set registered \<Longrightarrow> builds obj (set registered) (ctor i) (obj i) (finds i)"
begin

definition left_to_do :: "('i, 'o) component_map \<Rightarrow> ('i \<Rightarrow> nat) \<Rightarrow> bool" where
  "left_to_do st f \<longleftrightarrow> dom st = set registered \<and> (\<forall>i\<in>set registered.
     st i = Some (Ready (obj i)) \<and> f i = 0
   \<or> (\<exists>c n. st i = Some (Constructing c) \<and> builds obj (set registered) c (obj i) n \<and> f i = Suc n))"

definition start_cost :: nat where
  "start_cost = (\<Sum>i\<in>set registered. Suc (finds i))"

lemma left_at_start: "left_to_do (start_state registered ctor) (\<lambda>i. Suc (finds i))"
  by (auto simp: left_to_do_def start_state_def ctor_builds split: if_splits)

lemma left_update:
  assumes "left_to_do st f" and "i \<in> set registered" and "f i = Suc m"
    and "s = Ready (obj i) \<and> m = 0 \<or> (\<exists>c n. s = Constructing c \<and> builds obj (set registered) c (obj i) n \<and> m = Suc n)"
  shows "\<exists>g. left_to_do (st(i \<mapsto> s)) g \<and> Suc (\<Sum>i\<in>set registered. g i) = (\<Sum>i\<in>set registered. f i)"
proof (intro exI conjI)
  show "left_to_do (st(i \<mapsto> s)) (f(i := m))"
    using assms by (auto simp: left_to_do_def)
  show "Suc (\<Sum>j\<in>set registered. (f(i := m)) j) = (\<Sum>j\<in>set registered. f j)"
    using assms(2,3) by (simp add: sum.remove [of _ i])
qed

lemma left_step:
  assumes "start_step st st'" and "left_to_do st f"
  shows "\<exists>g. left_to_do st' g \<and> Suc (\<Sum>i\<in>set registered. g i) = (\<Sum>i\<in>set registered. f i)"
proof -
  have dom: "dom st = set registered"
    and each: "\<And>i. i \<in> set registered \<Longrightarrow> st i = Some (Ready (obj i)) \<and> f i = 0
      \<or> (\<exists>c n. st i = Some (Constructing c) \<and> builds obj (set registered) c (obj i) n \<and> f i = Suc n)"
    using assms(2) unfolding left_to_do_def by blast+
  have constructing: "i \<in> set registered \<and> (\<exists>n. builds obj (set registered) c (obj i) n \<and> f i = Suc n)"
    if "st i = Some (Constructing c)" for i c
    using each [of i] that dom by auto
  have ready: "j \<in> set registered \<Longrightarrow> (\<exists>c. st j = Some (Constructing c)) \<or> st j = Some (Ready (obj j))" for j
    using each [of j] by blast
  from assms(1) show ?thesis
  proof cases
    case (found i j k x)
    obtain n where i: "i \<in> set registered" "builds obj (set registered) (FindComponent j k) (obj i) n" "f i = Suc n"
      using constructing [OF found(2)] by blast
    then obtain m where m: "n = Suc m" "j \<in> set registered" "builds obj (set registered) (k (obj j)) (obj i) m"
      by (auto simp: builds_simps)
    have "x = obj j" using ready [OF m(2)] found(3) by auto
    then show ?thesis
      unfolding found(1) using left_update [OF assms(2) i(1,3), of "Constructing (k x)"] m by simp
  next
    case (missing i j k)
    obtain n where "builds obj (set registered) (FindComponent j k) (obj i) n" using constructing [OF missing(2)] by blast
    then have "j \<in> set registered" by (simp add: builds_simps) blast
    with missing(3) dom show ?thesis by blast
  next
    case (broken i j k e)
    obtain n where "builds obj (set registered) (FindComponent j k) (obj i) n" using constructing [OF broken(2)] by blast
    then have "j \<in> set registered" by (simp add: builds_simps) blast
    then show ?thesis using ready [of j] broken(3) by auto
  next
    case (constructed i x)
    obtain n where i: "i \<in> set registered" "builds obj (set registered) (Construct (Ret x)) (obj i) n" "f i = Suc n"
      using constructing [OF constructed(2)] by blast
    then show ?thesis
      unfolding constructed(1) using left_update [OF assms(2) i(1,3), of "Ready x"] by (simp add: builds_simps)
  next
    case (thrown i e)
    then show ?thesis using constructing [OF thrown(2)] by (auto simp: builds_simps)
  qed
qed

lemma left_reach:
  assumes "start_reach n (start_state registered ctor) st"
  shows "\<exists>f. left_to_do st f \<and> (\<Sum>i\<in>set registered. f i) + n = start_cost"
  using assms
proof (induction n arbitrary: st)
  case 0
  then show ?case using left_at_start by (auto simp: start_cost_def)
next
  case (Suc n)
  then obtain st1 where "start_reach n (start_state registered ctor) st1" and step: "start_step st1 st" by auto
  then obtain f where f: "left_to_do st1 f" "(\<Sum>i\<in>set registered. f i) + n = start_cost" using Suc.IH by blast
  from left_step [OF step f(1)] f(2) show ?case by fastforce
qed

text \<open>Every run is finite, and when nothing is left to do every component is there.\<close>

lemma start_finishes:
  assumes "start_reach n (start_state registered ctor) st"
  shows "n \<le> start_cost"
    and "(\<nexists>st'. start_step st st') \<Longrightarrow> i \<in> set registered \<Longrightarrow> st i = Some (Ready (obj i))"
proof -
  obtain f where f: "left_to_do st f" "(\<Sum>i\<in>set registered. f i) + n = start_cost"
    using left_reach [OF assms] by blast
  then show "n \<le> start_cost" by simp
  show "st i = Some (Ready (obj i))" if "\<nexists>st'. start_step st st'" "i \<in> set registered"
    using f(1) that stuck_is_over [OF waits_down_reach [OF assms] that(1)] by (auto simp: left_to_do_def)
qed

end

end
