(* ===== verification/Execute_Lambda.thy ===== *)
theory Execute_Lambda
  imports Scripts_Storage Engine
begin

text \<open>
  The handler of the service, \<open>handlers/execute-lambda.cpp\<close>. What the handler throws for
  userver is a value \<open>Inl\<close>, so that an exception that is not meant for userver stays one. Log
  messages are left out.
\<close>

section \<open>Answers\<close>

text \<open>
  The exceptions of userver that the handler throws, with their external body: they become
  the statuses 400, 404 and 500.
\<close>

datatype handler_error = ClientError string | ResourceNotFound "string option" | InternalServerError

datatype content_type = kApplicationJson

record http_answer =
  ha_content_type :: content_type
  ha_body :: string

definition rethrow_with_external_message ::
  "'d json_lib \<Rightarrow> (string \<Rightarrow> handler_error) \<Rightarrow> string \<Rightarrow> ('s, handler_error + 'a) action" where
  "rethrow_with_external_message js client_error message =
     bindS (liftS (EmplaceNocheck js ''message'' (JStr message) JNull)) (\<lambda>body.
     returnS (Inl (client_error (ToString js body))))"

text \<open>Go on unless there is an answer already.\<close>

definition andS :: "('s, 'e + 'a) action \<Rightarrow> ('a \<Rightarrow> ('s, 'e + 'b) action) \<Rightarrow> ('s, 'e + 'b) action" where
  "andS m f = bindS m (\<lambda>r. case r of Inl e \<Rightarrow> returnS (Inl e) | Inr x \<Rightarrow> f x)"

section \<open>\<open>ExecuteLambda\<close>\<close>

definition kDefaultExecutionTimeout :: milliseconds where
  "kDefaultExecutionTimeout = 1000"

definition kDefaultMemoryLimit :: size_t where
  "kDefaultMemoryLimit = 10 * 1024 * 1024"

text \<open>\<open>lexical_cast\<close> is boost's; a script of the storage is never null.\<close>

definition get_script_by_id ::
  "'d json_lib \<Rightarrow> (string \<Rightarrow> script_id outcome) \<Rightarrow> (script_id \<Rightarrow> ('s, 'x script_base_scheme) action) \<Rightarrow> string
    \<Rightarrow> ('s, handler_error + 'x script_base_scheme) action" where
  "get_script_by_id js lexical_cast get path_id =
     andS (catch_allS (bindS (liftS (lexical_cast path_id)) (\<lambda>i. returnS (Inr i)))
            (\<lambda>_. rethrow_with_external_message js ClientError ''Incorrect script ID'')) (\<lambda>script_id.
     catch_allS (bindS (get script_id) (\<lambda>script. returnS (Inr script)))
       (\<lambda>e. case e of
          NotFoundScriptError m \<Rightarrow> rethrow_with_external_message js (\<lambda>b. ResourceNotFound (Some b)) (c_str m)
        | _ \<Rightarrow> if is_std_exception e then returnS (Inl InternalServerError) else throwS e))"

definition build_execution_context ::
  "'d json_lib \<Rightarrow> 'h header_lib \<Rightarrow> http_lib \<Rightarrow> (string, string) rehash \<Rightarrow> milliseconds \<Rightarrow> string
    \<Rightarrow> ('s, handler_error + 'h execution_context) action" where
  "build_execution_context js hl ht reh junk body =
     andS
       (catch_stdS (bindS (liftS (bindO (FromString js body) (request_from_json js hl ht reh))) (\<lambda>r. returnS (Inr r)))
         (\<lambda>e. rethrow_with_external_message js ClientError (c_str (what e)))) (\<lambda>script_request.
     returnS (Inr (set_options \<lparr>eo_timeout = kDefaultExecutionTimeout, eo_memory_limit = kDefaultMemoryLimit\<rparr>
       (new_execution_context junk script_request (response_default hl)))))"

lemmas handler_defs = andS_def bindS_def thenS_def catch_allS_def catch_stdS_def liftS_def returnS_def throwS_def

text \<open>The order of the handlers is that of the code.\<close>

fun execution_error :: "cpp_exn \<Rightarrow> handler_error" where
  "execution_error (ExecutionTimeout _) = InternalServerError"
| "execution_error (OutOfMemoryLimit _) = InternalServerError"
| "execution_error (NotFoundScriptError _) = ResourceNotFound None"
| "execution_error _ = InternalServerError"

text \<open>The context is shared: the handler reads it after the executor has changed it.\<close>

definition execute_script ::
  "('x, 'h, 'w) executor_base \<Rightarrow> 'x script_base_scheme \<Rightarrow> 'h execution_context
    \<Rightarrow> ('w, handler_error + 'h execution_context) action" where
  "execute_script ex script c w =
     (case catch_allS (thenS (ExecuteScript ex (Some script)) (returnS (Inr ()))) (\<lambda>e. returnS (Inl (execution_error e))) (c, w) of
        (Ret (Inr _), (c', w')) \<Rightarrow> (Ret (Inr c'), w')
      | (Ret (Inl e), (c', w')) \<Rightarrow> (Ret (Inl e), w')
      | (Throw e, (c', w')) \<Rightarrow> (Throw e, w')
      | (LuaJump m, (c', w')) \<Rightarrow> (LuaJump m, w')
      | (Crash x, (c', w')) \<Rightarrow> (Crash x, w')
      | (NoFuel, (c', w')) \<Rightarrow> (NoFuel, w'))"

definition handle_request_throw ::
  "'d json_lib \<Rightarrow> 'h header_lib \<Rightarrow> http_lib \<Rightarrow> (string, string) rehash \<Rightarrow> milliseconds \<Rightarrow> (string \<Rightarrow> script_id outcome)
    \<Rightarrow> (script_id \<Rightarrow> ('w \<times> 'c, 'x script_base_scheme) action) \<Rightarrow> ('x, 'h, 'w) executor_base \<Rightarrow> string \<Rightarrow> string
    \<Rightarrow> ('w \<times> 'c, handler_error + http_answer) action" where
  "handle_request_throw js hl ht reh junk lexical_cast get ex path_id body =
     andS (get_script_by_id js lexical_cast get path_id) (\<lambda>script.
     andS (build_execution_context js hl ht reh junk body) (\<lambda>c.
     andS (firstS (execute_script ex script c)) (\<lambda>c.
     bindS (liftS (response_to_json js hl (ec_response c))) (\<lambda>json.
     returnS (Inr \<lparr>ha_content_type = kApplicationJson, ha_body = ToString js json\<rparr>)))))"

section \<open>Evaluation rules\<close>

lemma andS_Inr [outcome_simps]: "m s = (Ret (Inr x), t) \<Longrightarrow> andS m f s = f x t"
  and andS_Inl [outcome_simps]: "m s = (Ret (Inl e), t) \<Longrightarrow> andS m f s = (Ret (Inl e), t)"
  and andS_Throw [outcome_simps]: "m s = (Throw x, t) \<Longrightarrow> andS m f s = (Throw x, t)"
  and andS_LuaJump [outcome_simps]: "m s = (LuaJump y, t) \<Longrightarrow> andS m f s = (LuaJump y, t)"
  and andS_Crash [outcome_simps]: "m s = (Crash z, t) \<Longrightarrow> andS m f s = (Crash z, t)"
  and andS_NoFuel [outcome_simps]: "m s = (NoFuel, t) \<Longrightarrow> andS m f s = (NoFuel, t)"
  by (simp_all add: andS_def outcome_simps)

lemma execute_script_eq:
  "execute_script ex script c w =
     (case ExecuteScript ex (Some script) (c, w) of
        (Ret _, (c', w')) \<Rightarrow> (Ret (Inr c'), w')
      | (Throw e, (c', w')) \<Rightarrow> (Ret (Inl (execution_error e)), w')
      | (LuaJump m, (c', w')) \<Rightarrow> (LuaJump m, w')
      | (Crash x, (c', w')) \<Rightarrow> (Crash x, w')
      | (NoFuel, (c', w')) \<Rightarrow> (NoFuel, w'))"
  by (auto simp: execute_script_def outcome_simps split: prod.splits outcome.splits)

section \<open>The requests the handler builds\<close>

context message_env
begin

lemma emplace_members_keeps:
  assumes "\<And>k v m. P m \<Longrightarrow> P (ins k v m)" and "P m" and "emplace_members js ins ms m = Ret m'"
  shows "P m'"
  using assms(2,3)
proof (induction ms arbitrary: m)
  case (Cons p ms)
  obtain k v where "emplace_members js ins ms (ins k v m) = Ret m'"
    using Cons.prems(2) by (cases p) (auto simp: bindO_Ret_iff)
  with Cons.IH assms(1) Cons.prems(1) show ?case by blast
qed simp

lemma populate_message_headers:
  assumes "populate_message_from_json js hl r json = Ret r'"
  shows "\<exists>h. msg_headers r' = Some h \<and> names_distinct hl canon h"
proof -
  obtain has h b where hs: "(if has then bindO (At js (Some json) ''headers'') (\<lambda>hs.
        bindO (Members js hs) (\<lambda>ms. emplace_members js (HmEmplace hl) ms (HmEmpty hl))) else Ret (HmEmpty hl)) = Ret h"
    and r': "r' = r\<lparr>msg_body := b, msg_headers := Some h\<rparr>"
    using assms unfolding populate_message_from_json_def bindO_Ret_iff by blast
  have "msg_headers r' = Some h" by (simp add: r')
  moreover have "names_distinct hl canon h"
  proof (cases has)
    case True
    then obtain ms where "emplace_members js (HmEmplace hl) ms (HmEmpty hl) = Ret h" using hs by (auto simp: bindO_Ret_iff)
    then show ?thesis
      by (rule emplace_members_keeps [where P = "names_distinct hl canon", rotated 2])
        (simp_all add: names_distinct_emplace names_distinct_empty)
  next
    case False
    with hs names_distinct_empty show ?thesis by auto
  qed
  ultimately show ?thesis by blast
qed

lemma request_from_json_ok:
  assumes "request_from_json js hl ht reh json = Ret r"
  shows "\<exists>h q. msg_headers r = Some h \<and> req_query r = Some q \<and> names_distinct hl canon h \<and> um_ok q"
proof -
  obtain r0 m u has q where r0: "populate_message_from_json js hl (new_request kGet) json = Ret r0"
    and q: "(if has then bindO (At js (Some json) ''query'') (\<lambda>q.
        bindO (Members js q) (\<lambda>ms. emplace_members js (um_emplace reh) ms [])) else Ret []) = Ret q"
    and r: "r = r0\<lparr>req_method := m, req_url := u, req_query := Some q\<rparr>"
    using assms unfolding request_from_json_def bindO_Ret_iff by blast
  have "um_ok q"
  proof (cases has)
    case True
    then obtain ms where "emplace_members js (um_emplace reh) ms [] = Ret q" using q by (auto simp: bindO_Ret_iff)
    then show ?thesis
      by (rule emplace_members_keeps [where P = um_ok, rotated 2]) (simp_all add: um_ok_emplace [OF rehash_permutes])
  next
    case False
    with q show ?thesis by simp
  qed
  with populate_message_headers [OF r0] show ?thesis by (auto simp: r)
qed

end

section \<open>The stages of a request\<close>

text \<open>The request a body describes, and the context it is executed in.\<close>

definition reads_request ::
  "'d json_lib \<Rightarrow> 'h header_lib \<Rightarrow> http_lib \<Rightarrow> (string, string) rehash \<Rightarrow> string \<Rightarrow> 'h request outcome" where
  "reads_request js hl ht reh body = bindO (FromString js body) (request_from_json js hl ht reh)"

definition context_for :: "'h header_lib \<Rightarrow> milliseconds \<Rightarrow> 'h request \<Rightarrow> 'h execution_context" where
  "context_for hl junk r = set_options \<lparr>eo_timeout = kDefaultExecutionTimeout, eo_memory_limit = kDefaultMemoryLimit\<rparr>
     (new_execution_context junk r (response_default hl))"

definition message_body :: "'d json_lib \<Rightarrow> string \<Rightarrow> string" where
  "message_body js m = ToString js (JObj [(''message'', JStr m)])"

text \<open>The handler over a storage that answers, a JSON library that keeps its laws, and any executor.\<close>

context message_env
begin

lemma rethrow_eq:
  "rethrow_with_external_message js err m s = (Ret (Inl (err (message_body js m))), s)"
  by (simp add: rethrow_with_external_message_def EmplaceNocheck_null outcome_simps message_body_def)

lemma get_script_by_id_bad_id:
  "lexical_cast path_id = Throw e \<Longrightarrow> get_script_by_id js lexical_cast get path_id s =
     (Ret (Inl (ClientError (message_body js ''Incorrect script ID''))), s)"
  by (simp add: get_script_by_id_def rethrow_eq handler_defs)

lemma get_script_by_id_eq:
  assumes "lexical_cast path_id = Ret i" and "answersS (get i s)"
  shows "get_script_by_id js lexical_cast get path_id s =
    (case get i s of
       (Ret script, t) \<Rightarrow> (Ret (Inr script), t)
     | (Throw e, t) \<Rightarrow> (Ret (Inl (case e of
           NotFoundScriptError m \<Rightarrow> ResourceNotFound (Some (message_body js (c_str m)))
         | _ \<Rightarrow> InternalServerError)), t)
     | (LuaJump m, t) \<Rightarrow> (LuaJump m, t) | (Crash z, t) \<Rightarrow> (Crash z, t) | (NoFuel, t) \<Rightarrow> (NoFuel, t))"
  using assms(2)
  by (rule answersS_cases) (auto simp: get_script_by_id_def assms(1) handler_defs rethrow_eq split: cpp_exn.split)

lemma reads_request_answers: "answers (reads_request js hl ht reh body)"
  unfolding reads_request_def using FromString_answers [of body] request_from_json_answers by blast

lemma build_execution_context_eq:
  "build_execution_context js hl ht reh junk body s =
     (Ret (case reads_request js hl ht reh body of
        Ret r \<Rightarrow> Inr (context_for hl junk r)
      | Throw e \<Rightarrow> Inl (ClientError (message_body js (c_str (what e))))), s)"
  using reads_request_answers [of body]
  by (auto simp: answers_def throws_std_def build_execution_context_def handler_defs rethrow_eq context_for_def
      simp flip: reads_request_def)

lemma handle_bad_id:
  assumes "lexical_cast path_id = Throw e"
  shows "handle_request_throw js hl ht reh junk lexical_cast get ex path_id body (w, st)
    = (Ret (Inl (ClientError (message_body js ''Incorrect script ID''))), (w, st))"
proof -
  have "get_script_by_id js lexical_cast get path_id (w, st)
      = (Ret (Inl (ClientError (message_body js ''Incorrect script ID''))), (w, st))"
    by (rule get_script_by_id_bad_id [of lexical_cast path_id e]) (rule assms)
  then show ?thesis by (simp add: handle_request_throw_def handler_defs)
qed

lemma handle_no_script:
  assumes "lexical_cast path_id = Ret i" and "get i (w, st) = (Throw e, t)" and "is_std_exception e"
  shows "handle_request_throw js hl ht reh junk lexical_cast get ex path_id body (w, st)
    = (Ret (Inl (case e of
         NotFoundScriptError m \<Rightarrow> ResourceNotFound (Some (message_body js (c_str m)))
       | _ \<Rightarrow> InternalServerError)), t)"
proof -
  have "get_script_by_id js lexical_cast get path_id (w, st) = (Ret (Inl (case e of
         NotFoundScriptError m \<Rightarrow> ResourceNotFound (Some (message_body js (c_str m)))
       | _ \<Rightarrow> InternalServerError)), t)"
    using get_script_by_id_eq [of lexical_cast path_id i get "(w, st)"] assms by simp
  then show ?thesis by (simp add: handle_request_throw_def handler_defs)
qed

lemma handle_rejects:
  assumes "lexical_cast path_id = Ret i" and "get i (w, st) = (Ret script, (w1, st1))" and "reads_request js hl ht reh body = Throw e"
  shows "handle_request_throw js hl ht reh junk lexical_cast get ex path_id body (w, st)
    = (Ret (Inl (ClientError (message_body js (c_str (what e))))), (w1, st1))"
proof -
  have "get_script_by_id js lexical_cast get path_id (w, st) = (Ret (Inr script), (w1, st1))"
    using get_script_by_id_eq [of lexical_cast path_id i get "(w, st)"] assms(1,2) by simp
  then show ?thesis by (simp add: handle_request_throw_def handler_defs build_execution_context_eq assms(3))
qed

lemma handle_executes:
  assumes "lexical_cast path_id = Ret i" and "get i (w, st) = (Ret script, (w1, st1))" and "reads_request js hl ht reh body = Ret r"
  shows "handle_request_throw js hl ht reh junk lexical_cast get ex path_id body (w, st) =
    (case ExecuteScript ex (Some script) (context_for hl junk r, w1) of
       (Ret _, (c, w2)) \<Rightarrow>
         (bindO (response_to_json js hl (ec_response c))
           (\<lambda>json. Ret (Inr \<lparr>ha_content_type = kApplicationJson, ha_body = ToString js json\<rparr>)), (w2, st1))
     | (Throw e, (c, w2)) \<Rightarrow> (Ret (Inl (execution_error e)), (w2, st1))
     | (LuaJump m, (c, w2)) \<Rightarrow> (LuaJump m, (w2, st1))
     | (Crash x, (c, w2)) \<Rightarrow> (Crash x, (w2, st1))
     | (NoFuel, (c, w2)) \<Rightarrow> (NoFuel, (w2, st1)))"
proof -
  have id: "get_script_by_id js lexical_cast get path_id (w, st) = (Ret (Inr script), (w1, st1))"
    using get_script_by_id_eq [of lexical_cast path_id i get "(w, st)"] assms(1,2) by simp
  obtain x c w2 where ex: "ExecuteScript ex (Some script) (context_for hl junk r, w1) = (x, (c, w2))" by (metis surj_pair)
  have "firstS (execute_script ex script (context_for hl junk r)) (w1, st1) =
      ((case x of Ret _ \<Rightarrow> Ret (Inr c) | Throw e \<Rightarrow> Ret (Inl (execution_error e)) | LuaJump m \<Rightarrow> LuaJump m
        | Crash z \<Rightarrow> Crash z | NoFuel \<Rightarrow> NoFuel), (w2, st1))"
    by (simp add: firstS_def execute_script_eq ex split: outcome.split)
  with id ex show ?thesis
    by (cases x; cases "response_to_json js hl (ec_response c)")
      (simp_all add: handle_request_throw_def handler_defs build_execution_context_eq assms(3))
qed

lemma context_for_ok:
  assumes "reads_request js hl ht reh body = Ret r"
  shows "context_ok hl canon (context_for hl junk r)"
proof -
  obtain json where "request_from_json js hl ht reh json = Ret r"
    using assms by (auto simp: reads_request_def bindO_Ret_iff)
  from request_from_json_ok [OF this] show ?thesis
    by (auto simp: context_ok_def context_for_def set_options_def new_execution_context_def response_default_def
        populate_message_default_def names_distinct_empty)
qed

end

section \<open>The service\<close>

text \<open>A handler with its storage and its executor, each by its contract.\<close>

locale handler_env =
  message_env js num_ok hl canon ht reh + scripts_storage_env ft cp lang lru contents capacity ok
  + executor_contract ex lang fits
  for js :: "'d json_lib" and num_ok and hl :: "'h header_lib" and canon ht reh
    and ft :: "'w fetcher_base" and cp :: "'x compiler_base" and lang
    and lru :: "('x, 'c) script_lru" and contents capacity ok
    and ex :: "('x, 'h, 'w) executor_base" and fits +
  fixes lexical_cast :: "string \<Rightarrow> script_id outcome" and junk :: milliseconds
  assumes lexical_cast_answers: "answersO (lexical_cast path_id)"
begin

abbreviation handle :: "string \<Rightarrow> string \<Rightarrow> ('w \<times> 'c scripts_storage, handler_error + http_answer) action" where
  "handle \<equiv> handle_request_throw js hl ht reh junk lexical_cast (scripts_get ft cp lru) ex"

abbreviation store_ok :: "'c scripts_storage \<Rightarrow> bool" where
  "store_ok st \<equiv> ss_use_cache st \<longrightarrow> cache_inv lang contents ok st"

lemma get_keeps_store:
  assumes "store_ok st" and get: "scripts_get ft cp lru i (w, st) = (r, (w', st'))"
  shows "store_ok st' \<and> ss_use_cache st' = ss_use_cache st \<and> answersO r \<and> (\<forall>s. r = Ret s \<longrightarrow> stamped lang i s)"
proof (cases "ss_use_cache st")
  case True
  with get_keeps_inv [OF _ True get] assms(1) show ?thesis by blast
next
  case False
  with get scripts_get_uncached [OF False] have "load_script ft cp i w = (r, w')" "st' = st"
    by (auto simp: firstS_def split: prod.splits)
  with False load_script_answers [of i w] load_script_stamped [of i w] show ?thesis by (auto simp: answersS_def)
qed

lemma handle_answers:
  assumes "store_ok st"
    and fits: "\<And>i s w1 st1 rq. lexical_cast path_id = Ret i \<Longrightarrow> scripts_get ft cp lru i (w, st) = (Ret s, (w1, st1))
      \<Longrightarrow> reads_request js hl ht reh body = Ret rq \<Longrightarrow> fits s (context_for hl junk rq) w1"
  shows "\<exists>r w' st'. handle path_id body (w, st) = (Ret r, (w', st')) \<and> store_ok st' \<and> ss_use_cache st' = ss_use_cache st"
proof (cases "lexical_cast path_id")
  case (Throw e)
  have "handle path_id body (w, st) = (Ret (Inl (ClientError (message_body js ''Incorrect script ID''))), (w, st))"
    by (rule handle_bad_id) (rule Throw)
  with assms(1) show ?thesis by auto
next
  case (Ret i)
  obtain r w1 st1 where get: "scripts_get ft cp lru i (w, st) = (r, (w1, st1))" by (metis surj_pair)
  note inv = get_keeps_store [OF assms(1) get]
  consider (ret) s where "r = Ret s" "sb_language s = lang" | (throw) e where "r = Throw e" "is_std_exception e"
    using inv by (auto simp: answersO_def stamped_def)
  then show ?thesis
  proof cases
    case throw
    from handle_no_script [of lexical_cast path_id i "scripts_get ft cp lru" w st e, OF Ret get [unfolded throw(1)] throw(2)] inv
    show ?thesis by blast
  next
    case (ret s)
    have "answers (reads_request js hl ht reh body)" by (rule reads_request_answers)
    then consider (bad) e where "reads_request js hl ht reh body = Throw e" | (good) rq where "reads_request js hl ht reh body = Ret rq"
      by (auto simp: answers_def throws_std_def)
    then show ?thesis
    proof cases
      case bad
      from handle_rejects [of lexical_cast path_id i "scripts_get ft cp lru" w st s w1 st1, OF Ret get [unfolded ret(1)] bad] inv show ?thesis by blast
    next
      case (good rq)
      have ok: "context_ok hl canon (context_for hl junk rq)" by (rule context_for_ok [OF good])
      obtain x c w2 where run: "ExecuteScript ex (Some s) (context_for hl junk rq, w1) = (x, (c, w2))" by (metis surj_pair)
      from Execute_returns_or_throws [OF ret(2) context_ok_complete [OF ok] fits [OF Ret get [unfolded ret(1)] good]]
        handle_executes [of lexical_cast path_id i "scripts_get ft cp lru" w st s w1 st1, OF Ret get [unfolded ret(1)] good, of junk ex] run inv show ?thesis
        by (cases x) (auto simp: response_to_json_written split: option.splits)
    qed
  qed
qed (use lexical_cast_answers [of path_id] in simp_all)

end

text \<open>The service with the stub engine over the reference database and cache.\<close>

definition ref_lexical_cast :: "string \<Rightarrow> script_id outcome" where
  "ref_lexical_cast s = (if s = ''7'' then Ret 7 else if s = ''8'' then Ret 8 else Throw (StdException ''bad lexical cast''))"

interpretation stub_service: handler_env ref_json "\<lambda>_. True" ref_headers lower ref_http "\<lambda>m. m"
  "db_scripts_fetcher ref_pg" "stub_compiler junk" StubLanguage ref_lru "\<lambda>(n, es). map_of es" fst ref_lru_ok
  stub_executor "\<lambda>s c w. True" ref_lexical_cast ms for junk ms
proof (intro handler_env.intro scripts_storage_env.intro rm.message_env_axioms rp.fetch.fetcher_contract_axioms
    stub_cp.compiler_contract_axioms rlru.lru_laws_axioms stub_executor_contract)
  show "handler_env_axioms ref_lexical_cast"
    by (simp add: handler_env_axioms_def ref_lexical_cast_def)
qed

section \<open>The errors of the service\<close>

definition stub_storage :: "(script_id, stub_script) recency_list scripts_storage" where
  "stub_storage = new_scripts_storage ref_lru 2"

lemma stub_storage_inv: "cache_inv StubLanguage (\<lambda>(n, es). map_of es) ref_lru_ok stub_storage"
  using stub_service.new_storage_inv [of 2] by (simp add: stub_storage_def)

text \<open>
  C13. The errors of the handler. An identifier that is not a number is a client error; an
  unknown script is \<open>ResourceNotFound\<close> with the message of the storage and any other failure
  to get it an internal error; a body that is not a request is a client error with the reason;
  and whatever the execution throws, a timeout included, is an internal error, unless it is
  \<open>NotFoundScriptError\<close>.
\<close>

theorem request_errors:
  assumes "message_env js num_ok hl canon ht reh"
  shows "(\<forall>e. lexical_cast path_id = Throw e \<longrightarrow>
      handle_request_throw js hl ht reh junk lexical_cast get ex path_id body (w, st)
        = (Ret (Inl (ClientError (message_body js ''Incorrect script ID''))), (w, st)))
    \<and> (\<forall>i e t. lexical_cast path_id = Ret i \<and> get i (w, st) = (Throw e, t) \<and> is_std_exception e \<longrightarrow>
      handle_request_throw js hl ht reh junk lexical_cast get ex path_id body (w, st)
        = (Ret (Inl (case e of NotFoundScriptError m \<Rightarrow> ResourceNotFound (Some (message_body js (c_str m))) | _ \<Rightarrow> InternalServerError)), t))
    \<and> (\<forall>i script t e. lexical_cast path_id = Ret i \<and> get i (w, st) = (Ret script, t) \<and> reads_request js hl ht reh body = Throw e \<longrightarrow>
      handle_request_throw js hl ht reh junk lexical_cast get ex path_id body (w, st)
        = (Ret (Inl (ClientError (message_body js (c_str (what e))))), t))
    \<and> (\<forall>i script w1 st1 r e c w2. lexical_cast path_id = Ret i \<and> get i (w, st) = (Ret script, (w1, st1))
        \<and> reads_request js hl ht reh body = Ret r \<and> ExecuteScript ex (Some script) (context_for hl junk r, w1) = (Throw e, (c, w2)) \<longrightarrow>
      handle_request_throw js hl ht reh junk lexical_cast get ex path_id body (w, st)
        = (Ret (Inl (case e of NotFoundScriptError _ \<Rightarrow> ResourceNotFound None | _ \<Rightarrow> InternalServerError)), (w2, st1)))"
proof (intro conjI allI impI; (elim conjE)?)
  fix e assume "lexical_cast path_id = Throw e"
  then show "handle_request_throw js hl ht reh junk lexical_cast get ex path_id body (w, st)
        = (Ret (Inl (ClientError (message_body js ''Incorrect script ID''))), (w, st))"
    by (rule message_env.handle_bad_id [OF assms])
next
  fix i e t assume "lexical_cast path_id = Ret i" "get i (w, st) = (Throw e, t)" "is_std_exception e"
  then show "handle_request_throw js hl ht reh junk lexical_cast get ex path_id body (w, st)
        = (Ret (Inl (case e of NotFoundScriptError m \<Rightarrow> ResourceNotFound (Some (message_body js (c_str m))) | _ \<Rightarrow> InternalServerError)), t)"
    by (rule message_env.handle_no_script [OF assms])
next
  fix i script t e
  assume "lexical_cast path_id = Ret i" "get i (w, st) = (Ret script, t)" "reads_request js hl ht reh body = Throw e"
  then show "handle_request_throw js hl ht reh junk lexical_cast get ex path_id body (w, st)
        = (Ret (Inl (ClientError (message_body js (c_str (what e))))), t)"
    by (cases t) (auto intro: message_env.handle_rejects [OF assms])
next
  fix i script w1 st1 r e c w2
  assume "lexical_cast path_id = Ret i" "get i (w, st) = (Ret script, (w1, st1))" "reads_request js hl ht reh body = Ret r"
    and ex: "ExecuteScript ex (Some script) (context_for hl junk r, w1) = (Throw e, (c, w2))"
  from message_env.handle_executes [OF assms, of lexical_cast path_id i get w st script w1 st1 body r junk ex, OF this(1-3)] ex
  show "handle_request_throw js hl ht reh junk lexical_cast get ex path_id body (w, st)
        = (Ret (Inl (case e of NotFoundScriptError _ \<Rightarrow> ResourceNotFound None | _ \<Rightarrow> InternalServerError)), (w2, st1))"
    by (cases e) simp_all
qed

theorem request_errors_witness:
  "fst (handle_request_throw ref_json ref_headers ref_http (\<lambda>m. m) 0 ref_lexical_cast
      (scripts_get (db_scripts_fetcher ref_pg) (stub_compiler (0, 0)) ref_lru) stub_executor ''x'' [] (sample_db, stub_storage))
    = Ret (Inl (ClientError (message_body ref_json ''Incorrect script ID'')))"
proof -
  have "ref_lexical_cast ''x'' = Throw (StdException ''bad lexical cast'')" by (simp add: ref_lexical_cast_def)
  with request_errors [OF rm.message_env_axioms, of ref_lexical_cast "''x''" 0
      "scripts_get (db_scripts_fetcher ref_pg) (stub_compiler (0, 0)) ref_lru" stub_executor "[]" sample_db stub_storage]
  show ?thesis by auto
qed

end
