(* ===== verification/Service.thy ===== *)
theory Service
  imports Startup Execute_Lambda Instance_Registrator
begin

text \<open>
  The service as \<open>src/main.cpp\<close> puts it together: the components it registers, their constructors
  (\<open>components/*.cpp\<close> and the constructor in \<open>handlers/execute-lambda.cpp\<close>), and what they are
  when the process has started.
\<close>

section \<open>The component \<open>ScriptEngine\<close>\<close>

record ('x, 'h, 'w) script_engine_component =
  se_compiler :: "'x compiler_base"
  se_executor :: "('x, 'h, 'w) executor_base"

definition service_control :: "(memory_limit_checker, timeout_checker) execution_control_params" where
  "service_control =
     \<lparr>ep_memory_factory = memory_limit_checkers_factory, ep_memory_vt = memory_limit_checker_vt,
      ep_timeout_factory = timeout_checkers_factory, ep_timeout_vt = timeout_checker_vt\<rparr>"

definition service_deps ::
  "http_lib \<Rightarrow> ('h wire_request \<Rightarrow> ('w, 'h native_response) action) \<Rightarrow> 'w pg_cluster \<Rightarrow> ('h, 'w) extra_params" where
  "service_deps ht perform cluster =
     \<lparr>ep_http_client = Some (client_vt ht perform), ep_storage = Some (storage_vt cluster)\<rparr>"

text \<open>\<open>create\<close> is \<open>CreateScriptEngine\<close> of the engine the service is linked with.\<close>

definition new_script_engine_component ::
  "((memory_limit_checker, timeout_checker) execution_control_params \<Rightarrow> ('h, 'w) extra_params \<Rightarrow> ('x, 'h, 'w) script_engine_base)
    \<Rightarrow> http_lib \<Rightarrow> ('h wire_request \<Rightarrow> ('w, 'h native_response) action) \<Rightarrow> 'w pg_cluster
    \<Rightarrow> ('x, 'h, 'w) script_engine_component" where
  "new_script_engine_component create ht perform cluster =
     (let engine = create service_control (service_deps ht perform cluster)
      in \<lparr>se_compiler = CreateCompiler engine, se_executor = CreateExecutor engine\<rparr>)"

section \<open>Components\<close>

text \<open>
  A component of the framework is named by its class, one that is registered under a name of its
  own by that name too. The classes of the service are records of their members; \<open>storage_object\<close>
  is a \<open>ScriptsStorage\<close> with the fetcher and the compiler it was given.
\<close>

datatype component_id =
    Framework string
  | FrameworkAs string string
  | ScriptEngineId
  | ScriptsFetcherProviderId
  | ScriptsStorageProviderId
  | InstanceRegistratorId
  | ExecuteLambdaId

record 'w scripts_fetcher_component =
  fp_fetcher :: "'w fetcher_base"

record ('x, 'w, 'c) storage_object =
  so_fetcher :: "'w fetcher_base"
  so_compiler :: "'x compiler_base"
  so_storage :: "'c scripts_storage"

record ('x, 'w, 'c) scripts_storage_component =
  sp_storage :: "('x, 'w, 'c) storage_object"

record 'w registrator_component =
  ir_info :: instance_info
  ir_cluster :: "'w pg_cluster"

record ('x, 'h, 'w, 'c) execute_lambda =
  el_executor :: "('x, 'h, 'w) executor_base"
  el_scripts_storage :: "('x, 'w, 'c) storage_object"

datatype ('x, 'h, 'w, 'c) service_component =
    FrameworkObject
  | PostgresObject "'w pg_cluster"
  | HttpClientObject "'h wire_request \<Rightarrow> ('w, 'h native_response) action"
  | ScriptEngineObject "('x, 'h, 'w) script_engine_component"
  | ScriptsFetcherObject "'w scripts_fetcher_component"
  | ScriptsStorageObject "('x, 'w, 'c) scripts_storage_component"
  | InstanceObject "'w registrator_component"
  | HandlerObject "('x, 'h, 'w, 'c) execute_lambda"

type_synonym ('x, 'h, 'w, 'c) service_constructor = "(component_id, ('x, 'h, 'w, 'c) service_component) constructor"

text \<open>The list of \<open>main\<close>; \<open>minimal\<close> is \<open>MinimalServerComponentList\<close>.\<close>

definition component_list :: "component_id list \<Rightarrow> component_id list" where
  "component_list minimal =
     minimal @
     [Framework ''Ping'', Framework ''TestsControl'', Framework ''ServerMonitor'', Framework ''LogLevel'',
      Framework ''OnLogRotate'', Framework ''InspectRequests'', Framework ''DnsClientControl'',
      Framework ''DynamicDebugLog'', Framework ''clients::dns::Component'', Framework ''HttpClient'',
      Framework ''TestsuiteSupport'', FrameworkAs ''Postgres'' ''main-db'',
      ScriptEngineId, ScriptsFetcherProviderId, ScriptsStorageProviderId, InstanceRegistratorId,
      ExecuteLambdaId]"

section \<open>Constructors\<close>

text \<open>The lookups of a \<open>ComponentConfig\<close>, for each type that is asked for.\<close>

record component_config =
  AsConfigString :: "string \<Rightarrow> string outcome"
  AsConfigUint16 :: "string \<Rightarrow> uint16 outcome"
  AsConfigSize :: "string \<Rightarrow> size_t outcome"

text \<open>\<open>FindComponent\<close> throws when the component is not of the class that is asked for.\<close>

definition find_as ::
  "component_id \<Rightarrow> (('x, 'h, 'w, 'c) service_component \<Rightarrow> 'a option) \<Rightarrow> ('a \<Rightarrow> ('x, 'h, 'w, 'c) service_constructor)
    \<Rightarrow> ('x, 'h, 'w, 'c) service_constructor" where
  "find_as i cast k =
     FindComponent i (\<lambda>x. case cast x of Some y \<Rightarrow> k y | None \<Rightarrow> Construct (Throw (StdException ''unexpected component type'')))"

fun as_cluster :: "('x, 'h, 'w, 'c) service_component \<Rightarrow> 'w pg_cluster option" where
  "as_cluster (PostgresObject pg) = Some pg"
| "as_cluster _ = None"

fun as_http_client :: "('x, 'h, 'w, 'c) service_component \<Rightarrow> ('h wire_request \<Rightarrow> ('w, 'h native_response) action) option" where
  "as_http_client (HttpClientObject perform) = Some perform"
| "as_http_client _ = None"

fun as_script_engine :: "('x, 'h, 'w, 'c) service_component \<Rightarrow> ('x, 'h, 'w) script_engine_component option" where
  "as_script_engine (ScriptEngineObject e) = Some e"
| "as_script_engine _ = None"

fun as_fetcher :: "('x, 'h, 'w, 'c) service_component \<Rightarrow> 'w scripts_fetcher_component option" where
  "as_fetcher (ScriptsFetcherObject f) = Some f"
| "as_fetcher _ = None"

fun as_storage :: "('x, 'h, 'w, 'c) service_component \<Rightarrow> ('x, 'w, 'c) scripts_storage_component option" where
  "as_storage (ScriptsStorageObject s) = Some s"
| "as_storage _ = None"

definition main_db :: component_id where
  "main_db = FrameworkAs ''Postgres'' ''main-db''"

definition script_engine_constructor ::
  "((memory_limit_checker, timeout_checker) execution_control_params \<Rightarrow> ('h, 'w) extra_params \<Rightarrow> ('x, 'h, 'w) script_engine_base)
    \<Rightarrow> http_lib \<Rightarrow> ('x, 'h, 'w, 'c) service_constructor" where
  "script_engine_constructor create ht =
     find_as main_db as_cluster (\<lambda>cluster.
     find_as (Framework ''HttpClient'') as_http_client (\<lambda>client.
     Construct (Ret (ScriptEngineObject (new_script_engine_component create ht client cluster)))))"

definition kDBFetcher :: string where
  "kDBFetcher = ''db''"

definition scripts_fetcher_provider :: "component_config \<Rightarrow> ('x, 'h, 'w, 'c) service_constructor" where
  "scripts_fetcher_provider config =
     constructO (AsConfigString config ''fetcher-type'') (\<lambda>type.
     if type = kDBFetcher
     then
       find_as main_db as_cluster (\<lambda>cluster.
       Construct (Ret (ScriptsFetcherObject \<lparr>fp_fetcher = db_scripts_fetcher cluster\<rparr>)))
     else Construct (Throw (StdException (''Unknown scripts fetcher type (type = '' @ type @ '')''))))"

definition scripts_storage_provider :: "('x, 'c) script_lru \<Rightarrow> component_config \<Rightarrow> ('x, 'h, 'w, 'c) service_constructor" where
  "scripts_storage_provider lru config =
     find_as ScriptsFetcherProviderId as_fetcher (\<lambda>provider.
     find_as ScriptEngineId as_script_engine (\<lambda>engine.
     constructO (AsConfigSize config ''max-cache-size'') (\<lambda>max_cache_size.
     Construct (Ret (ScriptsStorageObject \<lparr>sp_storage =
       \<lparr>so_fetcher = fp_fetcher provider, so_compiler = se_compiler engine,
        so_storage = new_scripts_storage lru max_cache_size\<rparr>\<rparr>)))))"

definition instance_registrator_constructor :: "component_config \<Rightarrow> ('x, 'h, 'w, 'c) service_constructor" where
  "instance_registrator_constructor config =
     find_as main_db as_cluster (\<lambda>cluster.
     constructO (instance_registrator (AsConfigString config) (AsConfigUint16 config)) (\<lambda>info.
     Construct (Ret (InstanceObject \<lparr>ir_info = info, ir_cluster = cluster\<rparr>))))"

definition execute_lambda_constructor :: "('x, 'h, 'w, 'c) service_constructor" where
  "execute_lambda_constructor =
     find_as ScriptEngineId as_script_engine (\<lambda>engine.
     find_as ScriptsStorageProviderId as_storage (\<lambda>provider.
     Construct (Ret (HandlerObject \<lparr>el_executor = se_executor engine, el_scripts_storage = sp_storage provider\<rparr>))))"

text \<open>\<open>framework\<close> are the constructors of the framework's own components.\<close>

fun service_constructor ::
  "((memory_limit_checker, timeout_checker) execution_control_params \<Rightarrow> ('h, 'w) extra_params \<Rightarrow> ('x, 'h, 'w) script_engine_base)
    \<Rightarrow> http_lib \<Rightarrow> ('x, 'c) script_lru \<Rightarrow> (component_id \<Rightarrow> component_config)
    \<Rightarrow> (component_id \<Rightarrow> ('x, 'h, 'w, 'c) service_constructor) \<Rightarrow> component_id \<Rightarrow> ('x, 'h, 'w, 'c) service_constructor" where
  "service_constructor create ht lru config framework ScriptEngineId = script_engine_constructor create ht"
| "service_constructor create ht lru config framework ScriptsFetcherProviderId =
     scripts_fetcher_provider (config ScriptsFetcherProviderId)"
| "service_constructor create ht lru config framework ScriptsStorageProviderId =
     scripts_storage_provider lru (config ScriptsStorageProviderId)"
| "service_constructor create ht lru config framework InstanceRegistratorId =
     instance_registrator_constructor (config InstanceRegistratorId)"
| "service_constructor create ht lru config framework ExecuteLambdaId = execute_lambda_constructor"
| "service_constructor create ht lru config framework i = framework i"

section \<open>What the service relies on\<close>

fun is_framework :: "component_id \<Rightarrow> bool" where
  "is_framework (Framework _) = True"
| "is_framework (FrameworkAs _ _) = True"
| "is_framework _ = False"

lemma needs_find_as: "i \<in> S \<Longrightarrow> (\<And>y. needs S (k y)) \<Longrightarrow> needs S (find_as i cast k)"
  by (auto simp: find_as_def needs_simps split: option.split)

lemma builds_find_as:
  "i \<in> S \<Longrightarrow> cast (obj i) = Some y \<Longrightarrow> builds obj S (k y) x n \<Longrightarrow> builds obj S (find_as i cast k) x (Suc n)"
  by (simp add: find_as_def builds_simps)

lemma framework_constructor:
  "is_framework i \<Longrightarrow> service_constructor create ht lru config framework i = framework i"
  by (cases i) simp_all

text \<open>
  The components of the framework ask for each other only, without a cycle, and can be
  constructed; the configuration answers every lookup. \<open>fw_object\<close> is what they become.
\<close>

locale framework_laws =
  fixes framework :: "component_id \<Rightarrow> ('x, 'h, 'w, 'c) service_constructor" and minimal :: "component_id list"
    and config :: "component_id \<Rightarrow> component_config"
    and fw_rank :: "component_id \<Rightarrow> nat" and fw_object :: "component_id \<Rightarrow> ('x, 'h, 'w, 'c) service_component"
    and fw_finds :: "component_id \<Rightarrow> nat"
  assumes minimal: "i \<in> set minimal \<Longrightarrow> is_framework i"
    and fw_needs: "is_framework i \<Longrightarrow> i \<in> set (component_list minimal) \<Longrightarrow>
      needs {j. is_framework j \<and> fw_rank j < fw_rank i} (framework i)"
    and fw_builds: "is_framework i \<Longrightarrow> i \<in> set (component_list minimal) \<Longrightarrow>
      builds fw_object {j \<in> set (component_list minimal). is_framework j} (framework i) (fw_object i) (fw_finds i)"
    and config_answers: "answersO (AsConfigString (config i) s)" "answersO (AsConfigUint16 (config i) s)"
      "answersO (AsConfigSize (config i) s)"
begin

fun service_rank :: "component_id \<Rightarrow> nat" where
  "service_rank ScriptEngineId = Suc (Max (fw_rank ` set (component_list minimal)))"
| "service_rank ScriptsFetcherProviderId = Suc (Max (fw_rank ` set (component_list minimal)))"
| "service_rank InstanceRegistratorId = Suc (Max (fw_rank ` set (component_list minimal)))"
| "service_rank ScriptsStorageProviderId = 2 + Max (fw_rank ` set (component_list minimal))"
| "service_rank ExecuteLambdaId = 3 + Max (fw_rank ` set (component_list minimal))"
| "service_rank i = fw_rank i"

lemma fw_rank_below: "i \<in> set (component_list minimal) \<Longrightarrow> fw_rank i < Suc (Max (fw_rank ` set (component_list minimal)))"
  by (simp add: less_Suc_eq_le)

lemma service_rank_framework: "is_framework i \<Longrightarrow> service_rank i = fw_rank i"
  by (cases i) simp_all

lemma registered_framework:
  "main_db \<in> set (component_list minimal)" "Framework ''HttpClient'' \<in> set (component_list minimal)"
  "is_framework main_db"
  by (simp_all add: component_list_def main_db_def)

lemma registered_cases:
  assumes "i \<in> set (component_list minimal)"
  obtains "is_framework i" | "i = ScriptEngineId" | "i = ScriptsFetcherProviderId" | "i = ScriptsStorageProviderId"
    | "i = InstanceRegistratorId" | "i = ExecuteLambdaId"
  using that by (cases i) simp_all

end

sublocale framework_laws \<subseteq> ranked_components "component_list minimal"
  "service_constructor create ht lru config framework" service_rank
  for create :: "(memory_limit_checker, timeout_checker) execution_control_params \<Rightarrow> ('h, 'w) extra_params \<Rightarrow> ('x, 'h, 'w) script_engine_base"
    and ht and lru :: "('x, 'c) script_lru"
proof
  fix i assume i: "i \<in> set (component_list minimal)"
  let ?needs = "\<lambda>i. needs {j. service_rank j < service_rank i}"
  have db: "service_rank main_db < Suc (Max (fw_rank ` set (component_list minimal)))"
    "fw_rank (Framework ''HttpClient'') < Suc (Max (fw_rank ` set (component_list minimal)))"
    using fw_rank_below [OF registered_framework(1)] fw_rank_below [OF registered_framework(2)]
    by (simp_all add: main_db_def)
  from i show "?needs i (service_constructor create ht lru config framework i)"
  proof (cases rule: registered_cases)
    case 1
    have "{j. is_framework j \<and> fw_rank j < fw_rank i} \<subseteq> {j. service_rank j < service_rank i}"
      using 1 by (auto simp: service_rank_framework)
    with fw_needs [OF 1 i] 1 show ?thesis by (auto simp: framework_constructor intro: needs_mono)
  next
    case 2
    then show ?thesis
      by (auto simp: script_engine_constructor_def needs_simps db intro!: needs_find_as)
  next
    case 3
    then show ?thesis
      by (auto simp: scripts_fetcher_provider_def needs_simps db config_answers intro!: needs_find_as needs_constructO)
  next
    case 4
    then show ?thesis
      by (auto simp: scripts_storage_provider_def needs_simps config_answers intro!: needs_find_as needs_constructO)
  next
    case 5
    have "answersO (instance_registrator (AsConfigString (config i)) (AsConfigUint16 (config i)))"
      using config_answers(1) [of i "''hostname''"] config_answers(2) [of i "''port''"]
      by (auto simp: instance_registrator_def answersO_def)
    with 5 show ?thesis
      by (auto simp: instance_registrator_constructor_def needs_simps db intro!: needs_find_as needs_constructO)
  next
    case 6
    then show ?thesis
      by (auto simp: execute_lambda_constructor_def needs_simps intro!: needs_find_as)
  qed
qed

section \<open>The service when it has started\<close>

locale service_laws = framework_laws framework minimal config fw_rank fw_object fw_finds
  for framework :: "component_id \<Rightarrow> ('x, 'h, 'w, 'c) service_constructor" and minimal config fw_rank fw_object fw_finds +
  fixes cluster :: "'w pg_cluster" and client :: "'h wire_request \<Rightarrow> ('w, 'h native_response) action"
    and info :: instance_info and entries :: size_t
  assumes database: "fw_object main_db = PostgresObject cluster"
    and http: "fw_object (Framework ''HttpClient'') = HttpClientObject client"
    and fetcher_type: "AsConfigString (config ScriptsFetcherProviderId) ''fetcher-type'' = Ret ''db''"
    and cache_size: "AsConfigSize (config ScriptsStorageProviderId) ''max-cache-size'' = Ret entries"
    and instance_config: "AsConfigString (config InstanceRegistratorId) ''hostname'' = Ret (hostname info)"
      "AsConfigUint16 (config InstanceRegistratorId) ''port'' = Ret (port info)"

definition wired_storage ::
  "('x, 'h, 'w) script_engine_component \<Rightarrow> ('x, 'c) script_lru \<Rightarrow> 'w pg_cluster \<Rightarrow> size_t \<Rightarrow> ('x, 'w, 'c) storage_object" where
  "wired_storage engine lru cluster entries =
     \<lparr>so_fetcher = db_scripts_fetcher cluster, so_compiler = se_compiler engine, so_storage = new_scripts_storage lru entries\<rparr>"

fun service_object ::
  "('x, 'h, 'w) script_engine_component \<Rightarrow> ('x, 'c) script_lru \<Rightarrow> (component_id \<Rightarrow> ('x, 'h, 'w, 'c) service_component)
    \<Rightarrow> 'w pg_cluster \<Rightarrow> instance_info \<Rightarrow> size_t \<Rightarrow> component_id \<Rightarrow> ('x, 'h, 'w, 'c) service_component" where
  "service_object engine lru fw_object cluster info entries ScriptEngineId = ScriptEngineObject engine"
| "service_object engine lru fw_object cluster info entries ScriptsFetcherProviderId = ScriptsFetcherObject \<lparr>fp_fetcher = db_scripts_fetcher cluster\<rparr>"
| "service_object engine lru fw_object cluster info entries ScriptsStorageProviderId =
     ScriptsStorageObject \<lparr>sp_storage = wired_storage engine lru cluster entries\<rparr>"
| "service_object engine lru fw_object cluster info entries InstanceRegistratorId = InstanceObject \<lparr>ir_info = info, ir_cluster = cluster\<rparr>"
| "service_object engine lru fw_object cluster info entries ExecuteLambdaId =
     HandlerObject \<lparr>el_executor = se_executor engine, el_scripts_storage = wired_storage engine lru cluster entries\<rparr>"
| "service_object engine lru fw_object cluster info entries i = fw_object i"

fun service_finds :: "(component_id \<Rightarrow> nat) \<Rightarrow> component_id \<Rightarrow> nat" where
  "service_finds fw_finds ScriptEngineId = 2"
| "service_finds fw_finds ScriptsFetcherProviderId = 1"
| "service_finds fw_finds ScriptsStorageProviderId = 2"
| "service_finds fw_finds InstanceRegistratorId = 1"
| "service_finds fw_finds ExecuteLambdaId = 2"
| "service_finds fw_finds i = fw_finds i"

lemma service_object_framework:
  "is_framework i \<Longrightarrow> service_object engine lru fw_object cluster info entries i = fw_object i"
  "is_framework i \<Longrightarrow> service_finds fw_finds i = fw_finds i"
  by (cases i; simp)+

lemma builds_cong:
  "builds obj S c x n \<Longrightarrow> (\<And>i. i \<in> S \<Longrightarrow> obj' i = obj i) \<Longrightarrow> builds obj' S c x n"
  by (induction rule: builds.induct) (auto intro: builds.intros)

sublocale service_laws \<subseteq> startable_components "component_list minimal"
  "service_constructor create ht lru config framework" service_rank
  "service_object (new_script_engine_component create ht client cluster) lru fw_object cluster info entries" "service_finds fw_finds"
  for create :: "(memory_limit_checker, timeout_checker) execution_control_params \<Rightarrow> ('h, 'w) extra_params \<Rightarrow> ('x, 'h, 'w) script_engine_base"
    and ht and lru :: "('x, 'c) script_lru"
proof
  fix i assume i: "i \<in> set (component_list minimal)"
  let ?obj = "service_object (new_script_engine_component create ht client cluster) lru fw_object cluster info entries"
  let ?builds = "builds ?obj (set (component_list minimal))"
  have found: "?obj main_db = PostgresObject cluster" "?obj (Framework ''HttpClient'') = HttpClientObject client"
    using database http by (simp_all add: main_db_def)
  have registered: "ScriptEngineId \<in> set (component_list minimal)" "ScriptsFetcherProviderId \<in> set (component_list minimal)"
    "ScriptsStorageProviderId \<in> set (component_list minimal)"
    by (simp_all add: component_list_def)
  from i show "?builds (service_constructor create ht lru config framework i) (?obj i) (service_finds fw_finds i)"
  proof (cases rule: registered_cases)
    case 1
    have "builds ?obj {j \<in> set (component_list minimal). is_framework j} (framework i) (fw_object i) (fw_finds i)"
      using fw_builds [OF 1 i] by (rule builds_cong) (simp add: service_object_framework)
    with 1 show ?thesis
      by (auto simp: framework_constructor service_object_framework intro: builds_mono)
  next
    case 2
    then show ?thesis
      by (simp add: script_engine_constructor_def numeral_2_eq_2)
        (intro builds_find_as; simp add: registered_framework found http builds_simps)
  next
    case 3
    then show ?thesis
      by (simp add: scripts_fetcher_provider_def fetcher_type kDBFetcher_def constructO_def)
        (intro builds_find_as; simp add: registered_framework found builds_simps)
  next
    case 4
    then show ?thesis
      by (simp add: scripts_storage_provider_def numeral_2_eq_2)
        (rule builds_find_as, simp add: registered, simp, rule builds_find_as, simp add: registered, simp,
         simp add: cache_size constructO_def builds_simps wired_storage_def)
  next
    case 5
    then show ?thesis
      by (simp add: instance_registrator_constructor_def instance_registrator_def instance_config constructO_def)
        (intro builds_find_as; simp add: registered_framework found builds_simps)
  next
    case 6
    then show ?thesis
      by (simp add: execute_lambda_constructor_def numeral_2_eq_2)
        (rule builds_find_as, simp add: registered, simp, rule builds_find_as, simp add: registered, simp,
         simp add: builds_simps)
  qed
qed

context service_laws
begin

lemma start_ends:
  "\<exists>n st. start_reach n (start_state (component_list minimal) (service_constructor create ht lru config framework)) st
    \<and> (\<nexists>st'. start_step st st')"
  by (rule bounded_run_ends [OF start_finishes(1)])

lemma start_finishes_wired:
  assumes "start_reach n (start_state (component_list minimal) (service_constructor create ht lru config framework)) st"
  shows "n \<le> (\<Sum>i\<in>set (component_list minimal). Suc (service_finds fw_finds i))
    \<and> ((\<nexists>st'. start_step st st') \<longrightarrow> (\<forall>i\<in>set (component_list minimal). st i
      = Some (Ready (service_object (new_script_engine_component create ht client cluster) lru fw_object cluster info entries i))))"
  using start_finishes [OF assms] unfolding start_cost_def by blast

end

section \<open>A configuration the service cannot start with\<close>

text \<open>What becomes of the components that need the fetcher when there is none.\<close>

definition no_fetcher :: "cpp_exn \<Rightarrow> (component_id, ('x, 'h, 'w, 'c) service_component) component_map \<Rightarrow> bool" where
  "no_fetcher e st \<longleftrightarrow>
     st ScriptsFetcherProviderId \<in> {Some (Constructing (Construct (Throw e))), Some (Failed e)}
   \<and> (st ScriptsStorageProviderId = Some Cancelled
      \<or> (\<exists>k. st ScriptsStorageProviderId = Some (Constructing (FindComponent ScriptsFetcherProviderId k))))
   \<and> (st ExecuteLambdaId = Some Cancelled \<or> (\<exists>d. st ExecuteLambdaId = Some (Failed d))
      \<or> (\<exists>d. st ExecuteLambdaId = Some (Constructing (Construct (Throw d))))
      \<or> (\<exists>k. st ExecuteLambdaId = Some (Constructing (FindComponent ScriptsStorageProviderId k)))
      \<or> st ExecuteLambdaId = Some (Constructing execute_lambda_constructor))"

lemma no_fetcher_step:
  assumes "start_step st st'" and "no_fetcher e st"
  shows "no_fetcher e st'"
  using assms
  by (cases rule: start_step.cases)
    (auto simp: no_fetcher_def execute_lambda_constructor_def find_as_def split: option.splits)

context framework_laws
begin

lemma no_fetcher_reach:
  assumes "AsConfigString (config ScriptsFetcherProviderId) ''fetcher-type'' = Ret type" and "type \<noteq> kDBFetcher"
    and "start_reach n (start_state (component_list minimal) (service_constructor create ht lru config framework)) st"
  shows "no_fetcher (StdException (''Unknown scripts fetcher type (type = '' @ type @ '')'')) st"
  using assms(3)
proof (induction n arbitrary: st)
  case 0
  then have st: "st = start_state (component_list minimal) (service_constructor create ht lru config framework)" by simp
  show ?case
    unfolding st using assms(1,2)
    by (simp add: no_fetcher_def start_state_def component_list_def scripts_fetcher_provider_def constructO_def
        scripts_storage_provider_def find_as_def)
next
  case (Suc n)
  then show ?case by (auto intro: no_fetcher_step)
qed

lemma handler_of_started:
  assumes "start_reach n (start_state (component_list minimal) (service_constructor create ht lru config framework)) st"
    and "\<nexists>st'. start_step st st'"
  shows "st i \<noteq> Some (Constructing c)"
  using stuck_is_over [OF waits_down_reach [OF assms(1)] assms(2)] .

end

section \<open>A small framework\<close>

text \<open>The database and the HTTP client need the DNS client; the network is down.\<close>

definition offline :: "'h wire_request \<Rightarrow> ('w, 'h native_response) action" where
  "offline wr = throwS (StdException ''offline'')"

definition ref_framework :: "component_id \<Rightarrow> ('x, 'h, db_tables, 'c) service_constructor" where
  "ref_framework i =
     (if i = main_db then FindComponent (Framework ''clients::dns::Component'') (\<lambda>_. Construct (Ret (PostgresObject ref_pg)))
      else if i = Framework ''HttpClient''
      then FindComponent (Framework ''clients::dns::Component'') (\<lambda>_. Construct (Ret (HttpClientObject offline)))
      else Construct (Ret FrameworkObject))"

definition ref_framework_object :: "component_id \<Rightarrow> ('x, 'h, db_tables, 'c) service_component" where
  "ref_framework_object i =
     (if i = main_db then PostgresObject ref_pg
      else if i = Framework ''HttpClient'' then HttpClientObject offline
      else FrameworkObject)"

definition ref_framework_finds :: "component_id \<Rightarrow> nat" where
  "ref_framework_finds i = (if i = main_db \<or> i = Framework ''HttpClient'' then 1 else 0)"

definition ref_config :: "string \<Rightarrow> component_id \<Rightarrow> component_config" where
  "ref_config type i =
     \<lparr>AsConfigString = (\<lambda>name. if name = ''fetcher-type'' then Ret type else if name = ''hostname'' then Ret ''localhost''
        else Throw (StdException ''no such field'')),
      AsConfigUint16 = (\<lambda>name. if name = ''port'' then Ret 8080 else Throw (StdException ''no such field'')),
      AsConfigSize = (\<lambda>name. if name = ''max-cache-size'' then Ret 128 else Throw (StdException ''no such field''))\<rparr>"

lemma ref_framework_laws:
  "framework_laws ref_framework [] (ref_config type) ref_framework_finds ref_framework_object ref_framework_finds"
proof
  show "needs {j. is_framework j \<and> ref_framework_finds j < ref_framework_finds i} (ref_framework i)" for i
    by (simp add: ref_framework_def ref_framework_finds_def needs_simps main_db_def)
  show "builds ref_framework_object {j \<in> set (component_list []). is_framework j} (ref_framework i) (ref_framework_object i)
      (ref_framework_finds i)" for i
    by (simp add: ref_framework_def ref_framework_object_def ref_framework_finds_def builds_simps component_list_def main_db_def)
qed (simp_all add: ref_config_def)

interpretation rf: service_laws ref_framework "[]" "ref_config ''db''" ref_framework_finds ref_framework_object ref_framework_finds
  ref_pg offline "\<lparr>hostname = ''localhost'', port = 8080\<rparr>" 128
proof (intro service_laws.intro ref_framework_laws)
  show "service_laws_axioms (ref_config ''db'') ref_framework_object ref_pg offline \<lparr>hostname = ''localhost'', port = 8080\<rparr> 128"
    by (simp add: service_laws_axioms_def ref_framework_object_def ref_config_def main_db_def)
qed

definition ref_create ::
  "(memory_limit_checker, timeout_checker) execution_control_params \<Rightarrow> ((string \<times> string) list, db_tables) extra_params
    \<Rightarrow> (unit stub_script_ext, (string \<times> string) list, db_tables) script_engine_base" where
  "ref_create ctl deps = stub_script_engine (0, 0)"

section \<open>Properties\<close>

text \<open>
  C11. The service starts. Whatever the order in which the tasks of the constructors run, every
  run ends after a bounded number of steps, and when no task can go on every component has been
  constructed: the handler with the executor of the engine and with the storage that the provider
  made, the storage with the fetcher over the database and the compiler of the same engine.
\<close>

theorem service_starts:
  assumes "service_laws framework minimal config fw_rank fw_object fw_finds cluster client info entries"
    and "start_reach n (start_state (component_list minimal) (service_constructor create ht lru config framework)) st"
  shows "n \<le> (\<Sum>i\<in>set (component_list minimal). Suc (service_finds fw_finds i))
    \<and> ((\<nexists>st'. start_step st st') \<longrightarrow> (\<forall>i\<in>set (component_list minimal). st i
      = Some (Ready (service_object (new_script_engine_component create ht client cluster) lru fw_object cluster info entries i))))"
  using assms by (rule service_laws.start_finishes_wired)

text \<open>One complete start over the small framework: the longest run there is.\<close>

theorem service_starts_witness:
  "\<exists>n st. start_reach n (start_state (component_list []) (service_constructor ref_create ref_http ref_lru (ref_config ''db'') ref_framework)) st
    \<and> (\<nexists>st'. start_step st st')
    \<and> st ExecuteLambdaId = Some (Ready (HandlerObject
        \<lparr>el_executor = se_executor (new_script_engine_component ref_create ref_http offline ref_pg),
         el_scripts_storage = wired_storage (new_script_engine_component ref_create ref_http offline ref_pg) ref_lru ref_pg 128\<rparr>))"
proof -
  let ?s0 = "start_state (component_list []) (service_constructor ref_create ref_http ref_lru (ref_config ''db'') ref_framework)"
  note starts = service_starts [OF rf.service_laws_axioms, of _ ref_create ref_http ref_lru]
  have "\<exists>n st. start_reach n ?s0 st \<and> (\<nexists>st'. start_step st st')" by (rule rf.start_ends)
  then obtain n st where st: "start_reach n ?s0 st" "\<nexists>st'. start_step st st'" by blast
  have "ExecuteLambdaId \<in> set (component_list [])" by (simp add: component_list_def)
  from starts [OF st(1), THEN conjunct2, THEN mp, OF st(2), THEN bspec, OF this]
  have "st ExecuteLambdaId = Some (Ready (HandlerObject
      \<lparr>el_executor = se_executor (new_script_engine_component ref_create ref_http offline ref_pg),
       el_scripts_storage = wired_storage (new_script_engine_component ref_create ref_http offline ref_pg) ref_lru ref_pg 128\<rparr>))"
    unfolding service_object.simps(5) .
  with st show ?thesis by blast
qed

text \<open>
  C20. With another fetcher type than \<open>db\<close> in the configuration no request is ever served: the
  handler is never constructed, and when no task can go on the constructor of the fetcher
  provider has thrown.
\<close>

theorem unknown_fetcher_type_stops_the_start:
  assumes "framework_laws framework minimal config fw_rank fw_object fw_finds"
    and "AsConfigString (config ScriptsFetcherProviderId) ''fetcher-type'' = Ret type" and "type \<noteq> ''db''"
    and "start_reach n (start_state (component_list minimal) (service_constructor create ht lru config framework)) st"
  shows "(\<forall>x. st ExecuteLambdaId \<noteq> Some (Ready x))
    \<and> ((\<nexists>st'. start_step st st') \<longrightarrow> st ScriptsStorageProviderId = Some Cancelled
      \<and> st ScriptsFetcherProviderId = Some (Failed (StdException (''Unknown scripts fetcher type (type = '' @ type @ '')''))))"
  using framework_laws.no_fetcher_reach [OF assms(1,2) _ assms(4)] framework_laws.handler_of_started [OF assms(1,4)] assms(3)
  unfolding no_fetcher_def kDBFetcher_def execute_lambda_constructor_def find_as_def by fastforce

theorem unknown_fetcher_type_stops_the_start_witness:
  "\<exists>st. start_reach 1 (start_state (component_list [])
      (service_constructor ref_create ref_http ref_lru (ref_config ''http'') ref_framework)) st
    \<and> st ScriptsFetcherProviderId = Some (Failed (StdException ''Unknown scripts fetcher type (type = http)''))
    \<and> (\<forall>x. st ExecuteLambdaId \<noteq> Some (Ready x))"
proof -
  let ?s = "start_state (component_list [])
      (service_constructor ref_create ref_http ref_lru (ref_config ''http'') ref_framework)"
  let ?e = "StdException ''Unknown scripts fetcher type (type = http)''"
  have "?s ScriptsFetcherProviderId = Some (Constructing (Construct (Throw ?e)))"
    by (simp add: start_state_def component_list_def scripts_fetcher_provider_def constructO_def ref_config_def kDBFetcher_def)
  then have "start_step ?s (?s(ScriptsFetcherProviderId \<mapsto> Failed ?e))" by (rule thrown)
  then have run: "start_reach 1 ?s (?s(ScriptsFetcherProviderId \<mapsto> Failed ?e))" by (simp add: eq_OO)
  have "\<forall>x. (?s(ScriptsFetcherProviderId \<mapsto> Failed ?e)) ExecuteLambdaId \<noteq> Some (Ready x)"
    by (rule unknown_fetcher_type_stops_the_start [OF ref_framework_laws _ _ run, of "''http''", THEN conjunct1])
      (simp_all add: ref_config_def)
  with run show ?thesis by (intro exI [of _ "?s(ScriptsFetcherProviderId \<mapsto> Failed ?e)"]) simp
qed

end
