(* ===== verification/Project_Isolation.thy ===== *)
theory Project_Isolation
  imports Lua_Kv
begin

text \<open>
  Projects and the key-value storage: what the scripts of one project can reach through the object
  \<open>kv::Storage\<close> of \<open>modules/kv/storage.cpp\<close>, over any C API of Lua, so whatever a script does to the
  stack and to the values in between.
\<close>

section \<open>Calls that move the world along a relation\<close>

definition world_moves :: "('w \<Rightarrow> 'w \<Rightarrow> bool) \<Rightarrow> ('l \<times> 'w, 'a) action \<Rightarrow> bool" where
  "world_moves R m \<longleftrightarrow> (\<forall>l w. R w (snd (snd (m (l, w)))))"

lemma world_moves_basic:
  assumes "\<And>w. R w w"
  shows "world_moves R (returnS x)" and "world_moves R (liftS r)" and "world_moves R (jumpS m)" and "world_moves R (firstS a)"
  using assms by (simp_all add: world_moves_def outcome_simps firstS_def split: prod.split)

lemma world_moves_secondS: "(\<And>w. R w (snd (a w))) \<Longrightarrow> world_moves R (secondS a)"
  by (simp add: world_moves_def secondS_def split: prod.split) (metis snd_conv)

lemma world_moves_bindS:
  assumes "\<And>u v w. R u v \<Longrightarrow> R v w \<Longrightarrow> R u w" and "world_moves R m" and "\<And>x. world_moves R (f x)"
  shows "world_moves R (bindS m f)"
  unfolding world_moves_def
proof (intro allI)
  fix l w
  obtain r l1 w1 where m: "m (l, w) = (r, (l1, w1))" by (metis surj_pair)
  with assms(2) have "R w w1" by (metis world_moves_def snd_conv)
  moreover have "R w1 (snd (snd (f x (l1, w1))))" for x using assms(3) by (simp add: world_moves_def)
  ultimately show "R w (snd (snd (bindS m f (l, w))))"
    using m assms(1) by (cases r) (auto simp: bindS_def)
qed

lemma world_moves_thenS:
  assumes "\<And>u v w. R u v \<Longrightarrow> R v w \<Longrightarrow> R u w" and "world_moves R m" and "world_moves R k"
  shows "world_moves R (thenS m k)"
  unfolding thenS_def using assms by (intro world_moves_bindS)

lemma world_moves_catch_allS:
  assumes "\<And>u v w. R u v \<Longrightarrow> R v w \<Longrightarrow> R u w" and "world_moves R m" and "\<And>e. world_moves R (h e)"
  shows "world_moves R (catch_allS m h)"
  unfolding world_moves_def
proof (intro allI)
  fix l w
  obtain r l1 w1 where m: "m (l, w) = (r, (l1, w1))" by (metis surj_pair)
  with assms(2) have "R w w1" by (metis world_moves_def snd_conv)
  moreover have "R w1 (snd (snd (h e (l1, w1))))" for e using assms(3) by (simp add: world_moves_def)
  ultimately show "R w (snd (snd (catch_allS m h (l, w))))"
    using m assms(1) by (cases r) (auto simp: catch_allS_def)
qed

lemma bindS_Ret_cases:
  assumes "bindS m f s = (Ret y, u)"
  obtains x t where "m s = (Ret x, t)" "f x t = (Ret y, u)"
  using assms by (auto simp: bindS_def split: prod.splits outcome.splits)

section \<open>A script and the storage of its project\<close>

text \<open>
  A script calls the object as often as it likes, each time by the name of a member and with a
  state of Lua of its choice.
\<close>

fun kv_call ::
  "nat \<Rightarrow> 'd json_lib \<Rightarrow> ('d, 'L) lua_api \<Rightarrow> (storage_result \<Rightarrow> ('L, unit) action) \<Rightarrow> 'w storage_base \<Rightarrow> kv_method \<Rightarrow> 'L \<Rightarrow> 'w \<Rightarrow> 'w" where
  "kv_call fuel js api push kv (StoreMethod p) L w = snd (snd (store_method fuel js api kv p (L, w)))"
| "kv_call fuel js api push kv (GetMethod p) L w = snd (snd (get_method api push kv p (L, w)))"

fun kv_session ::
  "nat \<Rightarrow> 'd json_lib \<Rightarrow> ('d, 'L) lua_api \<Rightarrow> (storage_result \<Rightarrow> ('L, unit) action) \<Rightarrow> 'w storage_base \<Rightarrow> project_id
    \<Rightarrow> (string \<times> 'L) list \<Rightarrow> 'w \<Rightarrow> 'w" where
  "kv_session fuel js api push kv p [] w = w"
| "kv_session fuel js api push kv p ((name, L) # calls) w =
     kv_session fuel js api push kv p calls
       (case kv_get_value p name of None \<Rightarrow> w | Some m \<Rightarrow> kv_call fuel js api push kv m L w)"

context kv_storage_contract
begin

definition others_kept :: "size_t \<Rightarrow> 'w \<Rightarrow> 'w \<Rightarrow> bool" where
  "others_kept p u v \<longleftrightarrow> (\<forall>q k. q \<noteq> p \<longrightarrow> value_of v (q, k) = value_of u (q, k))"

lemma others_kept_refl: "others_kept p w w"
  and others_kept_trans: "others_kept p u v \<Longrightarrow> others_kept p v w \<Longrightarrow> others_kept p u w"
  by (simp_all add: others_kept_def)

lemma Store_keeps_others: "others_kept p w (snd (Store st p k v w))"
  using store_other [of p k v w "fst (Store st p k v w)" "snd (Store st p k v w)"] by (simp add: others_kept_def)

lemma Get_keeps_others: "others_kept p w (snd (Get st p k w))"
  using Get_frame [of p k w "fst (Get st p k w)" "snd (Get st p k w)"] by (simp add: others_kept_def)

lemmas others_intros = world_moves_basic [where R = "others_kept p" for p, OF others_kept_refl]
  world_moves_bindS [where R = "others_kept p" for p, OF others_kept_trans]
  world_moves_thenS [where R = "others_kept p" for p, OF others_kept_trans]
  world_moves_catch_allS [where R = "others_kept p" for p, OF others_kept_trans]
  world_moves_secondS [where R = "others_kept p" for p, OF Store_keeps_others]
  world_moves_secondS [where R = "others_kept p" for p, OF Get_keeps_others]

lemma store_method_keeps_others: "world_moves (others_kept p) (store_method fuel js api st p)"
  unfolding store_method_def
  by (auto intro!: others_intros split: option.split)

lemma get_method_keeps_others: "world_moves (others_kept p) (get_method api push st p)"
  unfolding get_method_def
  by (auto intro!: others_intros split: option.split)

lemma session_keeps_others: "others_kept p w (kv_session fuel js api push st p calls w)"
proof (induction calls arbitrary: w)
  case Nil
  then show ?case by (simp add: others_kept_refl)
next
  case (Cons c calls)
  obtain name L where c: "c = (name, L)" by (cases c)
  have "others_kept p w (case kv_get_value p name of None \<Rightarrow> w | Some m \<Rightarrow> kv_call fuel js api push st m L w)"
    using store_method_keeps_others [of p fuel js api] get_method_keeps_others [of p api push]
    by (auto simp: kv_get_value_def world_moves_def others_kept_refl)
  with Cons.IH show ?case unfolding c by (auto intro: others_kept_trans)
qed

lemma get_reads_own_project:
  fixes L :: 'l
  assumes "get_method api push st p (L, w) = (Ret (n, r), (L', w'))" and "\<not> sr_is_error r"
  shows "\<exists>k. value_of w (p, k) = Some (sr_value r)"
proof -
  have "\<exists>k L1 u. catch_allS
      (bindS (secondS (Get st p k)) (\<lambda>value. returnS \<lparr>sr_value = value, sr_is_error = False\<rparr>))
      (\<lambda>e. returnS \<lparr>sr_value = (if is_std_exception e then c_str (what e) else ''Unknow get error''), sr_is_error = True\<rparr>)
      (L1 :: 'l, w) = (Ret r, u)"
    using assms(1) unfolding get_method_def thenS_def
    by (auto simp: firstS_def getS_def jumpS_def liftS_def returnS_def split: if_splits option.splits prod.splits
        elim!: bindS_Ret_cases) (intro exI, assumption)
  then obtain k L1 u where "catch_allS
      (bindS (secondS (Get st p k)) (\<lambda>value. returnS \<lparr>sr_value = value, sr_is_error = False\<rparr>))
      (\<lambda>e. returnS \<lparr>sr_value = (if is_std_exception e then c_str (what e) else ''Unknow get error''), sr_is_error = True\<rparr>)
      (L1 :: 'l, w) = (Ret r, u)" by blast
  with assms(2) have "\<exists>w1. Get st p k w = (Ret (sr_value r), w1)"
    by (auto simp: catch_allS_def bindS_def secondS_def returnS_def split: prod.splits outcome.splits)
  with Get_returned show ?thesis by blast
qed

end

context postgres_laws
begin

lemma storage_keeps_contract: "kv_storage_contract (storage_vt pg) (\<lambda>w. db_values (tables w))"
  by (rule kv.kv_storage_contract_axioms)

lemma session_of_the_storage:
  "kv.others_kept p w (kv_session fuel js api push (storage_vt pg) p calls w)"
  and get_of_the_storage:
  "get_method api push (storage_vt pg) p (L, w) = (Ret (n, r), s) \<Longrightarrow> \<not> sr_is_error r
    \<Longrightarrow> \<exists>k. db_values (tables w) (p, k) = Some (sr_value r)"
  using kv.session_keeps_others kv.get_reads_own_project [of api push p L w n r "fst s" "snd s"] by auto

end

text \<open>
  C8. Scripts of one project never reach the values of another: after any calls of the storage
  object that the executor gives to a script of project \<open>p\<close>, with any states of Lua, every other
  project holds what it held, and a value that \<open>get\<close> returns is one of project \<open>p\<close>.
\<close>

theorem projects_are_isolated:
  assumes laws: "postgres_laws pg tables replica"
  shows "(\<forall>q k. q \<noteq> p \<longrightarrow> db_values (tables (kv_session fuel js api push (storage_vt pg) p calls w)) (q, k)
        = db_values (tables w) (q, k))
    \<and> (\<forall>L n r s. get_method api push (storage_vt pg) p (L, w) = (Ret (n, r), s) \<and> \<not> sr_is_error r
        \<longrightarrow> (\<exists>k. db_values (tables w) (p, k) = Some (sr_value r)))"
  using postgres_laws.session_of_the_storage [OF laws, of p w fuel js api push calls]
    postgres_laws.get_of_the_storage [OF laws, of api push p]
  by (simp add: kv_storage_contract.others_kept_def [OF postgres_laws.storage_keeps_contract [OF laws]]) blast

definition two_projects_db :: db_tables where
  "two_projects_db = kv_sample_db\<lparr>db_values := [(2, ''k'') \<mapsto> ''7'']\<rparr>"

theorem projects_are_isolated_witness:
  "db_values (kv_session 9 ref_json int_machine (\<lambda>_. m_push (LOther ''userdata'')) (storage_vt ref_pg) 1
      [(''store'', kv_sample), (''get'', kv_sample)] two_projects_db) (2, ''k'') = Some ''7''"
  using projects_are_isolated [OF rp.postgres_laws_axioms, THEN conjunct1, rule_format, of 2 1 "9::nat" ref_json
      int_machine "\<lambda>_. m_push (LOther ''userdata'')" "[(''store'', kv_sample), (''get'', kv_sample)]" two_projects_db "''k''"]
  by (simp add: two_projects_db_def del: kv_session.simps)

end
