(* ===== verification/Config_Schema.thy ===== *)
theory Config_Schema
  imports Service
begin

text \<open>
  The schemas of the configuration of the components, the functions \<open>GetStaticConfigSchema\<close> of
  \<open>components\<close>. The framework adds the properties of its base class to a schema, checks the
  configuration against the result, and then lets the constructor read it.
\<close>

section \<open>Schemas\<close>

datatype property_type = IntegerProperty | StringProperty

record schema_property =
  pr_name :: string
  pr_type :: property_type
  pr_description :: string

record config_schema =
  sc_description :: string
  sc_additional_properties :: bool
  sc_properties :: "schema_property list"

text \<open>\<open>merge\<close> is \<open>MergeSchemas<ComponentBase>\<close>.\<close>

definition scripts_fetcher_schema :: "(config_schema \<Rightarrow> config_schema) \<Rightarrow> config_schema" where
  "scripts_fetcher_schema merge = merge
     \<lparr>sc_description = ''The scripts fetcher provider component'', sc_additional_properties = False,
      sc_properties = [\<lparr>pr_name = ''fetcher-type'', pr_type = StringProperty, pr_description = ''The type of fetcher''\<rparr>]\<rparr>"

definition scripts_storage_schema :: "(config_schema \<Rightarrow> config_schema) \<Rightarrow> config_schema" where
  "scripts_storage_schema merge = merge
     \<lparr>sc_description = ''The scripts storage provider component'', sc_additional_properties = False,
      sc_properties = [\<lparr>pr_name = ''max-cache-size'', pr_type = IntegerProperty,
        pr_description = ''The maximum cache in memory scripts''\<rparr>]\<rparr>"

definition instance_registrator_schema :: "(config_schema \<Rightarrow> config_schema) \<Rightarrow> config_schema" where
  "instance_registrator_schema merge = merge
     \<lparr>sc_description = ''The instance of executor registrator'', sc_additional_properties = False,
      sc_properties =
        [\<lparr>pr_name = ''hostname'', pr_type = StringProperty, pr_description = ''The host on which the instance is running''\<rparr>,
         \<lparr>pr_name = ''port'', pr_type = StringProperty, pr_description = ''The port on which the instance is running''\<rparr>]\<rparr>"

section \<open>Configurations\<close>

datatype yaml_scalar = YamlInt int | YamlText string

type_synonym yaml_map = "(string \<times> yaml_scalar) list"

fun has_type :: "property_type \<Rightarrow> yaml_scalar \<Rightarrow> bool" where
  "has_type IntegerProperty (YamlInt n) \<longleftrightarrow> True"
| "has_type StringProperty (YamlText s) \<longleftrightarrow> True"
| "has_type _ _ \<longleftrightarrow> False"

definition is_numeral :: "string \<Rightarrow> bool" where
  "is_numeral s \<longleftrightarrow> s \<noteq> [] \<and> (\<forall>c \<in> set s. c \<in> set ''0123456789'')"

text \<open>
  \<open>valid\<close> is the check of the framework, \<open>config_of\<close> the lookups of a configuration that the
  constructors use.
\<close>

locale config_laws =
  fixes merge :: "config_schema \<Rightarrow> config_schema" and valid :: "config_schema \<Rightarrow> yaml_map \<Rightarrow> bool"
    and config_of :: "yaml_map \<Rightarrow> component_config"
  assumes merge_properties: "set (sc_properties s) \<subseteq> set (sc_properties (merge s))"
    and valid_declared: "distinct (map fst m) \<Longrightarrow>
      (\<And>k v. (k, v) \<in> set m \<Longrightarrow> \<exists>p \<in> set (sc_properties s). pr_name p = k \<and> has_type (pr_type p) v) \<Longrightarrow> valid s m"
    and text_string: "map_of m k = Some (YamlText t) \<Longrightarrow> AsConfigString (config_of m) k = Ret t"
    and text_uint16: "map_of m k = Some (YamlText t) \<Longrightarrow> \<not> is_numeral t \<Longrightarrow> \<exists>e. AsConfigUint16 (config_of m) k = Throw e"
    and int_size: "map_of m k = Some (YamlInt n) \<Longrightarrow> n < 0 \<Longrightarrow> \<exists>e. AsConfigSize (config_of m) k = Throw e"
begin

lemma schema_accepts:
  "valid (scripts_fetcher_schema merge) [(''fetcher-type'', YamlText t)]"
  "valid (scripts_storage_schema merge) [(''max-cache-size'', YamlInt n)]"
  "valid (instance_registrator_schema merge) [(''hostname'', YamlText h), (''port'', YamlText t)]"
  unfolding scripts_fetcher_schema_def scripts_storage_schema_def instance_registrator_schema_def
  by (rule valid_declared; force intro: rev_bexI [OF subsetD [OF merge_properties]])+

lemma port_that_is_no_number:
  assumes "\<not> is_numeral t"
  shows "\<exists>e. instance_registrator (AsConfigString (config_of [(''hostname'', YamlText h), (''port'', YamlText t)]))
    (AsConfigUint16 (config_of [(''hostname'', YamlText h), (''port'', YamlText t)])) = Throw e"
  using text_uint16 [of "[(''hostname'', YamlText h), (''port'', YamlText t)]" "''port''" t] assms
    text_string [of "[(''hostname'', YamlText h), (''port'', YamlText t)]" "''hostname''" h]
  by (auto simp: instance_registrator_def)

lemma fetcher_that_is_unknown:
  "t \<noteq> ''db'' \<Longrightarrow> scripts_fetcher_provider (config_of [(''fetcher-type'', YamlText t)])
      = Construct (Throw (StdException (''Unknown scripts fetcher type (type = '' @ t @ '')'')))"
  using text_string [of "[(''fetcher-type'', YamlText t)]" "''fetcher-type''" t]
  by (simp add: scripts_fetcher_provider_def constructO_def kDBFetcher_def)

end

section \<open>Reference instance\<close>

definition ref_valid :: "config_schema \<Rightarrow> yaml_map \<Rightarrow> bool" where
  "ref_valid s m \<longleftrightarrow> (\<forall>(k, v) \<in> set m. \<exists>p \<in> set (sc_properties s). pr_name p = k \<and> has_type (pr_type p) v)"

definition ref_config_of :: "yaml_map \<Rightarrow> component_config" where
  "ref_config_of m =
     \<lparr>AsConfigString = (\<lambda>k. case map_of m k of Some (YamlText t) \<Rightarrow> Ret t | _ \<Rightarrow> Throw (StdException ''type mismatch'')),
      AsConfigUint16 = (\<lambda>k. case map_of m k of
         Some (YamlInt n) \<Rightarrow> if 0 \<le> n \<and> n < 65536 then Ret (word_of_int n) else Throw (StdException ''out of range'')
       | _ \<Rightarrow> Throw (StdException ''type mismatch'')),
      AsConfigSize = (\<lambda>k. case map_of m k of
         Some (YamlInt n) \<Rightarrow> if 0 \<le> n \<and> n < 2 ^ 64 then Ret (word_of_int n) else Throw (StdException ''out of range'')
       | _ \<Rightarrow> Throw (StdException ''type mismatch''))\<rparr>"

interpretation rcfg: config_laws "\<lambda>s. s" ref_valid ref_config_of
  by unfold_locales (auto simp: ref_valid_def ref_config_of_def)

section \<open>What the schemas let through\<close>

text \<open>
  The schemas accept configurations that the constructors refuse: a port that is no number, a
  negative size of the cache, and a type of fetcher that does not exist. The check of the
  framework passes, and the start of the service ends with an exception.
\<close>

lemma schemas_accept_what_constructors_refuse:
  assumes "config_laws merge valid config_of"
  shows "valid (instance_registrator_schema merge) [(''hostname'', YamlText h), (''port'', YamlText ''http'')]
    \<and> (\<exists>e. instance_registrator (AsConfigString (config_of [(''hostname'', YamlText h), (''port'', YamlText ''http'')]))
        (AsConfigUint16 (config_of [(''hostname'', YamlText h), (''port'', YamlText ''http'')])) = Throw e)
    \<and> valid (scripts_storage_schema merge) [(''max-cache-size'', YamlInt (- 1))]
    \<and> (\<exists>e. AsConfigSize (config_of [(''max-cache-size'', YamlInt (- 1))]) ''max-cache-size'' = Throw e)
    \<and> valid (scripts_fetcher_schema merge) [(''fetcher-type'', YamlText ''file'')]
    \<and> (\<exists>e. scripts_fetcher_provider (config_of [(''fetcher-type'', YamlText ''file'')]) = Construct (Throw e))"
proof -
  have "\<not> is_numeral ''http''" by (simp add: is_numeral_def)
  then show ?thesis
    using config_laws.schema_accepts [OF assms] config_laws.port_that_is_no_number [OF assms]
      config_laws.int_size [OF assms, of "[(''max-cache-size'', YamlInt (- 1))]" "''max-cache-size''" "- 1"]
    by (simp add: config_laws.fetcher_that_is_unknown [OF assms])
qed

lemma schemas_accept_what_constructors_refuse_sample:
  "ref_valid (instance_registrator_schema (\<lambda>s. s)) [(''hostname'', YamlText ''a''), (''port'', YamlText ''http'')]"
  using schemas_accept_what_constructors_refuse [OF rcfg.config_laws_axioms] by blast

end
