(* ===== verification/Test_Mocks.thy ===== *)
theory Test_Mocks
  imports Lua_Kv Lua_Http_Client
begin

text \<open>
  The mocks of \<open>testutils/mocks\<close> that the tests of the modules use. A mock answers a call with the
  action that a test expects of it and records the call, so that the test can count the calls and
  look at their arguments.
\<close>

section \<open>Mocks\<close>

datatype storage_call = StoreCall size_t string string | GetCall size_t string

definition storage_mock ::
  "(string \<Rightarrow> string \<Rightarrow> unit outcome) \<Rightarrow> (string \<Rightarrow> string outcome) \<Rightarrow> storage_call list storage_base" where
  "storage_mock on_store on_get =
     \<lparr>Store = (\<lambda>p k v calls. (on_store k v, calls @ [StoreCall p k v])),
      Get = (\<lambda>p k calls. (on_get k, calls @ [GetCall p k]))\<rparr>"

definition client_mock :: "('h request \<Rightarrow> 'h response outcome) \<Rightarrow> ('h, 'h request list) client_base" where
  "client_mock on_send = \<lparr>Send = (\<lambda>r calls. (on_send r, calls @ [r]))\<rparr>"

text \<open>A call that a test does not expect.\<close>

definition unexpected_call :: "'a outcome" where
  "unexpected_call = Throw (StdException ''unexpected call'')"

lemma unexpected_call_throws [simp]: "throws_std unexpected_call"
  by (simp add: unexpected_call_def throws_std_def)

section \<open>The contracts they keep\<close>

definition stored_in :: "storage_call list \<Rightarrow> size_t \<times> string \<Rightarrow> string option" where
  "stored_in calls = fold (\<lambda>c m. case c of StoreCall p k v \<Rightarrow> m((p, k) \<mapsto> v) | GetCall p k \<Rightarrow> m) calls Map.empty"

lemma stored_in_simps [simp]:
  "stored_in (calls @ [StoreCall p k v]) = (stored_in calls)((p, k) \<mapsto> v)"
  "stored_in (calls @ [GetCall p k]) = stored_in calls"
  by (simp_all add: stored_in_def)

lemma answers_answersO: "answers r \<Longrightarrow> answersO r"
  by (auto simp: answers_def throws_std_def)

lemma throws_std_answersO: "throws_std r \<Longrightarrow> answersO r"
  by (auto simp: throws_std_def)

text \<open>A mock that is only asked to store, and one that is only asked to read.\<close>

lemma storing_mock_contract:
  assumes "\<And>k v. answers (on_store k v)" and "\<And>k. throws_std (on_get k)"
  shows "kv_storage_contract (storage_mock on_store on_get) stored_in"
proof
  fix p k v w
  show "answersS (Store (storage_mock on_store on_get) p k v w)" "answersS (Get (storage_mock on_store on_get) p k w)"
    using assms(1) [of k v] assms(2) [of k] by (simp_all add: storage_mock_def answers_answersO throws_std_answersO)
next
  have "\<not> on_get k = Ret v" for k v using assms(2) [of k] by (auto simp: throws_std_def)
  then show "Get (storage_mock on_store on_get) p k w = (Ret v, w') \<Longrightarrow> stored_in w (p, k) = Some v" for p k v w w'
    by (simp add: storage_mock_def)
qed (auto simp: storage_mock_def)

definition answered_by :: "(string \<Rightarrow> string outcome) \<Rightarrow> 'w \<Rightarrow> size_t \<times> string \<Rightarrow> string option" where
  "answered_by on_get w pk = (case on_get (snd pk) of Ret v \<Rightarrow> Some v | _ \<Rightarrow> None)"

lemma reading_mock_contract:
  assumes "\<And>k v. throws_std (on_store k v)" and "\<And>k. answers (on_get k)"
  shows "kv_storage_contract (storage_mock on_store on_get) (answered_by on_get)"
proof
  fix p k v w
  show "answersS (Store (storage_mock on_store on_get) p k v w)" "answersS (Get (storage_mock on_store on_get) p k w)"
    using assms(1) [of k v] assms(2) [of k] by (simp_all add: storage_mock_def answers_answersO throws_std_answersO)
next
  have "\<not> on_store k v = Ret ()" for k v using assms(1) [of k v] by (auto simp: throws_std_def)
  then show "Store (storage_mock on_store on_get) p k v w = (Ret (), w')
      \<Longrightarrow> answered_by on_get w' = (answered_by on_get w)((p, k) \<mapsto> v)" for p k v w w'
    by (simp add: storage_mock_def)
qed (auto simp: storage_mock_def answered_by_def fun_eq_iff)

lemma client_mock_contract: "(\<And>r. answers (on_send r)) \<Longrightarrow> http_client_contract (client_mock on_send)"
  by unfold_locales (simp add: client_mock_def answers_answersO)

end
