(* ===== verification/Kv_Tests.thy ===== *)
theory Kv_Tests
  imports Test_Mocks Http_Tests
begin

text \<open>
  The tests of the key-value module in \<open>src/src/ut/lua-executor-ut.cpp\<close>. A test is given the states of
  Lua in which its script calls the module and returns whether its assertions hold; what a script
  compares, it reads off the state that the call leaves. That the model passes the tests is shown
  for every API of Lua and every library that keeps its laws.
\<close>

section \<open>Calls of a script\<close>

definition kTestProjectId :: size_t where
  "kTestProjectId = 1"

text \<open>The calls of \<open>store\<close> one after another, and the states they leave.\<close>

fun run_stores ::
  "nat \<Rightarrow> 'd json_lib \<Rightarrow> ('d, 'L) lua_api \<Rightarrow> 'w storage_base \<Rightarrow> 'L list \<Rightarrow> 'w \<Rightarrow> 'L list \<times> 'w" where
  "run_stores fuel js api kv [] w = ([], w)"
| "run_stores fuel js api kv (L # Ls) w =
     (case store_method fuel js api kv kTestProjectId (L, w) of
        (Ret n, (L', w')) \<Rightarrow> (case run_stores fuel js api kv Ls w' of (Ms, u) \<Rightarrow> (L' # Ms, u))
      | (_, (_, w')) \<Rightarrow> ([], w'))"

text \<open>\<open>storage:get(key):as_...()\<close>: the states of both calls and the name of the cast.\<close>

fun run_reads ::
  "nat \<Rightarrow> 'd json_lib \<Rightarrow> (string \<Rightarrow> 'd outcome) \<Rightarrow> ('d, 'L) lua_api \<Rightarrow> (storage_result \<Rightarrow> ('L, unit) action) \<Rightarrow> 'w storage_base
    \<Rightarrow> (string \<times> 'L \<times> 'L) list \<Rightarrow> 'w \<Rightarrow> 'L list \<times> 'w" where
  "run_reads fuel js lexical_cast api push kv [] w = ([], w)"
| "run_reads fuel js lexical_cast api push kv ((cast, L, M) # rest) w =
     (case get_method api push kv kTestProjectId (L, w) of
        (Ret (n, r), (_, w')) \<Rightarrow>
          (case storage_result_get_value r cast of
             None \<Rightarrow> ([], w')
           | Some cm \<Rightarrow>
               (case result_cast_method fuel js lexical_cast api cm M of
                  (Ret k, M') \<Rightarrow>
                    (case run_reads fuel js lexical_cast api push kv rest w' of (Ms, u) \<Rightarrow> (M' # Ms, u))
                | _ \<Rightarrow> ([], w')))
      | (_, (_, w')) \<Rightarrow> ([], w'))"

section \<open>The tests\<close>

text \<open>\<open>KvStorageStore\<close>: the assertions of the mock on a value.\<close>

definition stored_as_expected :: "'d json_lib \<Rightarrow> string \<Rightarrow> string \<Rightarrow> bool outcome" where
  "stored_as_expected js key value =
     (if key = ''name'' then Ret (value = ''Test'')
      else if key = ''age'' then Ret (value = ''18.5'')
      else if key = ''is_male'' then Ret (value = ''false'')
      else if key = ''extra'' then
        bindO (FromString js value) (\<lambda>extra.
        bindO (string_at js (Some extra) ''field1'') (\<lambda>field1.
        bindO (At js (Some extra) ''field2'') (\<lambda>field2.
        bindO (At js (Some extra) ''flag'') (\<lambda>flag.
        Ret (field1 = ''some_data'' \<and> flag = Some (JBool True)
          \<and> field2 = Some (JArr [JNum (NumberOf js 1), JNum (NumberOf js 2), JNum (NumberOf js 3)]))))))
      else Ret False)"

definition test_kv_storage_store :: "nat \<Rightarrow> 'd json_lib \<Rightarrow> ('d, 'L) lua_api \<Rightarrow> 'L list \<Rightarrow> bool" where
  "test_kv_storage_store fuel js api Ls =
     (case run_stores fuel js api (storage_mock (\<lambda>key value. Ret ()) (\<lambda>key. unexpected_call)) Ls [] of
        (Ms, calls) \<Rightarrow> length Ms = 4 \<and> lua_isnil api 1 (hd Ms) \<and> length calls = 4
          \<and> (\<forall>c \<in> set calls. case c of
               StoreCall p key value \<Rightarrow> p = kTestProjectId \<and> stored_as_expected js key value = Ret True
             | GetCall p key \<Rightarrow> False))"

definition test_kv_storage_store_error :: "nat \<Rightarrow> 'd json_lib \<Rightarrow> ('d, 'L) lua_api \<Rightarrow> 'L \<Rightarrow> bool" where
  "test_kv_storage_store_error fuel js api L =
     (case run_stores fuel js api
             (storage_mock (\<lambda>key value. Throw (StdException ''Some store error'')) (\<lambda>key. unexpected_call)) [L] [] of
        (Ms, calls) \<Rightarrow> map (\<lambda>M. fst (lua_tostring api 1 M)) Ms = [Ret (Some ''Some store error'')] \<and> length calls = 1)"

text \<open>
  \<open>KvStorageGet\<close>: what the mock answers, and what the script compares. \<open>d\<close> is the number \<open>3.14\<close>,
  \<open>e\<close> the number \<open>18.5\<close>.
\<close>

definition kv_answer :: "'d json_lib \<Rightarrow> 'd \<Rightarrow> string \<Rightarrow> string outcome" where
  "kv_answer js d key =
     (if key = ''name'' then Ret ''Test''
      else if key = ''age'' then Ret ''18.5''
      else if key = ''is_male'' then Ret ''true''
      else if key = ''extra'' then
        bindO (EmplaceNocheck js ''field1'' (JStr ''some_data'') JNull) (\<lambda>builder.
        bindO (EmplaceNocheck js ''field2'' (JNum d) builder) (\<lambda>builder.
        bindO (PushBack js (JStr ''first'') JNull) (\<lambda>array.
        bindO (PushBack js (JStr ''second'') array) (\<lambda>array.
        bindO (EmplaceNocheck js ''array'' array builder) (\<lambda>builder.
        Ret (ToString js builder))))))
      else Throw (StdException ''No value with such key''))"

text \<open>The index operator of Lua on the values of a state.\<close>

definition index :: "'d lua_view \<Rightarrow> 'd lval \<Rightarrow> 'd lval \<Rightarrow> 'd lval" where
  "index v t k = (case t of LTab a \<Rightarrow> table_get k (tabs v ! a) | _ \<Rightarrow> LNil)"

definition first_result :: "'d lua_view \<Rightarrow> 'd lval" where
  "first_result v = (case stk v of [y, x] \<Rightarrow> x | _ \<Rightarrow> LNil)"

definition test_kv_storage_get ::
  "nat \<Rightarrow> 'd json_lib \<Rightarrow> (string \<Rightarrow> 'd outcome) \<Rightarrow> ('d, 'L) lua_api \<Rightarrow> (storage_result \<Rightarrow> ('L, unit) action) \<Rightarrow> ('L \<Rightarrow> 'd lua_view)
    \<Rightarrow> 'd \<Rightarrow> 'd \<Rightarrow> ('L \<times> 'L) list \<Rightarrow> bool" where
  "test_kv_storage_get fuel js lexical_cast api push view d e Ls =
     (case run_reads fuel js lexical_cast api push (storage_mock (\<lambda>key value. unexpected_call) (kv_answer js d))
             (zip [''as_string'', ''as_number'', ''as_boolean'', ''as_table''] Ls) [] of
        ([A, B, C, D], calls) \<Rightarrow>
          (let extra = first_result (view D)
           in first_result (view A) = LStr ''Test'' \<and> first_result (view B) = LNum e \<and> first_result (view C) = LBool True
            \<and> index (view D) extra (LStr ''field1'') = LStr ''some_data'' \<and> index (view D) extra (LStr ''field2'') = LNum d
            \<and> index (view D) (index (view D) extra (LStr ''array'')) (LNum (NumberOf js 1)) = LStr ''first''
            \<and> index (view D) (index (view D) extra (LStr ''array'')) (LNum (NumberOf js 2)) = LStr ''second''
            \<and> length calls = 4 \<and> (\<forall>c \<in> set calls. case c of GetCall p key \<Rightarrow> p = kTestProjectId | _ \<Rightarrow> False))
      | _ \<Rightarrow> False)"

definition test_kv_storage_get_error ::
  "nat \<Rightarrow> 'd json_lib \<Rightarrow> (string \<Rightarrow> 'd outcome) \<Rightarrow> ('d, 'L) lua_api \<Rightarrow> (storage_result \<Rightarrow> ('L, unit) action) \<Rightarrow> 'L \<times> 'L \<Rightarrow> bool" where
  "test_kv_storage_get_error fuel js lexical_cast api push LM =
     (case run_reads fuel js lexical_cast api push
             (storage_mock (\<lambda>key value. unexpected_call) (\<lambda>key. Throw (StdException ''Some get error'')))
             [(''as_string'', LM)] [] of
        ([M], calls) \<Rightarrow> lua_isnil api 1 M \<and> fst (lua_tostring api 2 M) = Ret (Some ''Some get error'') \<and> length calls = 1
      | _ \<Rightarrow> False)"

section \<open>The tests pass\<close>

text \<open>A state in which \<open>store(key, value)\<close> is called, and those of \<open>get(key)\<close> and of a cast.\<close>

definition calls_store :: "nat \<Rightarrow> ('d \<Rightarrow> bool) \<Rightarrow> 'd lua_view \<Rightarrow> string \<Rightarrow> 'd json \<Rightarrow> bool" where
  "calls_store fuel num_ok v key j \<longleftrightarrow>
     (\<exists>x s m. stk v = [x, LStr key, s, m] \<and> reads (tabs v) j x) \<and> json_wf num_ok j \<and> (\<forall>t\<in>set (tabs v). table_ok t)
   \<and> 4 + room j \<le> slots v \<and> cost j \<le> fuel"

definition calls_get :: "nat \<Rightarrow> ('d \<Rightarrow> bool) \<Rightarrow> 'd lua_view \<Rightarrow> 'd lua_view \<Rightarrow> string \<Rightarrow> 'd json \<Rightarrow> bool" where
  "calls_get fuel num_ok v u key j \<longleftrightarrow>
     (\<exists>s m. stk v = [LStr key, s, m]) \<and> 0 < slots v \<and> json_wf num_ok j \<and> holdable j
   \<and> length (stk u) = 2 \<and> Suc (2 * depth j) < slots u \<and> depth j < fuel"

context deserializer_env
begin

lemma value_at:
  assumes "position i (stk (view L)) = Some p" and "stk (view L) ! p = x"
  shows "lua_isnil api i L \<longleftrightarrow> x = LNil" and "x = LStr s \<Longrightarrow> fst (lua_tostring api i L) = Ret (Some s)"
proof -
  show "lua_isnil api i L \<longleftrightarrow> x = LNil" using assms by (cases x) (simp_all add: lua_isnil_def type_at m_type_def at_def)
  assume "x = LStr s"
  with assms have "m_tostring num_text i (view L) = (Ret (Some s), view L)" by (simp add: m_tostring_def)
  from behaves_eqD [OF tostring this] show "fst (lua_tostring api i L) = Ret (Some s)" by auto
qed

lemma results:
  assumes "stk (view L) = [x]"
  shows "lua_isnil api 1 L \<longleftrightarrow> x = LNil" and "x = LStr s \<Longrightarrow> fst (lua_tostring api 1 L) = Ret (Some s)"
  using value_at [of 1 L 0 x] by (simp_all add: assms position_def)

lemma two_results:
  assumes "stk (view L) = [y, x]"
  shows "lua_isnil api 1 L \<longleftrightarrow> x = LNil" and "y = LStr s \<Longrightarrow> fst (lua_tostring api 2 L) = Ret (Some s)"
  using value_at(1) [of 1 L 1 x] value_at(2) [of 2 L 0 y] by (simp_all add: assms position_def)

lemma store_is_recorded:
  assumes push: "kv_module_axioms view push" and ok: "\<And>k v. answers (on_store k v)"
    and call: "calls_store fuel num_ok (view L) key j"
  defines "call \<equiv> StoreCall kTestProjectId (c_str key) (json_text js j)"
  shows "\<exists>L'. store_method fuel js api (storage_mock on_store (\<lambda>k. unexpected_call)) kTestProjectId (L, w) = (Ret 1, (L', w @ [call]))
    \<and> (case on_store (c_str key) (json_text js j) of
        Ret u \<Rightarrow> stk (view L') = [LNil] | Throw e \<Rightarrow> stk (view L') = [LStr (c_str (what e))] | _ \<Rightarrow> False)"
proof -
  let ?mock = "storage_mock on_store (\<lambda>k. unexpected_call)"
  have module: "kv_module api view num_text int_num js num_ok lexical_cast ?mock stored_in push"
    by (intro kv_module.intro deserializer_env_axioms push storing_mock_contract ok) simp
  have mock: "Store ?mock p k v w = (r, w') \<Longrightarrow> on_store k v = r \<and> w' = w @ [StoreCall p k v]" for p k v r w'
    by (simp add: storage_mock_def)
  obtain x s m where stk: "stk (view L) = [x, LStr key, s, m]" and src: "reads (tabs (view L)) j x" "json_wf num_ok j"
    "\<forall>t\<in>set (tabs (view L)). table_ok t" "4 + room j \<le> slots (view L)" "cost j \<le> fuel"
    using call by (auto simp: calls_store_def)
  show ?thesis
    by (rule kv_module.store_method_stores [OF module stk src, of kTestProjectId w]) (auto simp: call_def dest!: mock)
qed

lemma kv_store_test_passes:
  assumes push: "kv_module_axioms view push" and printed: "ToString js (JNum e) = ''18.5''"
    and calls: "calls_store fuel num_ok (view L1) ''name'' (JStr ''Test'')" "calls_store fuel num_ok (view L2) ''age'' (JNum e)"
      "calls_store fuel num_ok (view L3) ''is_male'' (JBool False)" "calls_store fuel num_ok (view L4) ''extra'' (JObj kvs)"
    and extra: "map_of kvs = map_of [(''field1'', JStr ''some_data''),
      (''field2'', JArr [JNum (NumberOf js 1), JNum (NumberOf js 2), JNum (NumberOf js 3)]), (''flag'', JBool True)]"
  shows "test_kv_storage_store fuel js api [L1, L2, L3, L4]"
proof -
  note recorded = store_is_recorded [OF push answers_Ret, of fuel _ _ _ "\<lambda>_ _. ()"]
  let ?mock = "storage_mock (\<lambda>_ _. Ret ()) (\<lambda>k. unexpected_call)"
  have c: "c_str ''name'' = ''name''" "c_str ''age'' = ''age''" "c_str ''is_male'' = ''is_male''" "c_str ''extra'' = ''extra''"
    by (simp_all add: c_str_def)
  let ?w1 = "[StoreCall kTestProjectId ''name'' ''Test'']" and ?extra = "ToString js (JObj kvs)"
  obtain M1 where 1: "store_method fuel js api ?mock kTestProjectId (L1, []) = (Ret 1, (M1, ?w1))" "stk (view M1) = [LNil]"
    using recorded [OF calls(1), of "[]"] by (auto simp: json_text_def c)
  let ?w2 = "?w1 @ [StoreCall kTestProjectId ''age'' ''18.5'']"
  obtain M2 where 2: "store_method fuel js api ?mock kTestProjectId (L2, ?w1) = (Ret 1, (M2, ?w2))"
    using recorded [OF calls(2), of ?w1] by (auto simp: json_text_def c printed)
  let ?w3 = "?w2 @ [StoreCall kTestProjectId ''is_male'' ''false'']"
  obtain M3 where 3: "store_method fuel js api ?mock kTestProjectId (L3, ?w2) = (Ret 1, (M3, ?w3))"
    using recorded [OF calls(3), of ?w2] by (auto simp: json_text_def c ToString_JBool)
  obtain M4 where 4: "store_method fuel js api ?mock kTestProjectId (L4, ?w3) = (Ret 1, (M4, ?w3 @ [StoreCall kTestProjectId ''extra'' ?extra]))"
    using recorded [OF calls(4), of ?w3] by (auto simp: json_text_def c)
  have "FromString js ?extra = Ret (JObj kvs)"
    using calls(4) by (intro FromString_ToString) (auto simp: calls_store_def)
  then have "stored_as_expected js ''extra'' ?extra = Ret True"
    by (simp add: stored_as_expected_def string_at_def At_obj extra AsString_str)
  then show ?thesis
    using 1 2 3 4 results(1) [OF 1(2)] by (simp add: test_kv_storage_store_def) (simp add: stored_as_expected_def)
qed

lemma kv_store_error_test_passes:
  assumes push: "kv_module_axioms view push" and call: "calls_store fuel num_ok (view L) ''message'' (JStr ''Error'')"
  shows "test_kv_storage_store_error fuel js api L"
proof -
  let ?mock = "storage_mock (\<lambda>_ _. Throw (StdException ''Some store error'')) (\<lambda>k. unexpected_call)"
  obtain M where "store_method fuel js api ?mock kTestProjectId (L, []) = (Ret 1, (M, [StoreCall kTestProjectId (c_str ''message'') (json_text js (JStr ''Error''))]))"
    "stk (view M) = [LStr ''Some store error'']"
    using store_is_recorded [OF push answers_StdException call, of "\<lambda>_ _. ''Some store error''" "[]"] by (auto simp: c_str_def)
  then show ?thesis using results(2) [of M _ "''Some store error''"] by (simp add: test_kv_storage_store_error_def)
qed

lemma get_is_recorded:
  assumes push: "kv_module_axioms view push" and ok: "\<And>k. answers (on_get k)"
    and stk: "stk (view L) = [LStr key, s, m]" "0 < slots (view L)"
  obtains L' r where "get_method api push (storage_mock (\<lambda>k v. unexpected_call) on_get) kTestProjectId (L, w)
      = (Ret (1, r), (L', w @ [GetCall kTestProjectId (c_str key)]))"
    "if sr_is_error r then \<exists>e. on_get (c_str key) = Throw e \<and> sr_value r = c_str (what e) else on_get (c_str key) = Ret (sr_value r)"
proof -
  let ?mock = "storage_mock (\<lambda>k v. unexpected_call) on_get"
  have module: "kv_module api view num_text int_num js num_ok lexical_cast ?mock (answered_by on_get) push"
    by (intro kv_module.intro deserializer_env_axioms push reading_mock_contract ok) simp
  have mock: "Get ?mock p k w = (r, w') \<Longrightarrow> on_get k = r \<and> w' = w @ [GetCall p k]" for p k r w'
    by (simp add: storage_mock_def)
  show thesis
    by (rule kv_module.get_method_gets [OF module stk, of kTestProjectId w], rule that)
      (auto dest!: mock split: if_splits)
qed

lemma value_is_read:
  assumes push: "kv_module_axioms view push" and ok: "\<And>k. answers (on_get k)"
    and call: "calls_get fuel num_ok (view L) (view M) key j" and answer: "on_get (c_str key) = Ret (json_text js j)"
    and cast: "storage_result_get_value \<lparr>sr_value = json_text js j, sr_is_error = False\<rparr> name = Some cm" "get_type j = Ret (cm_type cm)"
  shows "\<exists>L' r M' y. get_method api push (storage_mock (\<lambda>k v. unexpected_call) on_get) kTestProjectId (L, w)
      = (Ret (1, r), (L', w @ [GetCall kTestProjectId (c_str key)]))
    \<and> storage_result_get_value r name = Some cm \<and> result_cast_method fuel js lexical_cast api cm M = (Ret 2, M')
    \<and> stk (view M') = [LNil, y] \<and> holds (NumberOf js) (length (tabs (view M))) (tabs (view M')) j y"
proof -
  obtain s m where frame: "stk (view L) = [LStr key, s, m]" "0 < slots (view L)" and doc: "json_wf num_ok j" "holdable j"
    and M: "length (stk (view M)) = 2" "Suc (2 * depth j) < slots (view M)" "depth j < fuel"
    using call by (auto simp: calls_get_def)
  obtain L' r where get: "get_method api push (storage_mock (\<lambda>k v. unexpected_call) on_get) kTestProjectId (L, w)
      = (Ret (1, r), (L', w @ [GetCall kTestProjectId (c_str key)]))"
    "if sr_is_error r then \<exists>e. on_get (c_str key) = Throw e \<and> sr_value r = c_str (what e) else on_get (c_str key) = Ret (sr_value r)"
    by (rule get_is_recorded [OF push ok frame])
  have r: "r = \<lparr>sr_value = json_text js j, sr_is_error = False\<rparr>" using get(2) answer by (cases r) (auto split: if_splits)
  have cm: "\<not> cm_is_error cm" "cm_value cm = json_text js j"
    using cast(1) by (auto simp: storage_result_get_value_def Let_def split: if_splits)
  have module: "kv_module api view num_text int_num js num_ok lexical_cast (storage_mock (\<lambda>k v. unexpected_call) on_get) (answered_by on_get) push"
    by (intro kv_module.intro deserializer_env_axioms push reading_mock_contract ok) simp
  obtain M' y U where "result_cast_method fuel js lexical_cast api cm M = (Ret 2, M')" "stk (view M') = [LNil, y]"
    "tabs (view M') = tabs (view M) @ U" "holds (NumberOf js) (length (tabs (view M))) (tabs (view M) @ U) j y"
    by (rule kv_module.cast_method_rebuilds [OF module M(1) doc cast(2) cm M(2,3)])
  with get(1) cast(1) r show ?thesis by auto
qed

lemma kv_answers: "answers (kv_answer js d key)"
  by (simp add: kv_answer_def EmplaceNocheck_null EmplaceNocheck_obj PushBack_null PushBack_arr)

lemma kv_get_test_passes:
  assumes push: "kv_module_axioms view push" and printed: "ToString js (JNum e) = ''18.5''"
    and calls: "calls_get fuel num_ok (view L1) (view M1) ''name'' (JStr ''Test'')"
      "calls_get fuel num_ok (view L2) (view M2) ''age'' (JNum e)"
      "calls_get fuel num_ok (view L3) (view M3) ''is_male'' (JBool True)"
      "calls_get fuel num_ok (view L4) (view M4) ''extra''
        (JObj [(''field1'', JStr ''some_data''), (''field2'', JNum d), (''array'', JArr [JStr ''first'', JStr ''second''])])"
  shows "test_kv_storage_get fuel js lexical_cast api push view d e [(L1, M1), (L2, M2), (L3, M3), (L4, M4)]"
proof -
  let ?mock = "storage_mock (\<lambda>k v. unexpected_call) (kv_answer js d)"
  have c: "c_str ''name'' = ''name''" "c_str ''age'' = ''age''" "c_str ''is_male'' = ''is_male''" "c_str ''extra'' = ''extra''"
    "c_str ''Test'' = ''Test''" "c_str ''some_data'' = ''some_data''" "c_str ''first'' = ''first''" "c_str ''second'' = ''second''"
    by (simp_all add: c_str_def)
  note read = value_is_read [where on_get = "kv_answer js d", OF push kv_answers]
  note eval = kv_answer_def json_text_def c get_type_def storage_result_get_value_def Let_def
  let ?call = "\<lambda>key. GetCall kTestProjectId key"
  obtain K1 r1 N1 x1 cm1 where 1: "get_method api push ?mock kTestProjectId (L1, []) = (Ret (1, r1), (K1, [?call ''name'']))"
    "storage_result_get_value r1 ''as_string'' = Some cm1" "result_cast_method fuel js lexical_cast api cm1 M1 = (Ret 2, N1)"
    "stk (view N1) = [LNil, x1]" "x1 = LStr ''Test''"
    using read [OF calls(1), of "''as_string''" _ "[]"] by (auto simp: eval)
  obtain K2 r2 N2 x2 cm2 where 2: "get_method api push ?mock kTestProjectId (L2, [?call ''name'']) = (Ret (1, r2), (K2, [?call ''name'', ?call ''age'']))"
    "storage_result_get_value r2 ''as_number'' = Some cm2" "result_cast_method fuel js lexical_cast api cm2 M2 = (Ret 2, N2)"
    "stk (view N2) = [LNil, x2]" "x2 = LNum e"
    using read [OF calls(2), of "''as_number''" _ "[?call ''name'']"] by (auto simp: eval printed)
  obtain K3 r3 N3 x3 cm3 where 3: "get_method api push ?mock kTestProjectId (L3, [?call ''name'', ?call ''age''])
      = (Ret (1, r3), (K3, [?call ''name'', ?call ''age'', ?call ''is_male'']))"
    "storage_result_get_value r3 ''as_boolean'' = Some cm3" "result_cast_method fuel js lexical_cast api cm3 M3 = (Ret 2, N3)"
    "stk (view N3) = [LNil, x3]" "x3 = LBool True"
    using read [OF calls(3), of "''as_boolean''" _ "[?call ''name'', ?call ''age'']"] by (auto simp: eval ToString_JBool)
  obtain K4 r4 N4 x4 cm4 where 4: "get_method api push ?mock kTestProjectId (L4, [?call ''name'', ?call ''age'', ?call ''is_male''])
      = (Ret (1, r4), (K4, [?call ''name'', ?call ''age'', ?call ''is_male'', ?call ''extra'']))"
    "storage_result_get_value r4 ''as_table'' = Some cm4" "result_cast_method fuel js lexical_cast api cm4 M4 = (Ret 2, N4)"
    "stk (view N4) = [LNil, x4]"
    "holds (NumberOf js) (length (tabs (view M4))) (tabs (view N4))
       (JObj [(''field1'', JStr ''some_data''), (''field2'', JNum d), (''array'', JArr [JStr ''first'', JStr ''second''])]) x4"
    using read [OF calls(4), of "''as_table''" _ "[?call ''name'', ?call ''age'', ?call ''is_male'']"]
    by (auto simp: eval EmplaceNocheck_null EmplaceNocheck_obj PushBack_null PushBack_arr simp del: holds.simps)
  have "run_reads fuel js lexical_cast api push ?mock
      [(''as_string'', L1, M1), (''as_number'', L2, M2), (''as_boolean'', L3, M3), (''as_table'', L4, M4)] []
    = ([N1, N2, N3, N4], [?call ''name'', ?call ''age'', ?call ''is_male'', ?call ''extra''])"
    by (simp add: 1 2 3 4)
  moreover have "first_result (view N1) = LStr ''Test''" "first_result (view N2) = LNum e" "first_result (view N3) = LBool True"
    "first_result (view N4) = x4"
    using 1(4,5) 2(4,5) 3(4,5) 4(4) by (simp_all add: first_result_def)
  moreover have "index (view N4) x4 (LStr ''field1'') = LStr ''some_data''" "index (view N4) x4 (LStr ''field2'') = LNum d"
    "index (view N4) (index (view N4) x4 (LStr ''array'')) (LNum (NumberOf js 1)) = LStr ''first''"
    "index (view N4) (index (view N4) x4 (LStr ''array'')) (LNum (NumberOf js 2)) = LStr ''second''"
    using 4(5) by (auto simp: index_def table_get_def c)
  ultimately show ?thesis by (simp add: test_kv_storage_get_def)
qed

lemma kv_get_error_test_passes:
  assumes push: "kv_module_axioms view push" and frame: "stk (view L) = [LStr ''message'', s, m]" "0 < slots (view L)"
    and M: "length (stk (view M)) = 2" "2 \<le> slots (view M)"
  shows "test_kv_storage_get_error fuel js lexical_cast api push (L, M)"
proof -
  let ?mock = "storage_mock (\<lambda>k v. unexpected_call) (\<lambda>k. Throw (StdException ''Some get error''))"
  obtain L' r where get: "get_method api push ?mock kTestProjectId (L, []) = (Ret (1, r), (L', [GetCall kTestProjectId (c_str ''message'')]))"
    "sr_is_error r" "sr_value r = ''Some get error''"
    by (rule get_is_recorded [OF push _ frame, of "\<lambda>k. Throw (StdException ''Some get error'')" "[]"])
      (auto simp: c_str_def split: if_splits)
  define cm where "cm = \<lparr>cm_value = ''Some get error'', cm_is_error = True, cm_type = TypeString\<rparr>"
  have cm: "storage_result_get_value r ''as_string'' = Some cm"
    using get(2,3) by (simp add: storage_result_get_value_def Let_def cm_def)
  obtain M1 where M1: "lua_settop api 0 M = (Ret (), M1)" "view M1 = (view M)\<lparr>stk := []\<rparr>"
    using emptied [of M] by auto
  obtain M2 where M2: "thenS (lua_pushnil api) (lua_pushstring api (c_str ''Some get error'')) M1 = (Ret (), M2)"
    "view M2 = (view M1)\<lparr>stk := LStr (c_str ''Some get error'') # LNil # stk (view M1)\<rparr>"
    using report_pushed [of M1 "''Some get error''"] M1(2) M(2) by auto
  have "result_cast_method fuel js lexical_cast api cm M = (Ret 2, M2)"
    using M1 M2(1) M(1) by (auto simp: result_cast_method_def outcome_simps gettop cm_def thenS_def bindS_def split: prod.splits outcome.splits)
  moreover have "stk (view M2) = [LStr ''Some get error'', LNil]" using M2(2) M1(2) by (simp add: c_str_def)
  ultimately show ?thesis
    using get(1) cm two_results [of M2 "LStr ''Some get error''" LNil] by (simp add: test_kv_storage_get_error_def)
qed

end

lemma ref_kv_tests_pass:
  "test_kv_storage_store_error 1 ref_json int_machine \<lparr>stk = [LStr ''Error'', LStr ''message'', LNil, LNil], tabs = [], slots = 24\<rparr>"
  "test_kv_storage_get_error 1 ref_json ref_lexical int_machine (\<lambda>_. m_push (LOther ''userdata''))
     (\<lparr>stk = [LStr ''message'', LNil, LNil], tabs = [], slots = 23\<rparr>, \<lparr>stk = [LNil, LNil], tabs = [], slots = 22\<rparr>)"
proof -
  have push: "kv_module_axioms (\<lambda>v. v) (\<lambda>_. m_push (LOther ''userdata'') :: (int lua_view, unit) action)"
    by (simp add: kv_module_axioms_def behaves_def)
  show "test_kv_storage_store_error 1 ref_json int_machine \<lparr>stk = [LStr ''Error'', LStr ''message'', LNil, LNil], tabs = [], slots = 24\<rparr>"
    by (rule rd.kv_store_error_test_passes [OF push]) (simp add: calls_store_def c_str_def)
  show "test_kv_storage_get_error 1 ref_json ref_lexical int_machine (\<lambda>_. m_push (LOther ''userdata''))
     (\<lparr>stk = [LStr ''message'', LNil, LNil], tabs = [], slots = 23\<rparr>, \<lparr>stk = [LNil, LNil], tabs = [], slots = 22\<rparr>)"
    by (rule rd.kv_get_error_test_passes [OF push]) simp_all
qed

end
