(* ===== verification/Http_Module_Tests.thy ===== *)
theory Http_Module_Tests
  imports Test_Mocks Http_Tests Lua_Wrappers
begin

text \<open>
  The tests of the HTTP client and of the tables of request and response in
  \<open>src/src/ut/lua-executor-ut.cpp\<close>. A test is given the states of Lua in which its script calls the
  client and returns whether its assertions hold.
\<close>

section \<open>Calls of a script\<close>

text \<open>The calls of \<open>send\<close> one after another, and the states they leave.\<close>

fun run_sends ::
  "nat \<Rightarrow> 'd json_lib \<Rightarrow> ('d, 'L) lua_api \<Rightarrow> 'h header_lib \<Rightarrow> http_lib \<Rightarrow> (string, string) rehash
    \<Rightarrow> ('h, 'w) client_base \<Rightarrow> 'L list \<Rightarrow> 'w \<Rightarrow> 'L list \<times> 'w" where
  "run_sends fuel js api hl ht reh client [] w = ([], w)"
| "run_sends fuel js api hl ht reh client (L # Ls) w =
     (case client_method fuel js api hl ht reh client (L, w) of
        (Ret n, (L', w')) \<Rightarrow> (case run_sends fuel js api hl ht reh client Ls w' of (Ms, u) \<Rightarrow> (L' # Ms, u))
      | (_, (_, w')) \<Rightarrow> ([], w'))"

text \<open>The two results of a call, the response and the error.\<close>

definition results :: "'d lua_view \<Rightarrow> ('d lval \<times> 'd lval) option" where
  "results v = (case stk v of [y, x] \<Rightarrow> Some (x, y) | _ \<Rightarrow> None)"

definition sent_without_error :: "'d lua_view \<Rightarrow> bool" where
  "sent_without_error v \<longleftrightarrow> (case results v of Some (response, err) \<Rightarrow> err = LNil | None \<Rightarrow> False)"

section \<open>The tests of the client\<close>

definition test_http_client_send_error ::
  "nat \<Rightarrow> 'd json_lib \<Rightarrow> ('d, 'L) lua_api \<Rightarrow> 'h header_lib \<Rightarrow> http_lib \<Rightarrow> (string, string) rehash \<Rightarrow> ('L \<Rightarrow> 'd lua_view) \<Rightarrow> 'L \<Rightarrow> bool" where
  "test_http_client_send_error fuel js api hl ht reh view L =
     (case run_sends fuel js api hl ht reh (client_mock (\<lambda>request. Throw (StdException ''Can't send request''))) [L] [] of
        ([M], calls) \<Rightarrow> results (view M) = Some (LNil, LStr ''Can't send request'') \<and> length calls = 1
      | _ \<Rightarrow> False)"

definition test_http_client_request ::
  "nat \<Rightarrow> 'd json_lib \<Rightarrow> ('d, 'L) lua_api \<Rightarrow> 'h header_lib \<Rightarrow> (string \<Rightarrow> string) \<Rightarrow> http_lib \<Rightarrow> (string, string) rehash
    \<Rightarrow> ('L \<Rightarrow> 'd lua_view) \<Rightarrow> 'L \<times> 'L \<Rightarrow> bool" where
  "test_http_client_request fuel js api hl canon ht reh view Ls =
     (case run_sends fuel js api hl ht reh (client_mock (\<lambda>request. Ret (new_response kOk))) [fst Ls, snd Ls] [] of
        ([M, N], [without_params, with_params]) \<Rightarrow>
          sent_without_error (view M) \<and> sent_without_error (view N)
        \<and> req_method without_params = kHead \<and> req_url without_params = ''http://localhost:80/v1/hello''
        \<and> req_method with_params = kPost \<and> req_url with_params = ''http://localhost:80/v1/message''
        \<and> (case req_query with_params of None \<Rightarrow> False | Some q \<Rightarrow> map_of q ''key'' = Some ''value'')
        \<and> (case msg_headers with_params of None \<Rightarrow> False | Some h \<Rightarrow> header_value hl canon h kContentType = Some ''application/json'')
        \<and> msg_body with_params = ''Hello, world!''
      | _ \<Rightarrow> False)"

text \<open>\<open>d\<close> is the number \<open>3.141516\<close>.\<close>

definition test_http_client_request_table_body ::
  "nat \<Rightarrow> 'd json_lib \<Rightarrow> ('d, 'L) lua_api \<Rightarrow> 'h header_lib \<Rightarrow> http_lib \<Rightarrow> (string, string) rehash \<Rightarrow> ('L \<Rightarrow> 'd lua_view)
    \<Rightarrow> 'd \<Rightarrow> 'L \<Rightarrow> bool outcome" where
  "test_http_client_request_table_body fuel js api hl ht reh view d L =
     (case run_sends fuel js api hl ht reh (client_mock (\<lambda>request. Ret (new_response kOk))) [L] [] of
        ([M], [request]) \<Rightarrow>
          bindO (FromString js (msg_body request)) (\<lambda>body.
          bindO (string_at js (Some body) ''name'') (\<lambda>name.
          bindO (At js (Some body) ''age'') (\<lambda>age.
          bindO (At js (Some body) ''is_male'') (\<lambda>is_male.
          bindO (At js (Some body) ''extra'') (\<lambda>extra.
          bindO (At js extra ''float_number'') (\<lambda>float_number.
          bindO (string_at js extra ''string_value'') (\<lambda>string_value.
          bindO (At js extra ''some_array'') (\<lambda>some_array.
          Ret (sent_without_error (view M) \<and> name = ''Test'' \<and> age = Some (JNum (NumberOf js 18)) \<and> is_male = Some (JBool True)
            \<and> float_number = Some (JNum d) \<and> string_value = ''string''
            \<and> some_array = Some (JArr [JNum (NumberOf js 2), JStr ''imposter'', JNum (NumberOf js 6)])))))))))) 
      | _ \<Rightarrow> Ret False)"

definition test_http_client_response ::
  "nat \<Rightarrow> 'd json_lib \<Rightarrow> ('d, 'L) lua_api \<Rightarrow> 'h header_lib \<Rightarrow> http_lib \<Rightarrow> (string, string) rehash \<Rightarrow> ('L \<Rightarrow> 'd lua_view)
    \<Rightarrow> (int \<Rightarrow> 'd) \<Rightarrow> 'L \<Rightarrow> bool" where
  "test_http_client_response fuel js api hl ht reh view int_num L =
     (let response = (new_response kOk)\<lparr>resp_status := 201,
            msg_headers := Some (HmEmplace hl kContentType ''text/plain; charset=utf-8'' (HmEmpty hl)), msg_body := ''Hello, world!''\<rparr>
      in case run_sends fuel js api hl ht reh (client_mock (\<lambda>request. Ret response)) [L] [] of
        ([M], calls) \<Rightarrow>
          (case results (view M) of
             Some (LTab a, LNil) \<Rightarrow>
               param (view M) a ''status'' = LNum (int_num 201)
             \<and> (case param (view M) a ''headers'' of
                  LTab h \<Rightarrow> param (view M) h kContentType = LStr ''text/plain; charset=utf-8'' | _ \<Rightarrow> False)
             \<and> param (view M) a ''body'' = LStr ''Hello, world!'' \<and> length calls = 1
           | _ \<Rightarrow> False)
      | _ \<Rightarrow> False)"

definition test_http_client_send_aliases ::
  "nat \<Rightarrow> 'd json_lib \<Rightarrow> ('d, 'L) lua_api \<Rightarrow> 'h header_lib \<Rightarrow> http_lib \<Rightarrow> (string, string) rehash \<Rightarrow> ('L \<Rightarrow> 'd lua_view)
    \<Rightarrow> 'L \<times> 'L \<Rightarrow> bool" where
  "test_http_client_send_aliases fuel js api hl ht reh view Ls =
     (case run_sends fuel js api hl ht reh (client_mock (\<lambda>request. Ret (new_response kOk))) [fst Ls, snd Ls] [] of
        ([M, N], [first, second]) \<Rightarrow>
          sent_without_error (view M) \<and> sent_without_error (view N) \<and> req_method first = kGet \<and> req_method second = kPost
      | _ \<Rightarrow> False)"

section \<open>The tests of the client pass\<close>

text \<open>The libraries of the client, and in place of the client itself a mock.\<close>

locale http_module_tests = lua_laws api view num_text int_num + message_env js num_ok hl canon ht reh
  for api :: "('d, 'L) lua_api" and view num_text int_num and js :: "'d json_lib" and num_ok and hl :: "'h header_lib"
    and canon ht reh
begin

lemma mock_env:
  "(\<And>r. answers (on_send r)) \<Longrightarrow> lua_http_env api view num_text int_num js num_ok hl canon ht reh (client_mock on_send)"
  by (intro lua_http_env.intro lua_laws_axioms message_env_axioms client_mock_contract)

text \<open>What a call that was answered by \<open>r\<close> leaves.\<close>

definition leaves :: "'h response outcome \<Rightarrow> 'L \<Rightarrow> bool" where
  "leaves r L \<longleftrightarrow>
     (case r of
        Ret x \<Rightarrow> (\<exists>a. stk (view L) = [LNil, LTab a] \<and> shows_response int_num (view L) a hl x)
      | Throw e \<Rightarrow> stk (view L) = [LStr (c_str (what e)), LNil]
      | _ \<Rightarrow> False)"

lemma plain_send_is_recorded:
  assumes ok: "\<And>r. answers (on_send r)" and call: "calls_send_plain (view L) method url" "HttpMethodFromString ht (c_str method) = Ret m"
  defines "rq \<equiv> (request_default hl)\<lparr>req_method := m, req_url := c_str url\<rparr>"
  obtains L' where "client_method fuel js api hl ht reh (client_mock on_send) (L, w) = (Ret 2, (L', w @ [rq]))" "leaves (on_send rq) L'"
proof -
  obtain L' w' where run: "client_method fuel js api hl ht reh (client_mock on_send) (L, w) = (Ret 2, (L', w'))"
    and "case Send (client_mock on_send) rq w of
        (Ret r, w1) \<Rightarrow> w' = w1 \<and> (\<exists>a. stk (view L') = [LNil, LTab a] \<and> shows_response int_num (view L') a hl r)
      | (Throw e, w1) \<Rightarrow> w' = w1 \<and> stk (view L') = [LStr (c_str (what e)), LNil]
      | _ \<Rightarrow> False"
    using lua_http_env.plain_request_is_sent [OF mock_env [of on_send, OF ok] call, where n = fuel and w = w, folded rq_def]
    by (elim exE conjE) (rule that)
  then have "w' = w @ [rq]" "leaves (on_send rq) L'"
    by (cases "on_send rq"; simp add: client_mock_def leaves_def)+
  with run that show thesis by simp
qed

lemma send_is_recorded:
  assumes ok: "\<And>r. answers (on_send r)"
    and call: "calls_send fuel js num_ok (view L) method url qs hs body" "HttpMethodFromString ht (c_str method) = Ret m"
  obtains L' q h where "client_method fuel js api hl ht reh (client_mock on_send) (L, w) = (Ret 2, (L', w @ [
      \<lparr>msg_headers = Some h, msg_body = body, req_method = m, req_url = c_str url, req_query = Some q\<rparr>]))"
    "leaves (on_send \<lparr>msg_headers = Some h, msg_body = body, req_method = m, req_url = c_str url, req_query = Some q\<rparr>) L'"
    "map_of q = map_of qs" "\<forall>k. header_value hl canon h k = map_of (map (\<lambda>(n, v). (canon n, v)) hs) (canon k)"
proof -
  let ?rq = "\<lambda>h q. \<lparr>msg_headers = Some h, msg_body = body, req_method = m, req_url = c_str url, req_query = Some q\<rparr>"
  obtain q h L' w' where run: "client_method fuel js api hl ht reh (client_mock on_send) (L, w) = (Ret 2, (L', w'))"
    and given: "map_of q = map_of qs" "\<forall>k. header_value hl canon h k = map_of (map (\<lambda>(n, v). (canon n, v)) hs) (canon k)"
    and "case Send (client_mock on_send) (?rq h q) w of
        (Ret r, w1) \<Rightarrow> w' = w1 \<and> (\<exists>a. stk (view L') = [LNil, LTab a] \<and> shows_response int_num (view L') a hl r)
      | (Throw e, w1) \<Rightarrow> w' = w1 \<and> stk (view L') = [LStr (c_str (what e)), LNil]
      | _ \<Rightarrow> False"
    using lua_http_env.send_method_result [OF mock_env [of on_send, OF ok] call, where w = w]
    by (elim exE conjE) (rule that)
  then have "w' = w @ [?rq h q]" "leaves (on_send (?rq h q)) L'"
    by (cases "on_send (?rq h q)"; simp add: client_mock_def leaves_def)+
  with run given that show thesis by simp
qed

lemma left_without_error: "leaves (Ret r) L \<Longrightarrow> sent_without_error (view L)"
  by (auto simp: leaves_def sent_without_error_def results_def)

lemma http_client_send_error_test_passes:
  assumes "HttpMethodFromString ht (c_str ''GET'') = Ret kGet" and "calls_send_plain (view L) ''GET'' ''http://localhost:80/v1/error''"
  shows "test_http_client_send_error fuel js api hl ht reh view L"
proof -
  let ?error = "Throw (StdException ''Can't send request'')"
  obtain M where "client_method fuel js api hl ht reh (client_mock (\<lambda>_. ?error)) (L, [])
      = (Ret 2, (M, [] @ [(request_default hl)\<lparr>req_method := kGet, req_url := c_str ''http://localhost:80/v1/error''\<rparr>]))" "leaves ?error M"
    by (rule plain_send_is_recorded [of "\<lambda>_. ?error", OF answers_StdException assms(2,1), of fuel "[]"])
  then show ?thesis by (simp add: test_http_client_send_error_def leaves_def results_def c_str_def)
qed

lemma http_client_request_test_passes:
  assumes methods: "HttpMethodFromString ht (c_str ''HEAD'') = Ret kHead" "HttpMethodFromString ht (c_str ''POST'') = Ret kPost"
    and calls: "calls_send_plain (view L) ''HEAD'' ''http://localhost:80/v1/hello''"
      "calls_send fuel js num_ok (view K) ''POST'' ''http://localhost:80/v1/message'' [(''key'', ''value'')]
        [(kContentType, ''application/json'')] ''Hello, world!''"
  shows "test_http_client_request fuel js api hl canon ht reh view (L, K)"
proof -
  let ?r = "new_response kOk"
  let ?rq = "(request_default hl)\<lparr>req_method := kHead, req_url := c_str ''http://localhost:80/v1/hello''\<rparr>"
  obtain M where 1: "client_method fuel js api hl ht reh (client_mock (\<lambda>_. Ret ?r)) (L, []) = (Ret 2, (M, [] @ [?rq]))" "leaves (Ret ?r) M"
    by (rule plain_send_is_recorded [of "\<lambda>_. Ret ?r", OF answers_Ret calls(1) methods(1), of fuel "[]"])
  obtain N q h where 2: "client_method fuel js api hl ht reh (client_mock (\<lambda>_. Ret ?r)) (K, [?rq]) = (Ret 2, (N, [?rq] @ [
      \<lparr>msg_headers = Some h, msg_body = ''Hello, world!'', req_method = kPost, req_url = c_str ''http://localhost:80/v1/message'',
        req_query = Some q\<rparr>]))" "leaves (Ret ?r) N" "map_of q = map_of [(''key'', ''value'')]"
    "\<forall>k. header_value hl canon h k = map_of (map (\<lambda>(n, v). (canon n, v)) [(kContentType, ''application/json'')]) (canon k)"
    by (rule send_is_recorded [of "\<lambda>_. Ret ?r", OF answers_Ret calls(2) methods(2), of "[?rq]"])
  have c: "c_str ''http://localhost:80/v1/hello'' = ''http://localhost:80/v1/hello''"
    "c_str ''http://localhost:80/v1/message'' = ''http://localhost:80/v1/message''" by (simp_all add: c_str_def)
  show ?thesis
    using 1 2 left_without_error [OF 1(2)] left_without_error [OF 2(2)]
    by (simp add: test_http_client_request_def c)
qed

lemma http_client_table_body_test_passes:
  assumes "HttpMethodFromString ht (c_str ''GET'') = Ret kGet" and wf: "json_wf num_ok (JObj kvs)"
    and call: "calls_send fuel js num_ok (view L) ''GET'' ''http://localhost:80/v1/hello'' [] [] (json_text js (JObj kvs))"
    and body: "map_of kvs = map_of [(''name'', JStr ''Test''), (''age'', JNum (NumberOf js 18)), (''is_male'', JBool True), (''extra'', JObj extra)]"
    and extra: "map_of extra = map_of [(''float_number'', JNum d), (''string_value'', JStr ''string''),
      (''some_array'', JArr [JNum (NumberOf js 2), JStr ''imposter'', JNum (NumberOf js 6)])]"
  shows "test_http_client_request_table_body fuel js api hl ht reh view d L = Ret True"
proof -
  let ?r = "new_response kOk"
  obtain M q h where "client_method fuel js api hl ht reh (client_mock (\<lambda>_. Ret ?r)) (L, []) = (Ret 2, (M, [] @ [
      \<lparr>msg_headers = Some h, msg_body = json_text js (JObj kvs), req_method = kGet, req_url = c_str ''http://localhost:80/v1/hello'',
        req_query = Some q\<rparr>]))" "leaves (Ret ?r) M"
    by (rule send_is_recorded [of "\<lambda>_. Ret ?r", OF answers_Ret call assms(1), of "[]"])
  moreover have "FromString js (json_text js (JObj kvs)) = Ret (JObj kvs)" using FromString_ToString [OF wf] by (simp add: json_text_def)
  ultimately show ?thesis
    using left_without_error [of ?r M]
    by (simp add: test_http_client_request_table_body_def string_at_def At_obj AsString_str body extra)
qed

lemma http_client_response_test_passes:
  assumes "HttpMethodFromString ht (c_str ''HEAD'') = Ret kHead" and "calls_send_plain (view L) ''HEAD'' ''http://localhost:80/v1/hello''"
  shows "test_http_client_response fuel js api hl ht reh view int_num L"
proof -
  let ?h = "HmEmplace hl kContentType ''text/plain; charset=utf-8'' (HmEmpty hl)"
  let ?r = "(new_response kOk)\<lparr>resp_status := 201, msg_headers := Some ?h, msg_body := ''Hello, world!''\<rparr>"
  obtain M where 1: "client_method fuel js api hl ht reh (client_mock (\<lambda>_. Ret ?r)) (L, [])
      = (Ret 2, (M, [] @ [(request_default hl)\<lparr>req_method := kHead, req_url := c_str ''http://localhost:80/v1/hello''\<rparr>]))" "leaves (Ret ?r) M"
    by (rule plain_send_is_recorded [of "\<lambda>_. Ret ?r", OF answers_Ret assms(2,1), of fuel "[]"])
  have "mset (HmItems hl ?h) = {#(kContentType, ''text/plain; charset=utf-8'')#}"
    using items_emplace_new [of kContentType "HmEmpty hl"] by (simp add: items_empty)
  then have items: "HmItems hl ?h = [(kContentType, ''text/plain; charset=utf-8'')]" by simp
  obtain a where a: "stk (view M) = [LNil, LTab a]" "shows_response int_num (view M) a hl ?r" using 1(2) by (auto simp: leaves_def)
  have c: "c_str kContentType = kContentType" "c_str ''text/plain; charset=utf-8'' = ''text/plain; charset=utf-8''"
    "c_str ''Hello, world!'' = ''Hello, world!''"
    by (simp_all add: c_str_def kContentType_def)
  have "\<exists>t. param (view M) a ''headers'' = LTab t \<and> param (view M) t kContentType = LStr ''text/plain; charset=utf-8''"
    "param (view M) a ''status'' = LNum (int_num 201)" "param (view M) a ''body'' = LStr ''Hello, world!''"
    using a(2) by (auto simp: shows_response_def items c)
  with a(1) 1(1) show ?thesis by (auto simp: test_http_client_response_def results_def Let_def)
qed

text \<open>The stack that \<open>get\<close> and \<open>post\<close> of the wrapper make with parameters.\<close>

lemma alias_with_params:
  assumes "map_of client_aliases name = Some verb"
  shows "extended_client_send name [LStr url, x] = Some [LStr verb, LStr url, x]"
  using assms by (auto simp: extended_client_send_def client_aliases_def)

lemma http_client_aliases_test_passes:
  assumes methods: "HttpMethodFromString ht (c_str ''GET'') = Ret kGet" "HttpMethodFromString ht (c_str ''POST'') = Ret kPost"
    and calls: "calls_send_plain (view L) ''GET'' ''http://localhost:80/v1/hello''"
      "calls_send fuel js num_ok (view K) ''POST'' ''http://localhost:80/v1/hello'' [] [] ''Hello, world!''"
  shows "test_http_client_send_aliases fuel js api hl ht reh view (L, K)"
proof -
  let ?r = "new_response kOk"
  let ?rq = "(request_default hl)\<lparr>req_method := kGet, req_url := c_str ''http://localhost:80/v1/hello''\<rparr>"
  obtain M where 1: "client_method fuel js api hl ht reh (client_mock (\<lambda>_. Ret ?r)) (L, []) = (Ret 2, (M, [] @ [?rq]))" "leaves (Ret ?r) M"
    by (rule plain_send_is_recorded [of "\<lambda>_. Ret ?r", OF answers_Ret calls(1) methods(1), of fuel "[]"])
  obtain N q h where 2: "client_method fuel js api hl ht reh (client_mock (\<lambda>_. Ret ?r)) (K, [?rq]) = (Ret 2, (N, [?rq] @ [
      \<lparr>msg_headers = Some h, msg_body = ''Hello, world!'', req_method = kPost, req_url = c_str ''http://localhost:80/v1/hello'',
        req_query = Some q\<rparr>]))" "leaves (Ret ?r) N"
    by (rule send_is_recorded [of "\<lambda>_. Ret ?r", OF answers_Ret calls(2) methods(2), of "[?rq]"])
  show ?thesis
    using 1(1) 2(1) left_without_error [OF 1(2)] left_without_error [OF 2(2)] by (simp add: test_http_client_send_aliases_def)
qed

end

interpretation rht: http_module_tests int_machine "\<lambda>v. v" decimal_int "\<lambda>i. i" ref_json "\<lambda>_. True" ref_headers lower ref_http "\<lambda>m. m"
  by (intro http_module_tests.intro int_machine_laws rm.message_env_axioms)

lemma ref_http_tests_pass:
  "test_http_client_send_error 1 ref_json int_machine ref_headers ref_http (\<lambda>m. m) (\<lambda>v. v)
     \<lparr>stk = send_stack LNil LNil [LStr ''GET'', LStr ''http://localhost:80/v1/error''], tabs = [], slots = 24\<rparr>"
  "test_http_client_response 1 ref_json int_machine ref_headers ref_http (\<lambda>m. m) (\<lambda>v. v) (\<lambda>i. i)
     \<lparr>stk = send_stack LNil LNil [LStr ''HEAD'', LStr ''http://localhost:80/v1/hello''], tabs = [], slots = 24\<rparr>"
proof -
  have methods: "HttpMethodFromString ref_http (c_str ''GET'') = Ret kGet" "HttpMethodFromString ref_http (c_str ''HEAD'') = Ret kHead"
    by (simp_all add: ref_http_def ref_methods_def c_str_def)
  show "test_http_client_send_error 1 ref_json int_machine ref_headers ref_http (\<lambda>m. m) (\<lambda>v. v)
     \<lparr>stk = send_stack LNil LNil [LStr ''GET'', LStr ''http://localhost:80/v1/error''], tabs = [], slots = 24\<rparr>"
    by (rule rht.http_client_send_error_test_passes [OF methods(1)]) (simp add: calls_send_plain_def send_stack_def)
  show "test_http_client_response 1 ref_json int_machine ref_headers ref_http (\<lambda>m. m) (\<lambda>v. v) (\<lambda>i. i)
     \<lparr>stk = send_stack LNil LNil [LStr ''HEAD'', LStr ''http://localhost:80/v1/hello''], tabs = [], slots = 24\<rparr>"
    by (rule rht.http_client_response_test_passes [OF methods(2)]) (simp add: calls_send_plain_def send_stack_def)
qed

end
