(* ===== verification/Executor_Tests.thy ===== *)
theory Executor_Tests
  imports Lua_Engine Http_Tests
begin

text \<open>
  The tests of \<open>src/src/ut/lua-executor-ut.cpp\<close> on what a script finds when it starts and on what it
  leaves: the globals, the tables of the request and the response, and the scripts that must fail.
\<close>

section \<open>Globals\<close>

text \<open>\<open>AccessToInternalVariables\<close>, over the globals of the state in which the script starts.\<close>

definition test_access_to_internal_variables :: "('d, 'v) luacpp \<Rightarrow> (string \<Rightarrow> 'v) \<Rightarrow> bool" where
  "test_access_to_internal_variables lc g \<longleftrightarrow>
     g ''miet_execution_timeout_checker'' = LuaTNil lc \<and> g ''miet_http_client'' \<noteq> LuaTNil lc \<and> g ''miet_kv_storage'' \<noteq> LuaTNil lc"

text \<open>\<open>PreventUnsafeScripts\<close>: the name of each case and the global that its script calls or indexes.\<close>

definition unsafe_scripts :: "(string \<times> string) list" where
  "unsafe_scripts =
     [(''OsExecute'', ''os''), (''IoOpen'', ''io''), (''PackageLoadlib'', ''package''), (''Dofile'', ''dofile''), (''Getfenv'', ''getfenv'')]"

definition incorrect_scripts :: "(string \<times> string) list" where
  "incorrect_scripts = [(''DebugGetregistry'', ''debug''), (''Error'', ''error''), (''Print'', ''print'')]"

section \<open>Request and response\<close>

text \<open>\<open>IncomingRequest\<close>: \<open>kRequest\<close> denotes the document that the test of \<open>Request::FromJson\<close> uses.\<close>

definition test_incoming_request ::
  "'d json_lib \<Rightarrow> ('e, 'v) luacpp \<Rightarrow> 'h header_lib \<Rightarrow> http_lib \<Rightarrow> (string, string) rehash \<Rightarrow> (string, 'v) rehash \<Rightarrow> milliseconds
    \<Rightarrow> string \<Rightarrow> bool outcome" where
  "test_incoming_request js lc hl ht qreh reh junk kRequest =
     bindO (FromString js kRequest) (\<lambda>json.
     bindO (request_from_json js hl ht qreh json) (\<lambda>request.
     bindO (context_open lc hl ht reh (new_execution_context junk request (response_default hl)) []) (\<lambda>env.
     case map_of env kRequestVariableName of
       None \<Rightarrow> Ret False
     | Some t \<Rightarrow>
         bindO (getValue lc t ''method'') (\<lambda>method.
         bindO (getValue lc t ''url'') (\<lambda>url.
         bindO (getValue lc t ''query'') (\<lambda>query.
         bindO (getValue lc query ''key'') (\<lambda>key.
         bindO (getValue lc query ''format'') (\<lambda>format.
         bindO (getValue lc t ''headers'') (\<lambda>headers.
         bindO (getValue lc headers kContentType) (\<lambda>type.
         bindO (getValue lc headers kMyHeader) (\<lambda>mine.
         bindO (getValue lc t ''body'') (\<lambda>body.
         Ret (method = LuaTString lc ''PATCH'' \<and> url = LuaTString lc ''/miet/lambda-executor/lua''
           \<and> key = LuaTString lc ''value'' \<and> format = LuaTString lc ''json''
           \<and> type = LuaTString lc ''application/json'' \<and> mine = LuaTString lc ''value''
           \<and> body = LuaTString lc ''some-data''))))))))))))) "

text \<open>
  \<open>OutgoingResponse\<close>: the script sets the three members of the response table; \<open>body\<close> is the value
  of the table it makes for the body.
\<close>

definition set_by_script :: "('e, 'v) luacpp \<Rightarrow> 'v \<Rightarrow> 'v \<Rightarrow> 'v" where
  "set_by_script lc body t =
     setValue lc ''body'' body
       (setValue lc ''headers'' (string_entries lc [(''Content-Type'', ''plain/text''), (''X-My-Header'', ''some-value'')])
         (setValue lc ''status'' (LuaTNumber lc (StatusNumber lc 201)) t))"

definition test_outgoing_response ::
  "'d json_lib \<Rightarrow> ('e, 'v) luacpp \<Rightarrow> 'h header_lib \<Rightarrow> (string \<Rightarrow> string) \<Rightarrow> http_lib \<Rightarrow> (string, 'v) rehash \<Rightarrow> milliseconds \<Rightarrow> 'v \<Rightarrow> bool outcome" where
  "test_outgoing_response js lc hl canon ht reh junk body =
     (let context = new_execution_context junk (request_default hl) (response_default hl) in
      bindO (context_open lc hl ht reh context []) (\<lambda>env.
      bindO (context_close lc hl
          (map (\<lambda>(name, v). (name, if name = kResponseVariableName then set_by_script lc body v else v)) env) context) (\<lambda>context.
      let response = ec_response context in
      bindO (FromString js (msg_body response)) (\<lambda>json_body.
      bindO (string_at js (Some json_body) ''name'') (\<lambda>name.
      bindO (At js (Some json_body) ''age'') (\<lambda>age.
      Ret (resp_status response = 201
        \<and> (case msg_headers response of
             None \<Rightarrow> False
           | Some h \<Rightarrow> length (HmItems hl h) = 2 \<and> header_value hl canon h kContentType = Some ''plain/text''
               \<and> header_value hl canon h kMyHeader = Some ''some-value'')
        \<and> name = ''Alex'' \<and> age = Some (JNum (NumberOf js 18)))))))))"

text \<open>The end of \<open>HttpClientSendError\<close>: the script puts the message of the client into a header.\<close>

definition test_error_in_a_header ::
  "('e, 'v) luacpp \<Rightarrow> 'h header_lib \<Rightarrow> (string \<Rightarrow> string) \<Rightarrow> http_lib \<Rightarrow> (string, 'v) rehash \<Rightarrow> milliseconds \<Rightarrow> string \<Rightarrow> bool outcome" where
  "test_error_in_a_header lc hl canon ht reh junk err =
     (let context = new_execution_context junk (request_default hl) (response_default hl) in
      bindO (context_open lc hl ht reh context []) (\<lambda>env.
      bindO (context_close lc hl
          (map (\<lambda>(name, v). (name, if name = kResponseVariableName
             then setValue lc ''headers'' (string_entries lc [(''message'', err)]) v else v)) env) context) (\<lambda>context.
      Ret (case msg_headers (ec_response context) of
             None \<Rightarrow> False | Some h \<Rightarrow> header_value hl canon h ''message'' = Some err))))"

section \<open>The tests pass\<close>

lemma unsafe_scripts_find_nil:
  assumes "lua_executor_env js num_ok hl canon ht qreh lc entry named reh vm gval reading api view num_text int_num vt allowance"
    and "starts ndebug lc hl ht reh api vm ctl deps s c w checker t" and "context_ok hl canon c"
    and "(name, global) \<in> set (unsafe_scripts @ (if ndebug then incorrect_scripts else []))"
  shows "gval (rs_lua t) global = LuaTNil lc"
proof (rule lua_executor_env.starts_cases [OF assms(1-3)])
  fix L0 request response
  assume env: "map_of (rs_env t) = (environment ndebug lc deps (sb_project_id s))
      (kRequestVariableName \<mapsto> request, kResponseVariableName \<mapsto> response)"
    and g: "gval (rs_lua t) = (\<lambda>name. case map_of (rs_env t) name of Some v \<Rightarrow> v | None \<Rightarrow> gval L0 name)"
  have "global \<in> set (unsafe_objects ndebug)"
    using assms(4) by (auto simp: unsafe_scripts_def incorrect_scripts_def unsafe_objects_def split: if_splits)
  then show ?thesis
    unfolding g env by (auto simp: environment_def split: if_splits)
qed

lemma internal_variables_test_passes:
  assumes "lua_executor_env js num_ok hl canon ht qreh lc entry named reh vm gval reading api view num_text int_num vt allowance"
    and "starts ndebug lc hl ht reh api vm ctl deps s c w checker t" and "context_ok hl canon c"
    and "ep_http_client deps \<noteq> None" and "ep_storage deps \<noteq> None"
    and "\<And>L0. create_lua_state api vm (lua_allocator (ep_memory_vt ctl)) (CreateMemoryChecker (ep_memory_factory ctl)
        (eo_memory_limit (ec_options c))) = Ret L0 \<Longrightarrow> gval L0 ''miet_execution_timeout_checker'' = LuaTNil lc"
    and "\<And>m. LuaMetaObject lc m \<noteq> LuaTNil lc"
  shows "test_access_to_internal_variables lc (gval (rs_lua t))"
proof (rule lua_executor_env.starts_cases [OF assms(1-3)])
  fix L0 request response
  assume L0: "create_lua_state api vm (lua_allocator (ep_memory_vt ctl)) (CreateMemoryChecker (ep_memory_factory ctl)
        (eo_memory_limit (ec_options c))) = Ret L0"
    and env: "map_of (rs_env t) = (environment ndebug lc deps (sb_project_id s))
      (kRequestVariableName \<mapsto> request, kResponseVariableName \<mapsto> response)"
    and g: "gval (rs_lua t) = (\<lambda>name. case map_of (rs_env t) name of Some v \<Rightarrow> v | None \<Rightarrow> gval L0 name)"
  have names: "kHttpClientVariableName = ''miet_http_client''" "kStorageVariableName = ''miet_kv_storage''"
    "kRequestVariableName = ''miet_http_context_incoming_request''" "kResponseVariableName = ''miet_http_context_outgoing_response''"
    by (simp_all add: kHttpClientVariableName_def kStorageVariableName_def kRequestVariableName_def kResponseVariableName_def)
  show ?thesis
    using assms(4-5,7) assms(6) [OF L0]
    by (simp add: test_access_to_internal_variables_def g env environment_def names unsafe_objects_def)
qed

context lua_context_env
begin

lemma incoming_request_test_passes:
  assumes methods: "HttpMethodFromString ht ''PATCH'' = Ret kPatch" "HttpMethodToString ht kPatch = ''PATCH''"
    and names: "canon kContentType \<noteq> canon kMyHeader" and read: "FromString js text = Ret (JObj test_document)"
  shows "test_incoming_request js lc hl ht qreh reh junk text = Ret True"
proof -
  let ?hs = "[(''Content-Type'', ''application/json''), (''X-My-Header'', ''value'')]"
    and ?qs = "[(''key'', ''value''), (''format'', ''json'')]"
  define h where "h = fold (\<lambda>(k, v). HmEmplace hl k v) ?hs (HmEmpty hl)"
  define q where "q = fold (\<lambda>(k, v). um_emplace qreh k v) ?qs []"
  have described: "describes_request test_document ''PATCH'' ''/miet/lambda-executor/lua'' ''some-data'' ?hs ?qs"
    by (simp add: describes_request_def test_document_def str_members_def)
  define r where "r = \<lparr>msg_headers = Some h, msg_body = ''some-data'', req_method = kPatch, req_url = ''/miet/lambda-executor/lua'',
    req_query = Some q\<rparr>"
  have r: "request_from_json js hl ht qreh (JObj test_document) = Ret r"
    using request_from_json_described [OF described methods(1)] by (simp add: r_def h_def q_def)
  have h: "names_distinct hl canon h" unfolding h_def by (rule names_distinct_emplace_all [OF names_distinct_empty])
  have q: "um_ok q" "map_of q = map_of ?qs"
    using emplace_all_umap [OF um_ok_Nil, of ?qs] unfolding q_def by simp_all
  let ?c = "new_execution_context junk r (response_default hl)"
  obtain env t u th tq where env: "context_open lc hl ht reh ?c [] = Ret env" "map_of env = (map_of [])(kRequestVariableName \<mapsto> t, kResponseVariableName \<mapsto> u)"
    "isTable lc t"
    "entry t = [''method'' \<mapsto> LuaTString lc (HttpMethodToString ht (req_method (ec_request ?c))),
      ''url'' \<mapsto> LuaTString lc (req_url (ec_request ?c)),
      ''query'' \<mapsto> tq, ''headers'' \<mapsto> th, ''body'' \<mapsto> LuaTString lc (c_str (msg_body (ec_request ?c)))]"
    "holds_strings lc entry named th (HmItems hl h)" "holds_strings lc entry named tq q"
    by (rule context_open_tables [of ?c h q "HmEmpty hl" "[]"])
      (use h q(1) in \<open>simp_all add: new_execution_context_def r_def response_default_def populate_message_default_def new_response_def
        names_distinct_empty um_ok_Nil\<close>)
  have items: "map_of (HmItems hl h) kContentType = Some ''application/json''" "map_of (HmItems hl h) kMyHeader = Some ''value''"
    using two_headers_values(2,3) [of "''Content-Type''" "''X-My-Header''"] names by (simp_all add: h_def kContentType_def kMyHeader_def)
  have tables: "isTable lc th" "entry th kContentType = Some (LuaTString lc ''application/json'')" "entry th kMyHeader = Some (LuaTString lc ''value'')"
    "isTable lc tq" "entry tq ''key'' = Some (LuaTString lc ''value'')" "entry tq ''format'' = Some (LuaTString lc ''json'')"
    using env(5,6) items q(2) by (simp_all add: holds_strings_def)
  have "kRequestVariableName \<noteq> kResponseVariableName" by (simp add: kRequestVariableName_def kResponseVariableName_def)
  with env(2) have t: "map_of env kRequestVariableName = Some t" by simp
  have fields: "getValue lc t ''method'' = Ret (LuaTString lc ''PATCH'')" "getValue lc t ''url'' = Ret (LuaTString lc ''/miet/lambda-executor/lua'')"
    "getValue lc t ''query'' = Ret tq" "getValue lc t ''headers'' = Ret th" "getValue lc t ''body'' = Ret (LuaTString lc ''some-data'')"
    by (rule getValue_entry [OF env(3)]; simp add: env(4) new_execution_context_def r_def methods(2) c_str_def)+
  show ?thesis
    by (simp add: test_incoming_request_def read r env(1) t fields getValue_entry [OF tables(1) tables(2)]
        getValue_entry [OF tables(1) tables(3)] getValue_entry [OF tables(4) tables(5)] getValue_entry [OF tables(4) tables(6)])
qed

lemma two_entries:
  assumes "mset xs = {#a, b#}"
  shows "xs = [a, b] \<or> xs = [b, a]"
proof -
  have "length xs = 2" using assms by (metis mset.simps mset_eq_length length_Cons list.size(3) numeral_2_eq_2)
  then obtain x y where "xs = [x, y]" by (auto simp: length_Suc_conv numeral_2_eq_2)
  with assms show ?thesis by (auto simp: add_eq_conv_ex)
qed

lemma both_headers:
  assumes "mset items = {#(k, x), (l, y)#}" and "canon k \<noteq> canon l"
  defines "h \<equiv> fold (\<lambda>(k, x). HmEmplace hl k x) items (HmEmpty hl)"
  shows "length (HmItems hl h) = 2" and "header_value hl canon h k = Some x" and "header_value hl canon h l = Some y"
  using two_entries [OF assms(1)] assms(2) two_headers_values(1) [of k l y x] two_headers_values(1) [of l k x y]
  unfolding h_def header_value_all by auto

lemma set_by_script_response:
  assumes "isTable lc t"
  obtains items where "response_of lc entry (set_by_script lc body t) 201 items (textOf lc body)"
    "mset items = {#(''Content-Type'', ''plain/text''), (''X-My-Header'', ''some-value'')#}"
proof -
  let ?hs = "[(''Content-Type'', ''plain/text''), (''X-My-Header'', ''some-value'')]"
  let ?t = "string_entries lc ?hs"
  have hs: "holds_strings lc entry named ?t ?hs" by (rule string_entries_hold) simp
  then have "mset (map (\<lambda>(k, x). (k, textOf lc x)) (getValues lc ?t)) = {#(''Content-Type'', ''plain/text''), (''X-My-Header'', ''some-value'')#}"
    using holds_strings_items [of ?t ?hs] by simp
  moreover have "response_of lc entry (set_by_script lc body t) 201 (map (\<lambda>(k, x). (k, textOf lc x)) (getValues lc ?t)) (textOf lc body)"
    using hs assms by (simp add: response_of_def set_by_script_def setValue_table holds_strings_def asNumber_number status_number)
  ultimately show thesis by (intro that)
qed

text \<open>The tables of a default context, and what becomes of the response when a script has changed its table.\<close>

lemma default_context_opens:
  obtains env u items where "context_open lc hl ht reh (new_execution_context junk (request_default hl) (response_default hl)) [] = Ret env"
    "isTable lc u" "response_of lc entry u kOk items []"
    "\<And>f. map_of (map (\<lambda>(name, v). (name, if name = kResponseVariableName then f v else v)) env) kResponseVariableName = Some (f u)"
proof -
  let ?c = "new_execution_context junk (request_default hl) (response_default hl)"
  note simps = new_execution_context_def request_default_def response_default_def populate_message_default_def new_request_def new_response_def
  have "context_ok hl canon ?c" by (simp add: context_ok_def simps names_distinct_empty um_ok_Nil)
  then obtain env t u items where env: "context_open lc hl ht reh ?c [] = Ret env"
    "map_of env = (map_of [])(kRequestVariableName \<mapsto> t, kResponseVariableName \<mapsto> u)" "isTable lc u"
    "response_of lc entry u (resp_status (ec_response ?c)) items (c_str (msg_body (ec_response ?c)))"
    by (rule context_open_close [OF _ um_ok_Nil]) auto
  have "map_of (map (\<lambda>(name, v). (name, if name = kResponseVariableName then f v else v)) env) kResponseVariableName
      = map_option f (map_of env kResponseVariableName)" for f
    by (induction env) auto
  moreover have "response_of lc entry u kOk items []" using env(4) by (simp add: simps c_str_def)
  ultimately show thesis using env(1-3) by (intro that) simp_all
qed

lemma outgoing_response_test_passes:
  assumes names: "canon kContentType \<noteq> canon kMyHeader"
    and body: "FromString js (textOf lc body) = Ret (JObj kvs)" "map_of kvs = map_of [(''name'', JStr ''Alex''), (''age'', JNum (NumberOf js 18))]"
  shows "test_outgoing_response js lc hl canon ht reh junk body = Ret True"
proof (rule default_context_opens [of junk])
  fix env u its
  let ?c = "new_execution_context junk (request_default hl) (response_default hl)"
  assume env: "context_open lc hl ht reh ?c [] = Ret env" "isTable lc u"
    and set: "\<And>f. map_of (map (\<lambda>(name, v). (name, if name = kResponseVariableName then f v else v)) env) kResponseVariableName = Some (f u)"
  obtain items where items: "response_of lc entry (set_by_script lc body u) 201 items (textOf lc body)"
    "mset items = {#(''Content-Type'', ''plain/text''), (''X-My-Header'', ''some-value'')#}"
    by (rule set_by_script_response [OF env(2)])
  from context_close_response [OF set [of "set_by_script lc body"] items(1), of ?c] both_headers [OF items(2)] names
  show "test_outgoing_response js lc hl canon ht reh junk body = Ret True"
    by (simp add: test_outgoing_response_def Let_def env(1) set_response_def body string_at_def At_obj AsString_str
        kContentType_def kMyHeader_def)
qed

lemma error_in_a_header_test_passes: "test_error_in_a_header lc hl canon ht reh junk err = Ret True"
proof (rule default_context_opens [of junk])
  fix env u items
  let ?c = "new_execution_context junk (request_default hl) (response_default hl)"
  let ?t = "string_entries lc [(''message'', err)]" and ?f = "setValue lc ''headers'' (string_entries lc [(''message'', err)])"
  assume env: "context_open lc hl ht reh ?c [] = Ret env" "isTable lc u" and r: "response_of lc entry u kOk items []"
    and set: "\<And>f. map_of (map (\<lambda>(name, v). (name, if name = kResponseVariableName then f v else v)) env) kResponseVariableName = Some (f u)"
  have t: "holds_strings lc entry named ?t [(''message'', err)]" by (rule string_entries_hold) simp
  then have "mset (map (\<lambda>(k, x). (k, textOf lc x)) (getValues lc ?t)) = mset [(''message'', err)]"
    by (rule holds_strings_items) simp
  then have "map (\<lambda>(k, x). (k, textOf lc x)) (getValues lc ?t) = [(''message'', err)]"
    by (simp only: mset.simps mset_single_iff)
  with r t env(2) have "response_of lc entry (?f u) kOk [(''message'', err)] []"
    by (simp add: response_of_def setValue_table holds_strings_def)
  from context_close_response [OF set [of ?f] this, of ?c] header_value_all [of "[(''message'', err)]" "''message''"]
  show "test_error_in_a_header lc hl canon ht reh junk err = Ret True"
    by (simp add: test_error_in_a_header_def Let_def env(1) set_response_def)
qed

end

lemma ref_executor_tests_pass:
  "test_incoming_request ref_json ref_luacpp ref_headers ref_http (\<lambda>m. m) (\<lambda>m. m) 0 (ToString ref_json (JObj test_document)) = Ret True"
  "test_outgoing_response ref_json ref_luacpp ref_headers lower ref_http (\<lambda>m. m) 0
     (RString (ToString ref_json (JObj [(''name'', JStr ''Alex''), (''age'', JNum 18)]))) = Ret True"
proof -
  have names: "lower kContentType \<noteq> lower kMyHeader" by (simp add: kContentType_def kMyHeader_def lower_def)
  have "json_wf (\<lambda>_. True) (JObj test_document)" by (simp add: test_document_def)
  then have "FromString ref_json (ToString ref_json (JObj test_document)) = Ret (JObj test_document)" by (rule rj.FromString_ToString)
  then show "test_incoming_request ref_json ref_luacpp ref_headers ref_http (\<lambda>m. m) (\<lambda>m. m) 0
      (ToString ref_json (JObj test_document)) = Ret True"
    by (intro rx.incoming_request_test_passes names) (simp_all add: ref_http_def ref_methods_def)
  let ?body = "JObj [(''name'', JStr ''Alex''), (''age'', JNum 18)] :: int json"
  have "FromString ref_json (ToString ref_json ?body) = Ret ?body" by (rule rj.FromString_ToString) simp
  then show "test_outgoing_response ref_json ref_luacpp ref_headers lower ref_http (\<lambda>m. m) 0 (RString (ToString ref_json ?body)) = Ret True"
    by (intro rx.outgoing_response_test_passes [OF names]) (simp_all add: ref_luacpp_def, simp add: ref_json_def)
qed

end
