(* ===== verification/Spec2Isabelle.thy ===== *)
theory Spec2Isabelle
  imports Memory_Limit Timeout Http_Tests Http_Client Project_Storage Scripts_Storage_Lock Instance_Registrator Lua_Kv
    Lua_Http_Client Lua_Memory Lua_Wrappers Service Project_Isolation
    Config_Schema Kv_Tests Http_Module_Tests Executor_Tests
begin

text \<open>
  Verification of \<open>lambda-executor\<close>, a service that runs scripts of its users on HTTP requests.
  Paths are below \<open>src/src/miet/lambda\<close> unless they start with \<open>src/\<close>.

  \<^bold>\<open>The program.\<close> A request names a script and describes an HTTP request in its body. The handler
  (\<open>handlers/execute-lambda.cpp\<close>) asks \<open>ScriptsStorage\<close> for the script, which keeps compiled scripts in
  an LRU cache and otherwise fetches the source from the database and compiles it; it reads the body
  into an \<open>ExecutionContext\<close> and hands both to the executor of the script engine. The Lua executor
  prepares an interpreter whose allocator charges a memory limit and whose count hook looks at a
  deadline, gives the script the request, the response, an HTTP client and a key-value storage as
  globals, runs it, and reads the response back. The handler writes the response as JSON. Beside
  this path, \<open>InstanceRegistrator\<close> enters the running process into a table of the database.
  \<open>src/src/main.cpp\<close> registers the components with the framework, which constructs them in parallel
  and lets each ask for the ones it needs.

  \<^bold>\<open>The theories.\<close>
  \<^item> \<open>Prelude\<close>: machine integers, C strings, the standard containers. \<open>Exceptions\<close>: \<open>exceptions.hpp\<close>, and
    the outcomes of a call (a value, an exception, an error of Lua, undefined behaviour or the end of the process, no
    fuel) with the operations that thread a state through them.
  \<^item> \<open>Memory_Limit\<close>, \<open>Timeout\<close>: \<open>execution/control\<close>, with \<open>LuaAllocator\<close> and the hook \<open>Check\<close> of
    \<open>engine/lua/executor.cpp\<close>. Shown: the bound on live memory and where the accounting is not exact;
    when a run is stopped.
  \<^item> \<open>Json\<close>, \<open>Http_Message\<close>, \<open>Http_Client\<close>: \<open>http\<close>. Shown: how a request is read from JSON, which
    documents are rejected, how a response is written, and the URL the client builds. \<open>Http_Tests\<close>: the
    unit tests of these classes, which the model passes over every lawful library.
  \<^item> \<open>Postgres\<close>, \<open>Project_Storage\<close>, \<open>Script_Fetcher\<close>: the statements the service sends, \<open>project/storage.cpp\<close>
    and \<open>fetchers\<close>, with the contracts of a storage and a fetcher.
  \<^item> \<open>Script\<close>: \<open>engine/base/script.hpp\<close> and the compilers of both engines.
  \<^item> \<open>Scripts_Storage\<close>: \<open>scripts-storage.cpp\<close> as one caller sees it; the cache invariant, and that a
    cache makes no difference to what \<open>Get\<close> returns. \<open>Scripts_Storage_Tasks\<close>: the same code cut at its
    lock, as a step relation of concurrent calls whose sections are atomic; where scripts come from.
    \<open>Scripts_Storage_Lock\<close>: the same code statement by statement with the lock and the calls that wait
    for it; it refines the atomic sections, no call waits for ever, and a refresh can be lost.
  \<^item> \<open>Instance_Registrator\<close>: \<open>components/instance-registrator.cpp\<close> and the fleet of processes that run it.
    Whether the framework runs the stopping callback of a process whose start has failed is a
    parameter of the fleet, and the properties say what follows in either case.
  \<^item> \<open>Lua_Api\<close>: the C API of Lua beside a stack machine. \<open>Lua_Utils\<close>, \<open>Lua_Serializer\<close>, \<open>Lua_Deserializer\<close>:
    \<open>engine/lua/utils.cpp\<close>; the documents written, the values rebuilt, their types, and the errors.
  \<^item> \<open>Lua_Kv\<close>, \<open>Lua_Http_Client\<close>: the modules \<open>modules/kv/storage.cpp\<close> and \<open>modules/http/client.cpp\<close> that
    a script calls. \<open>Project_Isolation\<close>: what the scripts of one project can reach through the storage.
    \<open>Execution_Context\<close>, \<open>Lua_Http_Context\<close>: \<open>execution-context.cpp\<close> and
    \<open>modules/http/context.cpp\<close>, the tables of request and response.
  \<^item> \<open>Engine\<close>: the interfaces of \<open>engine/base\<close> with their contract, and the stub engine. \<open>Lua_Executor\<close>:
    \<open>engine/lua/executor.cpp\<close>. \<open>Lua_Engine\<close>: the Lua engine meets the contract; what a script finds when it
    starts, what is returned and reported when it ends, that it is stopped within its timeout and one
    gap between two calls of the hook, and which scripts end the process or lead to undefined behaviour.
  \<^item> \<open>Lua_Memory\<close>: the interpreter as a client of \<open>LuaAllocator\<close>; as long as its run is charged for less
    than \<open>2^64\<close> bytes, a script never holds more memory than its context allows, and when it is
    reported to be out of memory it has asked for more than that. \<open>Lua_Wrappers\<close>: the files of \<open>src/lua/miet\<close> that scripts load with \<open>require\<close>.
  \<^item> \<open>Test_Mocks\<close>, \<open>Kv_Tests\<close>, \<open>Http_Module_Tests\<close>, \<open>Executor_Tests\<close>: the mocks of the storage and of the HTTP
    client, and the tests of \<open>src/src/ut/lua-executor-ut.cpp\<close> that use them or look at the tables of
    a request and a response. A test is the calls its script makes, over the states of Lua in which
    it makes them, with the assertions on what they leave; the model passes each of them over every
    lawful API of Lua, JSON library, header map and LuaCpp.
  \<^item> \<open>Execute_Lambda\<close>: the handler; which requests are answered, and with which error.
  \<^item> \<open>Startup\<close>: how the framework constructs components, as a step relation of tasks. \<open>Service\<close>: the list
    of \<open>main\<close> and the constructors of \<open>components\<close> and of the handler; the service comes up without a
    deadlock, wired as it should be, and does not come up with an unknown type of fetcher. \<open>Config_Schema\<close>: the
    schemas of the configuration, and what they let through although a constructor refuses it.
  \<^item> This theory joins the parts: a request is answered by the script it names, every request is
    answered if its script is one the engine answers for, and a service that was started answers its
    first request with the script that stands in the database.

  \<^bold>\<open>State.\<close> An object is a record with the fields of its class, a virtual class a record of its
  methods, and a call a function that returns its outcome and the new state. The handler runs over
  a pair of the world, which holds the database and whatever else is outside, and the store of
  scripts; the executor over the context and the world, since the handler reads the context after
  the executor has changed it.

  \<^bold>\<open>Libraries.\<close> The JSON library, the header map, the names of HTTP methods, the HTTP client and the
  PostgreSQL driver of userver, its LRU map, the C API of Lua, LuaCpp and boost's \<open>lexical_cast\<close> are
  records of functions that the definitions take as arguments. Locales state what is relied on
  (\<open>json_laws\<close>, \<open>header_laws\<close>, \<open>method_laws\<close>, \<open>postgres_laws\<close>, \<open>lru_laws\<close>, \<open>lua_laws\<close>, \<open>luacpp_laws\<close>,
  \<open>lua_vm_laws\<close>, \<open>lua_memory_laws\<close>, \<open>framework_laws\<close>, \<open>config_laws\<close>), and each is interpreted on an instance that computes (\<open>ref_json\<close>, \<open>ref_headers\<close>,
  \<open>ref_pg\<close>, \<open>ref_lru\<close>, \<open>lua_machine\<close>, \<open>ref_luacpp\<close>, \<open>ref_vm\<close>, \<open>ref_framework\<close>), on which the examples run. Contracts
  between components of the program (\<open>memory_limit_contract\<close>, \<open>timeout_contract\<close>, \<open>compiler_contract\<close>,
  \<open>fetcher_contract\<close>, \<open>kv_storage_contract\<close>, \<open>http_client_contract\<close>, \<open>script_engine_contract\<close>) are
  discharged for the program's own definitions.

  \<^bold>\<open>Bounds and fuel.\<close> \<open>size_t\<close> and the status are words, and so is the port. The serializer and the
  deserializer take fuel, as their recursion follows what the library returns; \<open>cost\<close> and \<open>depth\<close> of
  the document are enough. The stack of Lua has a number of slots (20 are guaranteed to a C function,
  and the service never asks for more); \<open>room\<close> and twice the \<open>depth\<close> are enough, and past them the model
  is in a \<open>Crash\<close>. The fuel of \<open>pcall\<close> counts the calls of the hook: a script that returns needs one more
  than it makes of them, and one that never returns is stopped after finitely many. A call of
  the store of scripts has at most eight steps. Numbers are exact up to \<open>2 ^ 53\<close>.

  \<^bold>\<open>Not modelled.\<close> The text of scripts and what the interpreter does between two calls of the hook;
  log messages; the position that \<open>luaL_error\<close> puts before a message; the framework's own components, what it does with requests before
  they reach the handler, and whether it runs the stopping callback of a component whose start has
  failed (a parameter); what follows undefined behaviour. Of the tests in \<open>src/src/ut/lua-executor-ut.cpp\<close>, those that only run a
  script, and those of the timeout and the memory limit: their mocks answer a const method by how
  often it was called, and the interfaces of the model have such methods as functions of the state.
  \<open>src/src/benchmarks\<close> are Lua texts run by the interpreter to measure time.
\<close>

section \<open>A request through the whole service\<close>

text \<open>
  The handler on the Lua engine, over the reference database and cache: whatever scripts that
  behave well do, every request is answered.
\<close>

interpretation lua_service: handler_env ref_json "\<lambda>_. True" ref_headers lower ref_http "\<lambda>m. m"
  "db_scripts_fetcher ref_pg" "lua_compiler ref_compile_string junk none" LuaLanguage ref_lru "\<lambda>(n, es). map_of es" fst ref_lru_ok
  "lua_executor fuel ndebug ref_luacpp ref_headers ref_http (\<lambda>m. m) ref_api (ref_vm clock) ref_control ref_deps"
  "lua_fits fuel ndebug ref_luacpp ref_entry ref_headers lower ref_http (\<lambda>m. m) ref_api rl_view (ref_vm clock) ref_reading
     ref_control (\<lambda>c. 1000000 * timeout c) ref_deps"
  ref_lexical_cast ms for junk none fuel ndebug clock ms
proof (rule handler_env.intro [OF rm.message_env_axioms rss.scripts_storage_env_axioms])
  show "executor_contract (lua_executor fuel ndebug ref_luacpp ref_headers ref_http (\<lambda>m. m) ref_api (ref_vm clock) ref_control ref_deps)
      LuaLanguage (lua_fits fuel ndebug ref_luacpp ref_entry ref_headers lower ref_http (\<lambda>m. m) ref_api rl_view (ref_vm clock)
        ref_reading ref_control (\<lambda>c. 1000000 * timeout c) ref_deps)"
    using re.engine.executor_contract_axioms by (simp add: lua_script_engine_def)
  show "handler_env_axioms ref_lexical_cast" by (simp add: handler_env_axioms_def ref_lexical_cast_def)
qed

text \<open>The members of the JSON document of a response.\<close>

definition answer_members ::
  "'d json_lib \<Rightarrow> http_status \<Rightarrow> (string \<times> string) list \<Rightarrow> string \<Rightarrow> (string \<times> 'd json) list" where
  "answer_members js status headers body =
     (''status'', JNum (NumberOf js (uint status mod 65536)))
     # (if headers = [] then [] else [(''headers'', JObj (str_members headers))])
     @ [(''body'', JStr body)]"

lemma answer_wf:
  assumes "num_ok (NumberOf js (uint status mod 65536))" and "distinct (map fst headers)"
  shows "json_wf num_ok (JObj (answer_members js status headers body))"
  using assms by (auto simp: answer_members_def str_members_def comp_def case_prod_beta' list_all_iff)

text \<open>The handler on the Lua engine, whatever storage the script comes from.\<close>

lemma request_answered:
  assumes "lua_executor_env js num_ok hl canon ht qreh lc entry named reh vm gval reading api view num_text int_num vt allowance"
    and "lexical_cast path_id = Ret i" and "get i (w, st) = (Ret s, (w1, st1))" and "sb_language s = LuaLanguage"
    and "reads_request js hl ht qreh body = Ret r"
    and "starts ndebug lc hl ht reh api vm ctl deps s (context_for hl junk r) w1 checker t" and "ep_timeout_vt ctl = vt"
    and "ends vm (Steps vm (rs_lua t) w1) (Clock vm w1 + allowance checker) n (Ret LUA_OK) L w2" and "n < fuel"
    and "\<forall>name v. map_of (rs_env t) name = Some v \<longrightarrow> (\<exists>x. reading L name v = Ret x)"
    and "map_of (rs_env t) kResponseVariableName = Some u" and "reading L kResponseVariableName u = Ret x"
    and "response_of lc entry x status items out" and "num_ok (NumberOf js (uint status mod 65536))"
  shows "\<exists>a headers. handle_request_throw js hl ht qreh junk lexical_cast get
        (lua_executor fuel ndebug lc hl ht reh api vm ctl deps) path_id body (w, st) = (Ret (Inr a), (w2, st1))
    \<and> FromString js (ha_body a) = Ret (JObj (answer_members js status (HmItems hl headers) out))
    \<and> (\<forall>name. header_value hl canon headers name = map_of (map (\<lambda>(k, v). (canon k, v)) items) (canon name))"
proof -
  have ctx: "lua_context_env js num_ok hl canon ht qreh lc entry named reh"
    using assms(1) by (simp add: lua_executor_env_def)
  then have env: "message_env js num_ok hl canon ht qreh" by (simp add: lua_context_env_def)
  then have laws: "header_laws hl canon" "json_laws js num_ok" by (simp_all add: message_env_def)
  let ?h = "fold (\<lambda>(k, x). HmEmplace hl k x) items (HmEmpty hl)"
  have ok: "context_ok hl canon (context_for hl junk r)" by (rule message_env.context_for_ok [OF env assms(5)])
  from lua_executor_env.execute_returns [OF assms(1,6) ok assms(4,7-13)]
  have run: "ExecuteScript (lua_executor fuel ndebug lc hl ht reh api vm ctl deps) (Some s) (context_for hl junk r, w1)
    = (Ret (), (set_response \<lparr>msg_headers = Some ?h, msg_body = out, resp_status = status\<rparr> (context_for hl junk r), w2))"
    by (simp add: lua_executor_def)
  have json: "response_to_json js hl \<lparr>msg_headers = Some ?h, msg_body = out, resp_status = status\<rparr>
      = Ret (JObj (answer_members js status (HmItems hl ?h) out))"
    by (simp add: message_env.response_to_json_written [OF env] answer_members_def)
  let ?a = "\<lparr>ha_content_type = kApplicationJson, ha_body = ToString js (JObj (answer_members js status (HmItems hl ?h) out))\<rparr>"
  have "handle_request_throw js hl ht qreh junk lexical_cast get
      (lua_executor fuel ndebug lc hl ht reh api vm ctl deps) path_id body (w, st) = (Ret (Inr ?a), (w2, st1))"
    using message_env.handle_executes [OF env, of lexical_cast path_id i get w st s w1 st1 body r junk
        "lua_executor fuel ndebug lc hl ht reh api vm ctl deps", OF assms(2,3,5)] run json
    by (simp add: set_response_def)
  moreover have "distinct (map fst (HmItems hl ?h))"
    by (rule lua_context_env.exact_names_distinct [OF ctx])
      (intro header_laws.names_distinct_emplace_all [OF laws(1)] header_laws.names_distinct_empty [OF laws(1)])
  then have "FromString js (ToString js (JObj (answer_members js status (HmItems hl ?h) out)))
      = Ret (JObj (answer_members js status (HmItems hl ?h) out))"
    by (intro json_laws.FromString_ToString [OF laws(2)] answer_wf [of num_ok js status, OF assms(14)])
  ultimately show ?thesis
    using lua_context_env.header_value_all [OF ctx, of items] by fastforce
qed

text \<open>
  C2. From the request to the answer, with the Lua engine. The script the storage returns for the
  identifier in the path runs on the request that the body describes, for at most one second of
  time; when it returns in time and leaves a well-formed response table, the answer is a JSON
  document, and a client that parses it reads the status, the headers and the body that the
  script left.
\<close>

theorem request_is_answered_by_the_script:
  assumes "lua_executor_env js num_ok hl canon ht qreh lc entry named reh vm gval reading api view num_text int_num vt allowance"
    and "lexical_cast path_id = Ret i" and "get i (w, st) = (Ret s, (w1, st1))" and "sb_language s = LuaLanguage"
    and "reads_request js hl ht qreh body = Ret r"
    and "starts ndebug lc hl ht reh api vm ctl deps s (context_for hl junk r) w1 checker t" and "ep_timeout_vt ctl = vt"
    and "ends vm (Steps vm (rs_lua t) w1) (Clock vm w1 + allowance checker) n (Ret LUA_OK) L w2" and "n < fuel"
    and "\<forall>name v. map_of (rs_env t) name = Some v \<longrightarrow> (\<exists>x. reading L name v = Ret x)"
    and "map_of (rs_env t) kResponseVariableName = Some u" and "reading L kResponseVariableName u = Ret x"
    and "response_of lc entry x status items out" and "num_ok (NumberOf js (uint status mod 65536))"
  shows "\<exists>a headers. handle_request_throw js hl ht qreh junk lexical_cast get
        (lua_executor fuel ndebug lc hl ht reh api vm ctl deps) path_id body (w, st) = (Ret (Inr a), (w2, st1))
    \<and> FromString js (ha_body a) = Ret (JObj (answer_members js status (HmItems hl headers) out))
    \<and> (\<forall>name. header_value hl canon headers name = map_of (map (\<lambda>(k, v). (canon k, v)) items) (canon name))"
  using assms by (rule request_answered)

text \<open>The sample request on the reference interpreter, whose script is the text \<open>return\<close>.\<close>

definition sample_body :: string where
  "sample_body = ToString ref_json (JObj sample_request)"

lemma sample_request_runs:
  fixes deps :: "((string \<times> string) list, db_tables) extra_params"
  obtains r t u x L items where "reads_request ref_json ref_headers ref_http (\<lambda>m. m) sample_body = Ret r"
    "starts True ref_luacpp ref_headers ref_http (\<lambda>m. m) ref_api (ref_vm (\<lambda>_. 5)) ref_control deps
      (sample_script ''return'') (context_for ref_headers 0 r) sample_db (new_timeout_checker kDefaultExecutionTimeout) t"
    "ends (ref_vm (\<lambda>_. 5)) (Steps (ref_vm (\<lambda>_. 5)) (rs_lua t) sample_db)
      (Clock (ref_vm (\<lambda>_. 5)) sample_db + 1000000 * timeout (new_timeout_checker kDefaultExecutionTimeout)) 0 (Ret LUA_OK) L sample_db"
    "\<forall>name v. map_of (rs_env t) name = Some v \<longrightarrow> (\<exists>x. ref_reading L name v = Ret x)"
    "map_of (rs_env t) kResponseVariableName = Some u" "ref_reading L kResponseVariableName u = Ret x"
    "response_of ref_luacpp ref_entry x 200 items ''return''"
proof -
  have wf: "json_wf (\<lambda>_. True) (JObj sample_request)"
    by (simp add: sample_request_def str_members_def)
  have described: "describes_request sample_request ''PATCH'' ''/lua'' [] [(''X-A'', ''1''), (''x-a'', ''2'')] [(''k'', ''v'')]"
    by (simp add: describes_request_def sample_request_def)
  have known: "HttpMethodFromString ref_http ''PATCH'' = Ret kPatch" by (simp add: ref_http_def ref_methods_def)
  obtain r where r: "reads_request ref_json ref_headers ref_http (\<lambda>m. m) sample_body = Ret r"
    using rm.request_from_json_described [OF described known]
    by (auto simp: reads_request_def sample_body_def rj.FromString_ToString [OF wf])
  have ok: "context_ok ref_headers lower (context_for ref_headers 0 r)" by (rule rm.context_for_ok [OF r])
  have c: "resp_status (ec_response (context_for ref_headers 0 r)) = 200"
    "eo_timeout (ec_options (context_for ref_headers 0 r)) = kDefaultExecutionTimeout"
    by (simp_all add: context_for_def set_options_def new_execution_context_def response_default_def
        populate_message_default_def kOk_def)
  obtain t where t: "starts True ref_luacpp ref_headers ref_http (\<lambda>m. m) ref_api (ref_vm (\<lambda>_. 5)) ref_control deps
      (sample_script ''return'') (context_for ref_headers 0 r) sample_db (new_timeout_checker kDefaultExecutionTimeout) t"
    "rl_code (rs_lua t) = ''return''"
    by (rule ref_starts [OF ok, of True "\<lambda>_. 5" deps "''return''" sample_db, unfolded c])
  show thesis
    by (rule ref_script_ends [where stop = "Clock (ref_vm (\<lambda>_. 5)) sample_db
        + 1000000 * timeout (new_timeout_checker kDefaultExecutionTimeout)", OF t(1) ok t(2), unfolded c])
      (use that r t(1) in simp_all)
qed

theorem request_is_answered_by_the_script_witness:
  "\<exists>a w st. handle_request_throw ref_json ref_headers ref_http (\<lambda>m. m) 0 ref_lexical_cast
      (scripts_get (db_scripts_fetcher ref_pg) sample_compiler ref_lru)
      (lua_executor 1 True ref_luacpp ref_headers ref_http (\<lambda>m. m) ref_api (ref_vm (\<lambda>_. 5)) ref_control ref_deps)
      ''7'' sample_body (sample_db, sample_storage) = (Ret (Inr a), (w, st))
    \<and> (\<exists>kvs. FromString ref_json (ha_body a) = Ret (JObj kvs) \<and> map_of kvs ''body'' = Some (JStr ''return''))"
proof (rule sample_request_runs [of ref_deps])
  fix r t u x L items
  assume run: "reads_request ref_json ref_headers ref_http (\<lambda>m. m) sample_body = Ret r"
    "starts True ref_luacpp ref_headers ref_http (\<lambda>m. m) ref_api (ref_vm (\<lambda>_. 5)) ref_control ref_deps
      (sample_script ''return'') (context_for ref_headers 0 r) sample_db (new_timeout_checker kDefaultExecutionTimeout) t"
    "ends (ref_vm (\<lambda>_. 5)) (Steps (ref_vm (\<lambda>_. 5)) (rs_lua t) sample_db)
      (Clock (ref_vm (\<lambda>_. 5)) sample_db + 1000000 * timeout (new_timeout_checker kDefaultExecutionTimeout)) 0 (Ret LUA_OK) L sample_db"
    "\<forall>name v. map_of (rs_env t) name = Some v \<longrightarrow> (\<exists>x. ref_reading L name v = Ret x)"
    "map_of (rs_env t) kResponseVariableName = Some u" "ref_reading L kResponseVariableName u = Ret x"
    "response_of ref_luacpp ref_entry x 200 items ''return''"
  have id: "ref_lexical_cast ''7'' = Ret 7" by (simp add: ref_lexical_cast_def)
  have "\<exists>st1. scripts_get (db_scripts_fetcher ref_pg) sample_compiler ref_lru 7 (sample_db, sample_storage)
      = (Ret (sample_script ''return''), (sample_db, st1))"
    by (simp add: sample_simps sample_script_def)
  then obtain st1 where get: "scripts_get (db_scripts_fetcher ref_pg) sample_compiler ref_lru 7 (sample_db, sample_storage)
      = (Ret (sample_script ''return''), (sample_db, st1))" by blast
  from request_is_answered_by_the_script [OF sample_setting, of ref_lexical_cast "''7''" 7
      "scripts_get (db_scripts_fetcher ref_pg) sample_compiler ref_lru", OF id get _ run(1,2) _ run(3) _ run(4-7), of 1]
  show ?thesis by (fastforce simp: engine_simps answer_members_def)
qed

section \<open>Every request is answered\<close>

text \<open>
  C4. Whatever the identifier in the path and the body are, the handler returns an answer or one
  of the errors of userver, no exception escapes from it, and the cache of scripts, if there is
  one, keeps its invariant. This holds for every storage and every executor that keep their
  contracts, provided that the contract of the executor covers the one run this request leads to:
  \<open>fits\<close> is asked of the script the storage returns, in the context built from the body, and
  not at all of a request that does not come to a run. The stub promises every run; the Lua
  engine (\<open>lua_fits\<close>) the runs in which a script is stopped, throws, ends in an error with a
  message, or leaves a response that can be read.
\<close>

theorem every_request_is_answered:
  assumes "handler_env js num_ok hl canon ht reh ft cp lang lru contents capacity ok ex fits lexical_cast"
    and "ss_use_cache st \<longrightarrow> cache_inv lang contents ok st"
    and "\<And>i s w1 st1 rq. lexical_cast path_id = Ret i \<Longrightarrow> scripts_get ft cp lru i (w, st) = (Ret s, (w1, st1))
      \<Longrightarrow> reads_request js hl ht reh body = Ret rq \<Longrightarrow> fits s (context_for hl junk rq) w1"
  shows "\<exists>r w' st'. handle_request_throw js hl ht reh junk lexical_cast (scripts_get ft cp lru) ex path_id body (w, st)
      = (Ret r, (w', st')) \<and> (ss_use_cache st' \<longrightarrow> cache_inv lang contents ok st') \<and> ss_use_cache st' = ss_use_cache st"
  using assms by (rule handler_env.handle_answers)

text \<open>The run of the sample script on the Lua engine is one of those its contract covers.\<close>

lemma sample_run_fits:
  assumes "reads_request ref_json ref_headers ref_http (\<lambda>m. m) sample_body = Ret rq"
  shows "lua_fits 1 True ref_luacpp ref_entry ref_headers lower ref_http (\<lambda>m. m) ref_api rl_view (ref_vm (\<lambda>_. 5)) ref_reading
    ref_control (\<lambda>c. 1000000 * timeout c) ref_deps (sample_script ''return'') (context_for ref_headers 0 rq) sample_db"
proof (rule sample_request_runs [of ref_deps])
  fix r t u x L items
  assume "reads_request ref_json ref_headers ref_http (\<lambda>m. m) sample_body = Ret r"
    and run: "starts True ref_luacpp ref_headers ref_http (\<lambda>m. m) ref_api (ref_vm (\<lambda>_. 5)) ref_control ref_deps
      (sample_script ''return'') (context_for ref_headers 0 r) sample_db (new_timeout_checker kDefaultExecutionTimeout) t"
    "ends (ref_vm (\<lambda>_. 5)) (Steps (ref_vm (\<lambda>_. 5)) (rs_lua t) sample_db)
      (Clock (ref_vm (\<lambda>_. 5)) sample_db + 1000000 * timeout (new_timeout_checker kDefaultExecutionTimeout)) 0 (Ret LUA_OK) L sample_db"
    "\<forall>name v. map_of (rs_env t) name = Some v \<longrightarrow> (\<exists>x. ref_reading L name v = Ret x)"
    "map_of (rs_env t) kResponseVariableName = Some u" "ref_reading L kResponseVariableName u = Ret x"
    "response_of ref_luacpp ref_entry x 200 items ''return''"
  with assms have "r = rq" by simp
  from run(2-) have "behaves_well (ref_vm (\<lambda>_. 5)) ref_luacpp ref_entry ref_reading rl_view (rs_env t)
      (Steps (ref_vm (\<lambda>_. 5)) (rs_lua t) sample_db)
      (Clock (ref_vm (\<lambda>_. 5)) sample_db + 1000000 * timeout (new_timeout_checker kDefaultExecutionTimeout)) 0"
    unfolding behaves_well_def by blast
  with run(1) rm.context_for_ok [OF assms, of 0] show ?thesis
    unfolding lua_fits_def \<open>r = rq\<close> by (metis zero_less_one)
qed

theorem every_request_is_answered_witness:
  "(\<exists>r w st. handle_request_throw ref_json ref_headers ref_http (\<lambda>m. m) 0 ref_lexical_cast
      (scripts_get (db_scripts_fetcher ref_pg) sample_compiler ref_lru)
      (lua_executor 1 True ref_luacpp ref_headers ref_http (\<lambda>m. m) ref_api (ref_vm (\<lambda>_. 5)) ref_control ref_deps)
      ''7'' sample_body (sample_db, sample_storage) = (Ret r, (w, st)) \<and> cache_inv LuaLanguage (\<lambda>(n, es). map_of es) ref_lru_ok st)
   \<and> (\<exists>r w st. handle_request_throw ref_json ref_headers ref_http (\<lambda>m. m) 0 ref_lexical_cast
      (scripts_get (db_scripts_fetcher ref_pg) (stub_compiler (0, 0)) ref_lru) stub_executor ''7'' ''nonsense''
      (sample_db, stub_storage) = (Ret r, (w, st)))"
proof (intro conjI)
  have get: "\<exists>st1. scripts_get (db_scripts_fetcher ref_pg) sample_compiler ref_lru 7 (sample_db, sample_storage)
      = (Ret (sample_script ''return''), (sample_db, st1))"
    by (simp add: sample_simps sample_script_def)
  have "i = 7" if "ref_lexical_cast ''7'' = Ret i" for i using that by (simp add: ref_lexical_cast_def)
  with get sample_run_fits sample_storage_inv
  show "\<exists>r w st. handle_request_throw ref_json ref_headers ref_http (\<lambda>m. m) 0 ref_lexical_cast
      (scripts_get (db_scripts_fetcher ref_pg) sample_compiler ref_lru)
      (lua_executor 1 True ref_luacpp ref_headers ref_http (\<lambda>m. m) ref_api (ref_vm (\<lambda>_. 5)) ref_control ref_deps)
      ''7'' sample_body (sample_db, sample_storage) = (Ret r, (w, st)) \<and> cache_inv LuaLanguage (\<lambda>(n, es). map_of es) ref_lru_ok st"
    using every_request_is_answered [where junk = 0 and path_id = "''7''" and body = sample_body and w = sample_db
        and st = sample_storage, OF lua_service.handler_env_axioms [of "(0, 0)" "[]" 1 True "\<lambda>_. 5", folded sample_compiler_def]]
    by fastforce
  show "\<exists>r w st. handle_request_throw ref_json ref_headers ref_http (\<lambda>m. m) 0 ref_lexical_cast
      (scripts_get (db_scripts_fetcher ref_pg) (stub_compiler (0, 0)) ref_lru) stub_executor ''7'' ''nonsense''
      (sample_db, stub_storage) = (Ret r, (w, st))"
    using every_request_is_answered [where junk = 0 and path_id = "''7''" and body = "''nonsense''" and w = sample_db,
        OF stub_service.handler_env_axioms [of "(0, 0)"]] stub_storage_inv by blast
qed

section \<open>From the start of the process to an answer\<close>

text \<open>The row of the database, compiled: what the first request for a script runs.\<close>

lemma row_is_loaded:
  assumes "postgres_laws cluster tables replica" and "Execute cluster kSlaveOrMaster (SelectScript i) w = (Ret res, w1)"
    and "db_scripts (replica w) i = Some (Some p, code)" and "compile_string [] code = Ret (Some snippet)"
  shows "load_script (db_scripts_fetcher cluster) (lua_compiler compile_string junk none) i w
    = (Ret \<lparr>sb_language = LuaLanguage, sb_project_id = p, sb_script_id = i, lua_snippet = snippet\<rparr>, w1)"
  using postgres_laws.db_fetch_row [OF assms(1-3)] assms(4)
  by (simp add: load_script_def db_scripts_fetcher_def lua_compiler_def lua_compile_def outcome_simps set_code_snippet_def
      new_lua_script_def set_project_id_def set_script_id_def)

text \<open>
  C1. The whole process. When the service, linked with the Lua engine, has started, the handler
  answers its first request with what the script leaves that stands in the database under the
  identifier in the path: the fetcher finds its source, the compiler of the engine compiles it,
  the executor of the engine runs it for its project, with the checkers, the HTTP client and the
  key-value storage the service was built with.
\<close>

theorem started_service_answers:
  assumes "service_laws framework minimal config fw_rank fw_object fw_finds cluster client info entries"
    and "start_reach steps (start_state (component_list minimal) (service_constructor
      (lua_script_engine fuel ndebug lc hl ht reh api vm compile_string ids none) ht lru config framework)) st"
    and "\<nexists>st'. start_step st st'"
    and "postgres_laws cluster tables replica" and "lru_laws lru contents capacity ok"
    and "lua_executor_env js num_ok hl canon ht qreh lc entry named reh vm gval reading api view num_text int_num
      timeout_checker_vt (\<lambda>c. 1000000 * timeout c)"
    and "lexical_cast path_id = Ret i" and "reads_request js hl ht qreh body = Ret r"
    and "Execute cluster kSlaveOrMaster (SelectScript i) w = (Ret res, w1)"
    and "db_scripts (replica w) i = Some (Some p, code)" and "compile_string [] code = Ret (Some snippet)"
    and "starts ndebug lc hl ht reh api vm service_control (service_deps ht client cluster)
      \<lparr>sb_language = LuaLanguage, sb_project_id = p, sb_script_id = i, lua_snippet = snippet\<rparr> (context_for hl junk r) w1 checker t"
    and "ends vm (Steps vm (rs_lua t) w1) (Clock vm w1 + 1000000 * timeout checker) n (Ret LUA_OK) L w2" and "n < fuel"
    and "\<forall>name v. map_of (rs_env t) name = Some v \<longrightarrow> (\<exists>x. reading L name v = Ret x)"
    and "map_of (rs_env t) kResponseVariableName = Some u" and "reading L kResponseVariableName u = Ret x"
    and "response_of lc entry x status items out" and "num_ok (NumberOf js (uint status mod 65536))"
  shows "\<exists>handler store a store' headers. st ExecuteLambdaId = Some (Ready (HandlerObject handler))
    \<and> store = el_scripts_storage handler
    \<and> handle_request_throw js hl ht qreh junk lexical_cast (scripts_get (so_fetcher store) (so_compiler store) lru)
        (el_executor handler) path_id body (w, so_storage store) = (Ret (Inr a), (w2, store'))
    \<and> FromString js (ha_body a) = Ret (JObj (answer_members js status (HmItems hl headers) out))
    \<and> (\<forall>name. header_value hl canon headers name = map_of (map (\<lambda>(k, v). (canon k, v)) items) (canon name))"
proof -
  let ?create = "lua_script_engine fuel ndebug lc hl ht reh api vm compile_string ids none"
  let ?engine = "new_script_engine_component ?create ht client cluster"
  let ?store = "wired_storage ?engine lru cluster entries"
  let ?script = "\<lparr>sb_language = LuaLanguage, sb_project_id = p, sb_script_id = i, lua_snippet = snippet\<rparr>"
  have "ExecuteLambdaId \<in> set (component_list minimal)" by (simp add: component_list_def)
  with service_laws.start_finishes_wired [OF assms(1,2)] assms(3)
  have handler: "st ExecuteLambdaId = Some (Ready (HandlerObject \<lparr>el_executor = se_executor ?engine, el_scripts_storage = ?store\<rparr>))" by force
  have engine: "se_compiler ?engine = lua_compiler compile_string ids none"
    "se_executor ?engine = lua_executor fuel ndebug lc hl ht reh api vm service_control (service_deps ht client cluster)"
    by (simp_all add: new_script_engine_component_def lua_script_engine_def)
  have store: "so_fetcher ?store = db_scripts_fetcher cluster" "so_compiler ?store = lua_compiler compile_string ids none"
    "so_storage ?store = new_scripts_storage lru entries"
    by (simp_all add: wired_storage_def engine)
  obtain store' where get: "scripts_get (so_fetcher ?store) (so_compiler ?store) lru i (w, so_storage ?store) = (Ret ?script, (w1, store'))"
    unfolding store using first_get [OF assms(5) row_is_loaded [where compile_string = compile_string, OF assms(4,9-11)]] by blast
  have control: "ep_timeout_vt service_control = timeout_checker_vt" by (simp add: service_control_def)
  have "sb_language ?script = LuaLanguage" by simp
  note request_answered [where lexical_cast = lexical_cast and get = "scripts_get (so_fetcher ?store) (so_compiler ?store) lru"
      and reading = reading and num_ok = num_ok and allowance = "\<lambda>c. 1000000 * timeout c",
      OF assms(6,7) get this assms(8,12) control assms(13-19)]
  then obtain a headers where
    "handle_request_throw js hl ht qreh junk lexical_cast (scripts_get (so_fetcher ?store) (so_compiler ?store) lru)
      (se_executor ?engine) path_id body (w, so_storage ?store) = (Ret (Inr a), (w2, store'))"
    "FromString js (ha_body a) = Ret (JObj (answer_members js status (HmItems hl headers) out))"
    "\<forall>name. header_value hl canon headers name = map_of (map (\<lambda>(k, v). (canon k, v)) items) (canon name)"
    unfolding engine by blast
  with handler show ?thesis
    by (intro exI [of _ "\<lparr>el_executor = se_executor ?engine, el_scripts_storage = ?store\<rparr>"] exI [of _ ?store]
        exI [of _ a] exI [of _ store'] exI [of _ headers]) simp
qed

text \<open>The service over the small framework, from its start to its answer.\<close>

definition sample_engine ::
  "(memory_limit_checker, timeout_checker) execution_control_params \<Rightarrow> ((string \<times> string) list, db_tables) extra_params
    \<Rightarrow> ((string, unit) lua_script_ext, (string \<times> string) list, db_tables) script_engine_base" where
  "sample_engine = lua_script_engine 1 True ref_luacpp ref_headers ref_http (\<lambda>m. m) ref_api (ref_vm (\<lambda>_. 5)) ref_compile_string (0, 0) []"

theorem started_service_answers_witness:
  "\<exists>st handler store a s kvs. st ExecuteLambdaId = Some (Ready (HandlerObject handler)) \<and> store = el_scripts_storage handler
    \<and> (\<exists>n. start_reach n (start_state (component_list [])
        (service_constructor sample_engine ref_http ref_lru (ref_config ''db'') ref_framework)) st)
    \<and> handle_request_throw ref_json ref_headers ref_http (\<lambda>m. m) 0 ref_lexical_cast
        (scripts_get (so_fetcher store) (so_compiler store) ref_lru) (el_executor handler) ''7'' sample_body
        (sample_db, so_storage store) = (Ret (Inr a), s)
    \<and> FromString ref_json (ha_body a) = Ret (JObj kvs) \<and> map_of kvs ''body'' = Some (JStr ''return'')"
proof (rule sample_request_runs [of "service_deps ref_http offline ref_pg"])
  fix r t u x L items
  assume run: "reads_request ref_json ref_headers ref_http (\<lambda>m. m) sample_body = Ret r"
    "starts True ref_luacpp ref_headers ref_http (\<lambda>m. m) ref_api (ref_vm (\<lambda>_. 5)) ref_control (service_deps ref_http offline ref_pg)
      (sample_script ''return'') (context_for ref_headers 0 r) sample_db (new_timeout_checker kDefaultExecutionTimeout) t"
    "ends (ref_vm (\<lambda>_. 5)) (Steps (ref_vm (\<lambda>_. 5)) (rs_lua t) sample_db)
      (Clock (ref_vm (\<lambda>_. 5)) sample_db + 1000000 * timeout (new_timeout_checker kDefaultExecutionTimeout)) 0 (Ret LUA_OK) L sample_db"
    "\<forall>name v. map_of (rs_env t) name = Some v \<longrightarrow> (\<exists>x. ref_reading L name v = Ret x)"
    "map_of (rs_env t) kResponseVariableName = Some u" "ref_reading L kResponseVariableName u = Ret x"
    "response_of ref_luacpp ref_entry x 200 items ''return''"
  have id: "ref_lexical_cast ''7'' = Ret 7" by (simp add: ref_lexical_cast_def)
  have control: "ref_control = service_control" by (simp add: ref_control_def service_control_def)
  obtain res where row: "Execute ref_pg kSlaveOrMaster (SelectScript 7) sample_db = (Ret res, sample_db)"
    "db_scripts sample_db 7 = Some (Some 1, ''return'')"
    by (simp add: sample_db_def ref_pg_def ref_execute_def returnS_def)
  have code: "ref_compile_string [] ''return'' = Ret (Some ''return'')" by (simp add: ref_compile_string_def)
  obtain n st where st: "start_reach n (start_state (component_list [])
      (service_constructor sample_engine ref_http ref_lru (ref_config ''db'') ref_framework)) st" "\<nexists>st'. start_step st st'"
    using rf.start_ends [of sample_engine ref_http ref_lru] by blast
  show ?thesis
    using started_service_answers [where lexical_cast = ref_lexical_cast and path_id = "''7''" and reading = ref_reading,
        OF rf.service_laws_axioms st(1) [unfolded sample_engine_def] st(2)
        rp.postgres_laws_axioms rlru.lru_laws_axioms sample_setting id run(1) row code
        run(2) [unfolded control sample_script_def] run(3) _ run(4-7)] st(1)
    by (fastforce simp: answer_members_def)
qed

end
